(* ===== verification/Prelude.thy ===== *)
theory Prelude
  imports Main
begin

text \<open>
  Shared vocabulary of the development: the model's names for Go's basic types, the
  conversions between Go integer widths, Go's map iteration, and the generic list and
  map lemmas that the component theories share.

  A Go \<open>string\<close> and a \<open>[]byte\<close> are both sequences of bytes; HOL's \<open>char\<close> has
  exactly 256 values, so both are \<open>string\<close> here. A Go \<open>int\<close> is an \<open>int\<close>;
  wherever the code narrows one, the wrap-around is written out with \<open>int32_of\<close>.
  A \<open>time.Time\<close> is the number of nanoseconds since the zero time of Go (1 January of
  year 1), so \<open>time.Time{}\<close> is 0; a \<open>time.Duration\<close> is an \<open>int\<close> of nanoseconds.
\<close>

section \<open>Names for Go's types\<close>

type_synonym bytes = string
type_synonym time = int
type_synonym duration = int

abbreviation zero_time :: time where
  "zero_time \<equiv> 0"

abbreviation second :: duration where
  "second \<equiv> 1000000000"

abbreviation minute :: duration where
  "minute \<equiv> 60 * second"

abbreviation hour :: duration where
  "hour \<equiv> 60 * minute"

text \<open>The largest \<open>time.Duration\<close>, about 292 years; today is about 2024 years after
  Go's zero time, so every real clock reading is larger.\<close>

abbreviation max_duration :: duration where
  "max_duration \<equiv> 2 ^ 63 - 1"

text \<open>The collection of the equations that unfold the small state updates of the
  components; each component adds its own.\<close>

named_theorems broker_defs
named_theorems pool_defs
named_theorems worker_defs

section \<open>Integer conversions\<close>

text \<open>The conversion \<open>int32(x)\<close> keeps the low 32 bits and reads them as two's complement.\<close>

definition int32_of :: "int \<Rightarrow> int" where
  "int32_of x = signed_take_bit 31 x"

lemma int32_of_id [simp]: "- (2 ^ 31) \<le> x \<Longrightarrow> x < 2 ^ 31 \<Longrightarrow> int32_of x = x"
  unfolding int32_of_def by (rule signed_take_bit_int_eq_self) simp_all

lemma int32_of_bounds: "- (2 ^ 31) \<le> int32_of x \<and> int32_of x < 2 ^ 31"
  unfolding int32_of_def
  using signed_take_bit_int_greater_eq_minus_exp [of 31 x] signed_take_bit_int_less_exp [of 31 x]
  by simp

section \<open>Iterating over a Go map\<close>

text \<open>
  Go leaves the order of \<open>range\<close> over a map open. The order is a parameter of every
  definition that iterates: a list that holds each key of the map once.
\<close>

definition iterates :: "'k list \<Rightarrow> ('k \<rightharpoonup> 'v) \<Rightarrow> bool" where
  "iterates ks m \<longleftrightarrow> distinct ks \<and> set ks = dom m"

lemma iterates_distinct [dest]: "iterates ks m \<Longrightarrow> distinct ks"
  by (simp add: iterates_def)

lemma iterates_set: "iterates ks m \<Longrightarrow> set ks = dom m"
  by (simp add: iterates_def)

lemma iterates_upd_same: "iterates ks m \<Longrightarrow> k \<in> dom m \<Longrightarrow> iterates ks (m(k \<mapsto> v))"
  by (auto simp: iterates_def)

section \<open>Lists\<close>

lemma filter_eq_singleton:
  "distinct (map f xs) \<Longrightarrow> x \<in> set xs \<Longrightarrow> filter (\<lambda>y. f y = f x) xs = [x]"
  by (induction xs) (auto simp: filter_empty_conv image_iff)

lemma distinct_remove1_removeAll_eq: "distinct xs \<Longrightarrow> remove1 x xs = removeAll x xs"
  by (rule distinct_remove1_removeAll)

end
