(* ===== verification/Broker.thy ===== *)
theory Broker
  imports Prelude
begin

text \<open>
  The broker interface package (\<open>internal/broker/broker.go\<close>): the message that passes
  between a broker and the worker, and the broker's configuration. The operations of the
  interface are the ones of \<open>SqsBroker\<close>; what the worker relies on is the locale
  \<open>group_broker\<close> at the end, which \<open>SqsBroker\<close> interprets.
\<close>

section \<open>Messages and configuration\<close>

record message =
  m_ID :: string
  m_Body :: bytes
  m_Attributes :: "string \<rightharpoonup> string"
  m_MessageGroupID :: string
  m_MessageDeduplicationID :: string
  m_ReceiptHandle :: string

record broker_config =
  c_QueueURL :: string
  c_Region :: string
  c_Endpoint :: string
  c_MaxMessages :: int
  c_VisibilityTimeout :: int
  c_WaitTimeSeconds :: int
  c_FetchMode :: string
  c_BatchSize :: int
  c_MaxPrefetch :: int

text \<open>The groups of a batch of messages, in the order of the messages.\<close>

abbreviation groups_of :: "message list \<Rightarrow> string list" where
  "groups_of ms \<equiv> map m_MessageGroupID ms"

section \<open>What a client of a grouped broker relies on\<close>

text \<open>
  A broker state has an invariant, and groups that are busy or not. One receive hands out at most one
  message per group; no receive frees a group; an acknowledgement can free only the
  group of the message it names. The environment of a call (what the queue service
  answers, the clock, the map iteration orders) is an argument, and \<open>ok_env\<close> says that the iteration
  orders really are orders of the maps they iterate over.
\<close>

locale group_broker =
  fixes receive :: "'env \<Rightarrow> int \<Rightarrow> 'b \<Rightarrow> ('err + message list) \<times> 'b"
    and ack :: "'env \<Rightarrow> message \<Rightarrow> 'b \<Rightarrow> 'err option \<times> 'b"
    and busy :: "'b \<Rightarrow> string \<Rightarrow> bool"
    and ok_env :: "'env \<Rightarrow> bool"
    and inv :: "'b \<Rightarrow> bool"
  assumes receive_distinct:
      "ok_env e \<Longrightarrow> inv b \<Longrightarrow> receive e n b = (Inr ms, b') \<Longrightarrow> distinct (groups_of ms)"
    and receive_inv: "inv b \<Longrightarrow> inv (snd (receive e n b))"
    and ack_inv: "inv b \<Longrightarrow> inv (snd (ack e m b))"
    and receive_keeps_busy: "busy b g \<Longrightarrow> busy (snd (receive e n b)) g"
    and ack_other: "m_MessageGroupID m \<noteq> g \<Longrightarrow> busy (snd (ack e m b)) g = busy b g"
    and ack_failed: "ack e m b = (Some err, b') \<Longrightarrow> busy b' g = busy b g"
begin

text \<open>A run of acknowledgements, as the worker's goroutines make them.\<close>

fun ack_all :: "('env \<times> message) list \<Rightarrow> 'b \<Rightarrow> 'b" where
  "ack_all [] b = b"
| "ack_all ((e, m) # ms) b = ack_all ms (snd (ack e m b))"

text \<open>Acknowledging only messages of other groups leaves a busy group busy.\<close>

lemma ack_all_keeps_busy:
  "busy b g \<Longrightarrow> (\<forall>m \<in> snd ` set ems. m_MessageGroupID m \<noteq> g) \<Longrightarrow> busy (ack_all ems b) g"
  by (induction ems b rule: ack_all.induct) (auto simp: ack_other)

text \<open>
  In one batch the messages before and after a given one belong to other groups, so
  acknowledging all the others never frees its group.
\<close>

lemma batch_others_keep_busy:
  assumes "ok_env e" and "inv b" and "receive e n b = (Inr (xs @ m # ys), b')"
    and "busy b'' (m_MessageGroupID m)"
    and "set ems \<subseteq> UNIV \<times> (set xs \<union> set ys)"
  shows "busy (ack_all ems b'') (m_MessageGroupID m)"
proof (rule ack_all_keeps_busy)
  from receive_distinct [OF assms(1,2,3)]
  have notin: "m_MessageGroupID m \<notin> m_MessageGroupID ` (set xs \<union> set ys)" by auto
  show "\<forall>x \<in> snd ` set ems. m_MessageGroupID x \<noteq> m_MessageGroupID m"
  proof
    fix x assume "x \<in> snd ` set ems"
    then have "x \<in> set xs \<union> set ys" using assms(5) by auto
    then have "m_MessageGroupID x \<in> m_MessageGroupID ` (set xs \<union> set ys)" by (rule imageI)
    with notin show "m_MessageGroupID x \<noteq> m_MessageGroupID m" by metis
  qed
qed (rule assms(4))

end

end
