(* ===== verification/Base64.thy ===== *)
theory Base64
  imports Prelude
begin

text \<open>
  \<open>base64.StdEncoding\<close> of Go's standard library, as the broker and the protocol use it:
  \<open>EncodeToString\<close> and \<open>DecodeString\<close> over bytes. The decoder is Go's: it skips carriage
  returns and newlines anywhere, wants full quanta of four symbols with \<open>=\<close> padding at
  the very end, and (not being in strict mode) ignores the bits that the padding leaves
  over. An error of the decoder is \<open>None\<close>; its offset is not modelled.
\<close>

section \<open>The alphabet\<close>

definition b64_alphabet :: string where
  "b64_alphabet = ''ABCDEFGHIJKLMNOPQRSTUVWXYZabcdefghijklmnopqrstuvwxyz0123456789+/''"

definition b64_char :: "nat \<Rightarrow> char" where
  "b64_char n = b64_alphabet ! n"

text \<open>The inverse table: the position of a symbol of the alphabet.\<close>

definition b64_val :: "char \<Rightarrow> nat option" where
  "b64_val c = map_of (zip b64_alphabet [0..<64]) c"

lemma length_b64_alphabet [simp]: "length b64_alphabet = 64"
  by (simp add: b64_alphabet_def)

lemma distinct_b64_alphabet: "distinct b64_alphabet"
  unfolding b64_alphabet_def by simp

lemma b64_val_char [simp]: "n < 64 \<Longrightarrow> b64_val (b64_char n) = Some n"
  unfolding b64_val_def b64_char_def
  using map_of_zip_nth [of b64_alphabet "[0..<64]" n] distinct_b64_alphabet by simp

lemma b64_val_bound: "b64_val c = Some n \<Longrightarrow> n < 64"
  unfolding b64_val_def by (auto dest!: map_of_SomeD simp: set_zip)

lemma b64_char_in: "n < 64 \<Longrightarrow> b64_char n \<in> set b64_alphabet"
  by (simp add: b64_char_def)

lemma b64_char_no_pad [simp]: "n < 64 \<Longrightarrow> b64_char n \<noteq> CHR ''=''"
  using b64_char_in [of n] by (auto simp: b64_alphabet_def)

lemma b64_char_no_newline [simp]:
  "n < 64 \<Longrightarrow> b64_char n \<noteq> CHR 0x0A" "n < 64 \<Longrightarrow> b64_char n \<noteq> CHR 0x0D"
  using b64_char_in [of n] by (auto simp: b64_alphabet_def)

section \<open>Encoding\<close>

abbreviation byte :: "char \<Rightarrow> nat" where
  "byte c \<equiv> of_char c"

abbreviation chr :: "nat \<Rightarrow> char" where
  "chr n \<equiv> char_of n"

fun b64_encode :: "bytes \<Rightarrow> string" where
  "b64_encode [] = []"
| "b64_encode [a] =
     [b64_char (byte a div 4), b64_char (byte a mod 4 * 16), CHR ''='', CHR ''='']"
| "b64_encode [a, b] =
     [b64_char (byte a div 4), b64_char (byte a mod 4 * 16 + byte b div 16),
      b64_char (byte b mod 16 * 4), CHR ''='']"
| "b64_encode (a # b # c # s) =
     [b64_char (byte a div 4), b64_char (byte a mod 4 * 16 + byte b div 16),
      b64_char (byte b mod 16 * 4 + byte c div 64), b64_char (byte c mod 64)] @ b64_encode s"

section \<open>Decoding\<close>

definition b64_newline :: "char \<Rightarrow> bool" where
  "b64_newline c \<longleftrightarrow> c = CHR 0x0A \<or> c = CHR 0x0D"

text \<open>One quantum after the other; the last one may be padded.\<close>

fun b64_quanta :: "string \<Rightarrow> bytes option" where
  "b64_quanta [] = Some []"
| "b64_quanta (p # q # r # s # rest) =
     (case (b64_val p, b64_val q) of
        (Some w, Some x) \<Rightarrow>
          (case b64_val r of
             None \<Rightarrow>
               (if r = CHR ''='' \<and> s = CHR ''='' \<and> rest = []
                then Some [chr (w * 4 + x div 16)] else None)
           | Some y \<Rightarrow>
               (case b64_val s of
                  None \<Rightarrow>
                    (if s = CHR ''='' \<and> rest = []
                     then Some [chr (w * 4 + x div 16), chr (x mod 16 * 16 + y div 4)] else None)
                | Some z \<Rightarrow>
                    map_option (\<lambda>t. chr (w * 4 + x div 16) # chr (x mod 16 * 16 + y div 4)
                                     # chr (y mod 4 * 64 + z) # t) (b64_quanta rest)))
      | _ \<Rightarrow> None)"
| "b64_quanta _ = None"

definition b64_decode :: "string \<Rightarrow> bytes option" where
  "b64_decode s = b64_quanta (filter (\<lambda>c. \<not> b64_newline c) s)"

section \<open>Round trip and length\<close>

lemma b64_val_pad [simp]: "b64_val CHR ''='' = None"
  by (simp add: b64_val_def map_of_eq_None_iff set_zip_leftD b64_alphabet_def flip: set_map)

lemma byte_bounds [simp]: "byte c < 256"
  by (rule nat_of_char_less_256)

lemma sextets:
  fixes a b c :: nat
  assumes "a < 256" "b < 256" "c < 256"
  shows "a div 4 < 64" "a mod 4 * 16 < 64" "a mod 4 * 16 + b div 16 < 64"
    "b mod 16 * 4 < 64" "b mod 16 * 4 + c div 64 < 64" "c mod 64 < 64"
    "b div 16 < 16" "c div 64 < 4"
  using assms by linarith+

lemma sextets_join:
  fixes a b c k :: nat
  assumes "a < 256" "b < 256" "c < 256"
  shows "k < 16 \<Longrightarrow> a div 4 * 4 + (a mod 4 * 16 + k) div 16 = a"
    "k < 4 \<Longrightarrow> (a mod 4 * 16 + b div 16) mod 16 * 16 + (b mod 16 * 4 + k) div 4 = b"
    "(b mod 16 * 4 + c div 64) mod 4 * 64 + c mod 64 = c"
proof -
  show "k < 16 \<Longrightarrow> a div 4 * 4 + (a mod 4 * 16 + k) div 16 = a" by simp
  have "(a mod 4 * 16 + b div 16) mod 16 = b div 16" using assms by simp
  then show "k < 4 \<Longrightarrow> (a mod 4 * 16 + b div 16) mod 16 * 16 + (b mod 16 * 4 + k) div 4 = b" by simp
  have "(b mod 16 * 4 + c div 64) mod 4 = (b mod 16 mod 1 * 4 + c div 64) mod 4"
    by (metis mod_mult_self3 mult.commute mod_by_1 mult_zero_left add.left_neutral)
  also have "\<dots> = c div 64" using assms by simp
  finally show "(b mod 16 * 4 + c div 64) mod 4 * 64 + c mod 64 = c" by simp
qed

lemmas byte_sextets = sextets [OF byte_bounds byte_bounds byte_bounds]
lemmas byte_join = sextets_join [OF byte_bounds byte_bounds byte_bounds]

lemma b64_quanta_encode: "b64_quanta (b64_encode s) = Some s"
proof (induction s rule: b64_encode.induct)
  case (2 a)
  then show ?case using byte_join(1) [of 0 a] by (simp add: byte_sextets)
next
  case (3 a b)
  then show ?case
    using byte_join(1) [of "byte b div 16" a] byte_join(2) [of 0 a b] by (simp add: byte_sextets)
next
  case (4 a b c s)
  then show ?case
    using byte_join(1) [of "byte b div 16" a] byte_join(2) [of "byte c div 64" a b] byte_join(3) [of b c]
    by (simp add: byte_sextets)
qed simp

lemma b64_encode_no_newline: "filter (\<lambda>c. \<not> b64_newline c) (b64_encode s) = b64_encode s"
  by (induction s rule: b64_encode.induct) (auto simp: b64_newline_def byte_sextets)

lemma b64_decode_encode [simp]: "b64_decode (b64_encode s) = Some s"
  by (simp add: b64_decode_def b64_encode_no_newline b64_quanta_encode)

lemma b64_quanta_length: "b64_quanta s = Some t \<Longrightarrow> 4 * length t \<le> 3 * length s"
  by (induction s arbitrary: t rule: b64_quanta.induct) (fastforce split: option.splits if_splits)+

text \<open>Decoding never lengthens, and it shortens every text that is not empty.\<close>

lemma b64_decode_shorter: "b64_decode s = Some t \<Longrightarrow> s \<noteq> [] \<Longrightarrow> length t < length s"
proof -
  assume *: "b64_decode s = Some t" "s \<noteq> []"
  then have "4 * length t \<le> 3 * length (filter (\<lambda>c. \<not> b64_newline c) s)"
    by (simp add: b64_decode_def b64_quanta_length)
  also have "\<dots> \<le> 3 * length s" by simp
  finally show ?thesis using * by (cases s) auto
qed

end
