(* ===== verification/SqsBroker.thy ===== *)
theory SqsBroker
  imports Broker Base64
begin

text \<open>
  The SQS FIFO broker (\<open>internal/broker/sqs/fifo.go\<close>): its state, one definition per
  method, the step relation of its critical sections, and the lemmas on them.

  The AWS SDK client is not under \<open>src/\<close>: it is a record of functions, an argument of every
  operation that calls it, with no law assumed. Every receive carries a fresh request
  attempt id, so a function of the request gives each call an answer of its own. The SDK's
  pointers are dereferenced in the model's types: a message always has an id, a body and a
  receipt handle. Calls to the client are logged in the ghost field \<open>b_calls\<close>.
  The broker's \<open>LastAccess\<close> clock readings within one call are one value \<open>e_now\<close>.
\<close>

section \<open>The SDK's types\<close>

type_synonym sdk_error = string

record sqs_message =
  s_MessageId :: string
  s_Body :: string
  s_ReceiptHandle :: string
  s_Attributes :: "string \<rightharpoonup> string"
  s_MessageAttributes :: "string \<rightharpoonup> string option"

record receive_params =
  r_QueueUrl :: string
  r_MaxNumberOfMessages :: int
  r_VisibilityTimeout :: int
  r_WaitTimeSeconds :: int
  r_MessageAttributeNames :: "string list"
  r_AttributeNames :: "string list"
  r_ReceiveRequestAttemptId :: "string option"

record send_input =
  i_QueueUrl :: string
  i_MessageBody :: string
  i_MessageGroupId :: string
  i_MessageDeduplicationId :: string
  i_MessageAttributes :: "string \<rightharpoonup> string \<times> string"

datatype sqs_call =
    CallReceive receive_params
  | CallDelete string string
  | CallChangeVisibility string string int
  | CallSend send_input
  | CallGetAttributes string

record sqs_client =
  cl_ReceiveMessage :: "receive_params \<Rightarrow> sdk_error + sqs_message list"
  cl_DeleteMessage :: "string \<Rightarrow> string \<Rightarrow> sdk_error option"
  cl_ChangeMessageVisibility :: "string \<Rightarrow> string \<Rightarrow> int \<Rightarrow> sdk_error option"
  cl_SendMessage :: "send_input \<Rightarrow> sdk_error + string"
  cl_GetQueueAttributes :: "string \<Rightarrow> sdk_error option"

section \<open>The broker's state\<close>

datatype broker_error =
    ErrQueueURLEmpty
  | ErrMessageGroupIDEmpty
  | ErrDeduplicationIDEmpty
  | QueueURLNotFifo string
  | InvalidFetchMode string
  | ConnectFailed sdk_error
  | ReceiveOneFailed sdk_error
  | ReceiveManyFailed sdk_error
  | DecodeBodyFailed
  | DeleteFailed sdk_error
  | SendFailed sdk_error
  | VisibilityFailed sdk_error
  | PanicNegativeCap

record group_queue =
  g_GroupID :: string
  g_Processing :: bool
  g_LastAccess :: time
  g_Tasks :: "message list"

type_synonym groups = "string \<rightharpoonup> group_queue"

record broker =
  b_queueURL :: string
  b_config :: broker_config
  b_activeGroups :: groups
  b_receiveParams :: receive_params
  b_calls :: "sqs_call list"

text \<open>What one call takes from outside: the client, the fresh ids, the clock, and the
  orders of the three map iterations.\<close>

record recv_env =
  e_client :: sqs_client
  e_probe_uuid :: string
  e_req_uuid :: string
  e_now :: time
  e_ord_internal :: "string list"
  e_ord_available :: "string list"
  e_ord_batch :: "string list"

definition log_call :: "sqs_call \<Rightarrow> broker \<Rightarrow> broker" where
  [broker_defs]: "log_call c b = b\<lparr>b_calls := b_calls b @ [c]\<rparr>"

section \<open>Construction\<close>

definition go_min :: "int \<Rightarrow> int \<Rightarrow> int" where
  "go_min a b = (if a < b then a else b)"

definition or_default :: "int \<Rightarrow> int \<Rightarrow> int" where
  "or_default d v = (if v \<le> 0 then d else v)"

definition norm_batch_size :: "int \<Rightarrow> int" where
  "norm_batch_size n = (if n \<le> 0 then 10 else if n < 2 then 2 else if n > 10 then 10 else n)"

definition norm_fetch_mode :: "string \<Rightarrow> string option" where
  "norm_fetch_mode f =
     (if f = '''' then Some ''batch''
      else if f \<noteq> ''single'' \<and> f \<noteq> ''batch'' then None else Some f)"

definition initial_receive_params :: "broker_config \<Rightarrow> receive_params" where
  "initial_receive_params config =
     \<lparr>r_QueueUrl = c_QueueURL config,
      r_MaxNumberOfMessages = int32_of (c_MaxMessages config),
      r_VisibilityTimeout = int32_of (c_VisibilityTimeout config),
      r_WaitTimeSeconds = int32_of (c_WaitTimeSeconds config),
      r_MessageAttributeNames = [''All''],
      r_AttributeNames = [''All''],
      r_ReceiveRequestAttemptId = None\<rparr>"

definition NewSQSFIFOBroker :: "broker_config \<Rightarrow> broker_error + broker" where
  "NewSQSFIFOBroker config =
     (let url = c_QueueURL config in
      if url = '''' then Inl ErrQueueURLEmpty
      else if length url < 5 \<or> drop (length url - 5) url \<noteq> ''.fifo'' then Inl (QueueURLNotFifo url)
      else
        case norm_fetch_mode (c_FetchMode config) of
          None \<Rightarrow> Inl (InvalidFetchMode (c_FetchMode config))
        | Some mode \<Rightarrow>
            let config = config\<lparr>c_MaxMessages := or_default 10 (c_MaxMessages config),
                                c_VisibilityTimeout := or_default 30 (c_VisibilityTimeout config),
                                c_WaitTimeSeconds := or_default 20 (c_WaitTimeSeconds config),
                                c_FetchMode := mode,
                                c_BatchSize := norm_batch_size (c_BatchSize config),
                                c_MaxPrefetch := or_default 50 (c_MaxPrefetch config)\<rparr>
            in Inr \<lparr>b_queueURL = c_QueueURL config, b_config = config,
                    b_activeGroups = Map.empty,
                    b_receiveParams = initial_receive_params config, b_calls = []\<rparr>)"

definition Connect :: "sqs_client \<Rightarrow> broker \<Rightarrow> broker_error option \<times> broker" where
  "Connect cl b =
     (let b = log_call (CallGetAttributes (b_queueURL b)) b in
      case cl_GetQueueAttributes cl (b_queueURL b) of
        Some err \<Rightarrow> (Some (ConnectFailed err), b)
      | None \<Rightarrow> (None, b))"

definition Close :: "broker \<Rightarrow> broker_error option \<times> broker" where
  "Close b = (None, b)"

section \<open>Group bookkeeping\<close>

text \<open>\<open>markGroupAsProcessing\<close>, \<open>markGroupAsAvailable\<close> and \<open>addMessagesToGroup\<close>: each is one
  critical section under \<open>groupsMutex\<close>, a function on the map of groups.\<close>

definition markGroupAsProcessing :: "time \<Rightarrow> string \<Rightarrow> groups \<Rightarrow> groups" where
  "markGroupAsProcessing now gid gs =
     (let grp = (case gs gid of
                     Some g \<Rightarrow> g
                   | None \<Rightarrow> \<lparr>g_GroupID = gid, g_Processing = False,
                              g_LastAccess = zero_time, g_Tasks = []\<rparr>)
      in gs(gid \<mapsto> grp\<lparr>g_Processing := True, g_LastAccess := now\<rparr>))"

definition markGroupAsAvailable :: "time \<Rightarrow> string \<Rightarrow> groups \<Rightarrow> groups" where
  "markGroupAsAvailable now gid gs =
     (case gs gid of
        None \<Rightarrow> gs
      | Some grp \<Rightarrow>
          let grp = (if g_Tasks grp \<noteq> [] then grp else grp\<lparr>g_Processing := False\<rparr>)
          in gs(gid \<mapsto> grp\<lparr>g_LastAccess := now\<rparr>))"

definition addMessagesToGroup :: "time \<Rightarrow> string \<Rightarrow> message list \<Rightarrow> groups \<Rightarrow> groups" where
  "addMessagesToGroup now gid messages gs =
     (let grp = (case gs gid of
                     Some g \<Rightarrow> g
                   | None \<Rightarrow> \<lparr>g_GroupID = gid, g_Processing = False,
                              g_LastAccess = zero_time, g_Tasks = []\<rparr>);
          grp = (if g_Tasks grp = [] \<and> messages \<noteq> []
                   then grp\<lparr>g_Processing := True\<rparr> else grp);
          grp = (if length messages > 1
                   then grp\<lparr>g_Tasks := g_Tasks grp @ tl messages\<rparr> else grp)
      in gs(gid \<mapsto> grp\<lparr>g_LastAccess := now\<rparr>))"

section \<open>Receiving\<close>

text \<open>The loop of \<open>getMessagesFromInternalQueues\<close>: \<open>take_heads now n ks gs msgs\<close> goes through
  the groups in the order \<open>ks\<close> with \<open>msgs\<close> taken so far.\<close>

fun take_heads ::
    "time \<Rightarrow> int \<Rightarrow> string list \<Rightarrow> groups \<Rightarrow> message list \<Rightarrow> message list \<times> groups" where
  "take_heads now n [] gs msgs = (msgs, gs)"
| "take_heads now n (k # ks) gs msgs =
     (case gs k of
        None \<Rightarrow> take_heads now n ks gs msgs
      | Some grp \<Rightarrow>
          if g_Processing grp then take_heads now n ks gs msgs
          else (case g_Tasks grp of
                  [] \<Rightarrow> take_heads now n ks gs msgs
                | m # rest \<Rightarrow>
                    let grp = grp\<lparr>g_Tasks := rest, g_Processing := True, g_LastAccess := now\<rparr>;
                        gs = gs(k \<mapsto> grp);
                        msgs = msgs @ [m]
                    in if int (length msgs) \<ge> n then (msgs, gs) else take_heads now n ks gs msgs))"

definition getMessagesFromInternalQueues ::
    "recv_env \<Rightarrow> int \<Rightarrow> groups \<Rightarrow> (broker_error + message list) \<times> groups" where
  "getMessagesFromInternalQueues e n gs =
     (if n < 0 then (Inl PanicNegativeCap, gs)
      else let (msgs, gs) = take_heads (e_now e) n (e_ord_internal e) gs []
           in (Inr msgs, gs))"

text \<open>The conversion of an SDK message, spelt out three times in the source; \<open>None\<close> is an
  error of the base64 decoder.\<close>

definition convert_message :: "string \<Rightarrow> sqs_message \<Rightarrow> message option" where
  "convert_message gid s =
     (case b64_decode (s_Body s) of
        None \<Rightarrow> None
      | Some body \<Rightarrow>
          Some \<lparr>m_ID = s_MessageId s, m_Body = body,
                m_Attributes = s_Attributes s ++
                  (\<lambda>k. case s_MessageAttributes s k of Some (Some v) \<Rightarrow> Some v | _ \<Rightarrow> None),
                m_MessageGroupID = gid,
                m_MessageDeduplicationID =
                  (case s_Attributes s ''MessageDeduplicationId'' of Some d \<Rightarrow> d | None \<Rightarrow> ''''),
                m_ReceiptHandle = s_ReceiptHandle s\<rparr>)"

abbreviation sqs_group :: "sqs_message \<Rightarrow> string option" where
  "sqs_group s \<equiv> s_Attributes s ''MessageGroupId''"

text \<open>The probe of \<open>getAvailableGroups\<close>: what it does with the messages it received.\<close>

definition enqueue_probed :: "time \<Rightarrow> string \<Rightarrow> message \<Rightarrow> groups \<Rightarrow> groups" where
  "enqueue_probed now gid msg gs =
     (case gs gid of
        Some grp \<Rightarrow> gs(gid \<mapsto> grp\<lparr>g_Tasks := g_Tasks grp @ [msg]\<rparr>)
      | None \<Rightarrow> gs(gid \<mapsto> \<lparr>g_GroupID = gid, g_Processing = False,
                            g_LastAccess = now, g_Tasks = [msg]\<rparr>))"

fun probe_messages ::
    "time \<Rightarrow> sqs_message list \<Rightarrow> string list \<Rightarrow> broker \<Rightarrow> string list \<times> broker" where
  "probe_messages now [] avail b = (avail, b)"
| "probe_messages now (s # ss) avail b =
     (case sqs_group s of
        None \<Rightarrow> probe_messages now ss avail b
      | Some gid \<Rightarrow>
          if (case b_activeGroups b gid of Some g \<Rightarrow> g_Processing g | None \<Rightarrow> False)
          then probe_messages now ss avail b
          else
            let avail = avail @ [gid];
                b = log_call (CallChangeVisibility (b_queueURL b) (s_ReceiptHandle s)
                                (r_VisibilityTimeout (b_receiveParams b))) b
            in case convert_message gid s of
                 None \<Rightarrow> probe_messages now ss avail b
               | Some msg \<Rightarrow>
                   probe_messages now ss avail
                     (b\<lparr>b_activeGroups := enqueue_probed now gid msg (b_activeGroups b)\<rparr>))"

definition probe_params :: "recv_env \<Rightarrow> broker \<Rightarrow> receive_params" where
  "probe_params e b = (b_receiveParams b)
     \<lparr>r_MaxNumberOfMessages := 1, r_VisibilityTimeout := 1,
      r_ReceiveRequestAttemptId := Some (''probe-'' @ e_probe_uuid e)\<rparr>"

definition getAvailableGroups :: "recv_env \<Rightarrow> broker \<Rightarrow> string list \<times> broker" where
  "getAvailableGroups e b =
     (let avail = filter (\<lambda>k. case b_activeGroups b k of
                                Some g \<Rightarrow> \<not> g_Processing g | None \<Rightarrow> False) (e_ord_available e)
      in if avail \<noteq> [] then (avail, b)
         else
           let params = probe_params e b;
               b = log_call (CallReceive params) b
           in case cl_ReceiveMessage (e_client e) params of
                Inl err \<Rightarrow> (avail, b)
              | Inr msgs \<Rightarrow> probe_messages (e_now e) msgs avail b)"

definition single_params :: "recv_env \<Rightarrow> broker \<Rightarrow> receive_params" where
  "single_params e b = (b_receiveParams b)
     \<lparr>r_MaxNumberOfMessages := 1,
      r_ReceiveRequestAttemptId := Some (''req-'' @ e_req_uuid e)\<rparr>"

definition receiveSingleMessage ::
    "recv_env \<Rightarrow> broker \<Rightarrow> (broker_error + message list) \<times> broker" where
  "receiveSingleMessage e b =
     (let (avail, b) = getAvailableGroups e b;
          params = single_params e b;
          b = log_call (CallReceive params) b
      in case cl_ReceiveMessage (e_client e) params of
           Inl err \<Rightarrow> (Inl (ReceiveOneFailed err), b)
         | Inr [] \<Rightarrow> (Inr [], b)
         | Inr (s # _) \<Rightarrow>
             (case sqs_group s of
                None \<Rightarrow> (Inr [], b)
              | Some gid \<Rightarrow>
                  let b = b\<lparr>b_activeGroups := markGroupAsProcessing (e_now e) gid (b_activeGroups b)\<rparr>
                  in case convert_message gid s of
                       None \<Rightarrow> (Inl DecodeBodyFailed, b)
                     | Some msg \<Rightarrow> (Inr [msg], b)))"

text \<open>Batch mode: group the converted messages, then add each group's messages to its queue
  and hand out the first of each.\<close>

fun group_messages :: "sqs_message list \<Rightarrow> (string \<rightharpoonup> message list) \<Rightarrow> (string \<rightharpoonup> message list)" where
  "group_messages [] by_group = by_group"
| "group_messages (s # ss) by_group =
     (case sqs_group s of
        None \<Rightarrow> group_messages ss by_group
      | Some gid \<Rightarrow>
          (case convert_message gid s of
             None \<Rightarrow> group_messages ss by_group
           | Some msg \<Rightarrow>
               group_messages ss
                 (by_group(gid \<mapsto>
                    (case by_group gid of Some l \<Rightarrow> l | None \<Rightarrow> []) @ [msg]))))"

fun deliver_groups ::
    "time \<Rightarrow> string list \<Rightarrow> (string \<rightharpoonup> message list) \<Rightarrow> groups \<Rightarrow> message list \<Rightarrow>
     message list \<times> groups" where
  "deliver_groups now [] by_group gs msgs = (msgs, gs)"
| "deliver_groups now (k # ks) by_group gs msgs =
     (case by_group k of
        None \<Rightarrow> deliver_groups now ks by_group gs msgs
      | Some group_msgs \<Rightarrow>
          deliver_groups now ks by_group (addMessagesToGroup now k group_msgs gs)
            (case group_msgs of [] \<Rightarrow> msgs | m # _ \<Rightarrow> msgs @ [m]))"

definition batch_params :: "recv_env \<Rightarrow> int \<Rightarrow> string list \<Rightarrow> broker \<Rightarrow> receive_params" where
  "batch_params e n avail b =
     (let batchSize = go_min (c_BatchSize (b_config b)) n
      in (b_receiveParams b)
           \<lparr>r_MaxNumberOfMessages :=
              (if avail \<noteq> [] then int32_of (go_min batchSize (int (length avail)))
               else int32_of batchSize),
            r_ReceiveRequestAttemptId := Some (''req-'' @ e_req_uuid e)\<rparr>)"

definition receiveBatchMessages ::
    "recv_env \<Rightarrow> int \<Rightarrow> broker \<Rightarrow> (broker_error + message list) \<times> broker" where
  "receiveBatchMessages e n b =
     (let (avail, b) = getAvailableGroups e b;
          params = batch_params e n avail b;
          b = log_call (CallReceive params) b
      in case cl_ReceiveMessage (e_client e) params of
           Inl err \<Rightarrow> (Inl (ReceiveManyFailed err), b)
         | Inr ss \<Rightarrow>
             let (msgs, gs) = deliver_groups (e_now e) (e_ord_batch e)
                                (group_messages ss Map.empty) (b_activeGroups b) []
             in (Inr msgs, b\<lparr>b_activeGroups := gs\<rparr>))"

definition ReceiveMessages ::
    "recv_env \<Rightarrow> int \<Rightarrow> broker \<Rightarrow> (broker_error + message list) \<times> broker" where
  "ReceiveMessages e maxMessages b =
     (let n = go_min maxMessages (c_MaxPrefetch (b_config b));
          (res, gs) = getMessagesFromInternalQueues e n (b_activeGroups b);
          b = b\<lparr>b_activeGroups := gs\<rparr>
      in case res of
           Inl err \<Rightarrow> (Inl err, b)
         | Inr msgs \<Rightarrow>
             if msgs \<noteq> [] then (Inr msgs, b)
             else if c_FetchMode (b_config b) = ''single'' then receiveSingleMessage e b
             else receiveBatchMessages e n b)"

section \<open>Acknowledging, publishing, extending\<close>

definition AcknowledgeMessage ::
    "recv_env \<Rightarrow> message \<Rightarrow> broker \<Rightarrow> broker_error option \<times> broker" where
  "AcknowledgeMessage e m b =
     (let b = log_call (CallDelete (b_queueURL b) (m_ReceiptHandle m)) b in
      case cl_DeleteMessage (e_client e) (b_queueURL b) (m_ReceiptHandle m) of
        Some err \<Rightarrow> (Some (DeleteFailed err), b)
      | None \<Rightarrow>
          (None, b\<lparr>b_activeGroups :=
                      markGroupAsAvailable (e_now e) (m_MessageGroupID m) (b_activeGroups b)\<rparr>))"

definition send_input_of :: "broker \<Rightarrow> message \<Rightarrow> send_input" where
  "send_input_of b m =
     \<lparr>i_QueueUrl = b_queueURL b, i_MessageBody = m_Body m,
      i_MessageGroupId = m_MessageGroupID m,
      i_MessageDeduplicationId = m_MessageDeduplicationID m,
      i_MessageAttributes = (\<lambda>k. map_option (Pair ''String'') (m_Attributes m k))\<rparr>"

definition PublishMessage ::
    "sqs_client \<Rightarrow> message \<Rightarrow> broker \<Rightarrow> broker_error option \<times> broker" where
  "PublishMessage cl m b =
     (if m_MessageGroupID m = '''' then (Some ErrMessageGroupIDEmpty, b)
      else if m_MessageDeduplicationID m = '''' then (Some ErrDeduplicationIDEmpty, b)
      else
        let input = send_input_of b m; b = log_call (CallSend input) b in
        case cl_SendMessage cl input of
          Inl err \<Rightarrow> (Some (SendFailed err), b)
        | Inr msg_id \<Rightarrow> (None, b))"

definition ExtendVisibilityTimeout ::
    "sqs_client \<Rightarrow> message \<Rightarrow> int \<Rightarrow> broker \<Rightarrow> broker_error option \<times> broker" where
  "ExtendVisibilityTimeout cl m seconds b =
     (let secs = int32_of seconds;
          b = log_call (CallChangeVisibility (b_queueURL b) (m_ReceiptHandle m) secs) b
      in case cl_ChangeMessageVisibility cl (b_queueURL b) (m_ReceiptHandle m) secs of
           Some err \<Rightarrow> (Some (VisibilityFailed err), b)
         | None \<Rightarrow> (None, b))"

end
