(* ===== verification/SqsGroups.thy ===== *)
theory SqsGroups
  imports SqsBroker
begin

text \<open>
  The groups of the SQS FIFO broker: the views of its map, the well-formedness invariant,
  reference definitions of the two delivery loops, and the step relation of the critical
  sections with what every step keeps.
\<close>

section \<open>Views of the map of groups\<close>

definition queued :: "groups \<Rightarrow> string \<Rightarrow> message list" where
  "queued gs k = (case gs k of Some g \<Rightarrow> g_Tasks g | None \<Rightarrow> [])"

definition processing :: "groups \<Rightarrow> string \<Rightarrow> bool" where
  "processing gs k = (case gs k of Some g \<Rightarrow> g_Processing g | None \<Rightarrow> False)"

text \<open>A group that an internal receive may serve.\<close>

definition ready :: "groups \<Rightarrow> string \<Rightarrow> bool" where
  "ready gs k \<longleftrightarrow> \<not> processing gs k \<and> queued gs k \<noteq> []"

text \<open>A group that holds messages and is marked as processing.\<close>

definition stuck :: "groups \<Rightarrow> string \<Rightarrow> bool" where
  "stuck gs k \<longleftrightarrow> processing gs k \<and> queued gs k \<noteq> []"

lemma queued_upd [simp]: "queued (gs(k \<mapsto> g)) k' = (if k' = k then g_Tasks g else queued gs k')"
  by (simp add: queued_def)

lemma processing_upd [simp]:
  "processing (gs(k \<mapsto> g)) k' = (if k' = k then g_Processing g else processing gs k')"
  by (simp add: processing_def)

lemma queued_empty [simp]: "queued Map.empty k = []"
  by (simp add: queued_def)

lemma processing_empty [simp]: "processing Map.empty k = False"
  by (simp add: processing_def)

lemma queued_Some: "gs k = Some g \<Longrightarrow> queued gs k = g_Tasks g"
  by (simp add: queued_def)

lemma processing_Some: "gs k = Some g \<Longrightarrow> processing gs k = g_Processing g"
  by (simp add: processing_def)

section \<open>What each critical section does to the views\<close>

lemma queued_markProcessing [simp]: "queued (markGroupAsProcessing t k gs) = queued gs"
  by (rule ext) (auto simp: markGroupAsProcessing_def Let_def queued_def split: option.splits)

lemma processing_markProcessing [simp]:
  "processing (markGroupAsProcessing t k gs) = (processing gs)(k := True)"
  by (rule ext) (auto simp: markGroupAsProcessing_def Let_def processing_def split: option.splits)

lemma queued_markAvailable [simp]: "queued (markGroupAsAvailable t k gs) = queued gs"
  by (rule ext) (auto simp: markGroupAsAvailable_def Let_def queued_def split: option.splits)

lemma processing_markAvailable [simp]:
  "processing (markGroupAsAvailable t k gs) =
     (processing gs)(k := processing gs k \<and> queued gs k \<noteq> [])"
  by (rule ext) (auto simp: markGroupAsAvailable_def Let_def processing_def queued_def split: option.splits)

lemma queued_addMessages [simp]:
  "queued (addMessagesToGroup t k ms gs) = (queued gs)(k := queued gs k @ tl ms)"
proof (rule ext)
  fix k'
  have "length ms > 1 \<or> tl ms = []" by (cases ms) auto
  then show "queued (addMessagesToGroup t k ms gs) k' = ((queued gs)(k := queued gs k @ tl ms)) k'"
    by (auto simp: addMessagesToGroup_def Let_def queued_def split: option.splits)
qed

lemma processing_addMessages [simp]:
  "processing (addMessagesToGroup t k ms gs) =
     (processing gs)(k := processing gs k \<or> (queued gs k = [] \<and> ms \<noteq> []))"
  by (rule ext)
     (auto simp: addMessagesToGroup_def Let_def processing_def queued_def split: option.splits)

lemma queued_enqueue_probed [simp]:
  "queued (enqueue_probed t k m gs) = (queued gs)(k := queued gs k @ [m])"
  by (rule ext) (auto simp: enqueue_probed_def queued_def split: option.splits)

lemma processing_enqueue_probed [simp]: "processing (enqueue_probed t k m gs) = processing gs"
  by (rule ext) (auto simp: enqueue_probed_def processing_def split: option.splits)

text \<open>Taking the first message of one group, the body of the internal receive loop.\<close>

definition pop_group :: "time \<Rightarrow> string \<Rightarrow> groups \<Rightarrow> groups" where
  "pop_group now k gs =
     (case gs k of
        None \<Rightarrow> gs
      | Some g \<Rightarrow> gs(k \<mapsto> g\<lparr>g_Tasks := tl (g_Tasks g), g_Processing := True, g_LastAccess := now\<rparr>))"

lemma queued_pop [simp]: "queued (pop_group t k gs) = (queued gs)(k := tl (queued gs k))"
  by (rule ext) (auto simp: pop_group_def queued_def split: option.splits)

lemma processing_pop:
  "processing (pop_group t k gs) = (processing gs)(k := gs k \<noteq> None)"
  by (rule ext) (auto simp: pop_group_def processing_def split: option.splits)

lemma ready_dom: "ready gs k \<Longrightarrow> \<exists>g. gs k = Some g"
  by (cases "gs k") (auto simp: ready_def queued_def)

lemma ready_pop_other: "k' \<noteq> k \<Longrightarrow> ready (pop_group t k gs) k' = ready gs k'"
  by (simp add: ready_def processing_pop)

section \<open>The internal receive against a reference definition\<close>

text \<open>The groups that an internal receive serves: the first \<open>max 1 n\<close> ready ones.\<close>

definition picks :: "int \<Rightarrow> string list \<Rightarrow> groups \<Rightarrow> string list" where
  "picks n ks gs = take (max 1 (nat n)) (filter (ready gs) ks)"

lemma take_heads_ready:
  assumes "ready gs k"
  shows "take_heads now n (k # ks) gs msgs =
    (if int (length msgs) + 1 \<ge> n then (msgs @ [hd (queued gs k)], pop_group now k gs)
     else take_heads now n ks (pop_group now k gs) (msgs @ [hd (queued gs k)]))"
proof -
  obtain g where "gs k = Some g" using ready_dom [OF assms] by blast
  with assms show ?thesis
    by (auto simp: ready_def processing_def queued_def pop_group_def Let_def add.commute
      split: list.splits)
qed

lemma take_heads_not_ready:
  "\<not> ready gs k \<Longrightarrow> take_heads now n (k # ks) gs msgs = take_heads now n ks gs msgs"
  by (auto simp: ready_def processing_def queued_def split: option.splits list.splits)

lemma filter_ready_pop:
  "k \<notin> set ks \<Longrightarrow> filter (ready (pop_group t k gs)) ks = filter (ready gs) ks"
  by (rule filter_cong) (metis ready_pop_other)+

lemma map_hd_queued_pop:
  "k \<notin> set ks \<Longrightarrow> map (\<lambda>k'. hd (queued (pop_group t k gs) k')) ks = map (\<lambda>k'. hd (queued gs k')) ks"
  by auto

lemma take_heads_eq:
  assumes "distinct ks"
  shows "take_heads now n ks gs msgs =
    (let ps = take (max 1 (nat n - length msgs)) (filter (ready gs) ks)
     in (msgs @ map (\<lambda>k. hd (queued gs k)) ps, fold (pop_group now) ps gs))"
  using assms
proof (induction ks arbitrary: gs msgs)
  case Nil
  then show ?case by simp
next
  case (Cons k ks)
  show ?case
  proof (cases "ready gs k")
    case False
    with Cons show ?thesis by (simp add: take_heads_not_ready del: take_heads.simps)
  next
    case ready: True
    have k: "k \<notin> set ks" and ks: "distinct ks" using Cons.prems by auto
    show ?thesis
    proof (cases "int (length msgs) + 1 \<ge> n")
      case True
      then have "max 1 (nat n - length msgs) = Suc 0" by linarith
      with ready True show ?thesis by (simp add: take_heads_ready del: take_heads.simps)
    next
      case False
      then have *: "max 1 (nat n - length msgs) = Suc (max 1 (nat n - length (msgs @ [hd (queued gs k)])))"
        by (auto simp: max_def)
      let ?ps = "take (max 1 (nat n - length (msgs @ [hd (queued gs k)]))) (filter (ready gs) ks)"
      have "k \<notin> set ?ps" using k by (auto dest: in_set_takeD)
      then have "map (\<lambda>k'. hd (queued (pop_group now k gs) k')) ?ps = map (\<lambda>k'. hd (queued gs k')) ?ps"
        by (rule map_hd_queued_pop)
      with ready False Cons.IH [OF ks] show ?thesis
        unfolding * by (simp add: take_heads_ready filter_ready_pop [OF k] Let_def
          del: take_heads.simps queued_pop)
    qed
  qed
qed

lemma internal_eq:
  assumes "distinct (e_ord_internal e)" "0 \<le> n"
  shows "getMessagesFromInternalQueues e n gs =
    (Inr (map (\<lambda>k. hd (queued gs k)) (picks n (e_ord_internal e) gs)),
     fold (pop_group (e_now e)) (picks n (e_ord_internal e) gs) gs)"
  using assms by (simp add: getMessagesFromInternalQueues_def take_heads_eq picks_def Let_def)

lemma picks_ready: "k \<in> set (picks n ks gs) \<Longrightarrow> ready gs k \<and> k \<in> set ks"
  by (auto simp: picks_def dest!: in_set_takeD)

lemma distinct_picks: "distinct ks \<Longrightarrow> distinct (picks n ks gs)"
  by (simp add: picks_def)

lemma picks_Nil_iff: "picks n ks gs = [] \<longleftrightarrow> (\<forall>k \<in> set ks. \<not> ready gs k)"
  by (auto simp: picks_def filter_empty_conv)

lemma queued_fold_pop:
  "distinct ps \<Longrightarrow> queued (fold (pop_group t) ps gs) k =
     (if k \<in> set ps then tl (queued gs k) else queued gs k)"
  by (induction ps arbitrary: gs) auto

lemma processing_fold_pop:
  "(\<forall>p \<in> set ps. gs p \<noteq> None) \<Longrightarrow> distinct ps \<Longrightarrow>
   processing (fold (pop_group t) ps gs) k = (k \<in> set ps \<or> processing gs k)"
proof (induction ps arbitrary: gs)
  case (Cons p ps)
  have "\<forall>q \<in> set ps. pop_group t p gs q \<noteq> None"
    using Cons.prems by (auto simp: pop_group_def split: option.splits)
  with Cons show ?case by (auto simp: processing_pop)
qed simp

section \<open>The batch delivery against a reference definition\<close>

text \<open>The messages of one group in an answer of SQS that decode, in their order.\<close>

fun msgs_for :: "string \<Rightarrow> sqs_message list \<Rightarrow> message list" where
  "msgs_for g [] = []"
| "msgs_for g (s # ss) =
     (case (if sqs_group s = Some g then convert_message g s else None) of
        None \<Rightarrow> msgs_for g ss | Some m \<Rightarrow> m # msgs_for g ss)"

lemma convert_message_group: "convert_message g s = Some m \<Longrightarrow> m_MessageGroupID m = g"
  by (auto simp: convert_message_def split: option.splits)

lemma msgs_for_group: "m \<in> set (msgs_for g ss) \<Longrightarrow> m_MessageGroupID m = g"
  by (induction ss) (auto split: option.splits if_splits dest: convert_message_group)

lemma group_messages_eq:
  "group_messages ss bg g =
     (if msgs_for g ss = [] then bg g
      else Some ((case bg g of Some l \<Rightarrow> l | None \<Rightarrow> []) @ msgs_for g ss))"
  by (induction ss arbitrary: bg) (auto split: option.splits)

lemma group_messages_empty:
  "group_messages ss Map.empty g = (if msgs_for g ss = [] then None else Some (msgs_for g ss))"
  by (simp add: group_messages_eq)

lemma deliver_groups_eq:
  assumes "\<And>k l. bg k = Some l \<Longrightarrow> l \<noteq> []"
  shows "deliver_groups t ks bg gs ms =
    (let qs = filter (\<lambda>k. bg k \<noteq> None) ks
     in (ms @ map (\<lambda>k. hd (the (bg k))) qs,
         fold (\<lambda>k. addMessagesToGroup t k (the (bg k))) qs gs))"
proof (induction ks arbitrary: gs ms)
  case (Cons k ks)
  show ?case
  proof (cases "bg k")
    case (Some l)
    then obtain m l' where "l = m # l'" using assms by (cases l) auto
    with Some Cons.IH show ?thesis by (simp add: Let_def)
  qed (use Cons in simp)
qed simp

lemma views_fold_add:
  assumes "distinct qs"
  shows "queued (fold (\<lambda>k. addMessagesToGroup t k (f k)) qs gs) g =
           (if g \<in> set qs then queued gs g @ tl (f g) else queued gs g)"
    and "processing (fold (\<lambda>k. addMessagesToGroup t k (f k)) qs gs) g =
           (processing gs g \<or> (g \<in> set qs \<and> queued gs g = [] \<and> f g \<noteq> []))"
  using assms by (induction qs arbitrary: gs) auto

lemma batch_views:
  assumes "iterates ks (group_messages ss Map.empty)"
    and "deliver_groups t ks (group_messages ss Map.empty) gs [] = (ms, gs')"
  shows "ms = map (\<lambda>k. hd (msgs_for k ss)) ks"
    and "queued gs' g = queued gs g @ tl (msgs_for g ss)"
    and "processing gs' g = (processing gs g \<or> (queued gs g = [] \<and> msgs_for g ss \<noteq> []))"
proof -
  let ?bg = "group_messages ss Map.empty"
  have ks: "distinct ks" "set ks = {k. msgs_for k ss \<noteq> []}"
    using assms(1) by (auto simp: iterates_def group_messages_empty dom_def split: if_splits)
  have "filter (\<lambda>k. ?bg k \<noteq> None) ks = ks"
    using ks by (auto simp: filter_id_conv group_messages_empty)
  moreover have "\<And>k l. ?bg k = Some l \<Longrightarrow> l \<noteq> []" by (auto simp: group_messages_empty split: if_splits)
  ultimately have eq: "ms = map (\<lambda>k. hd (the (?bg k))) ks"
      "gs' = fold (\<lambda>k. addMessagesToGroup t k (the (?bg k))) ks gs"
    using assms(2) deliver_groups_eq [of ?bg t ks gs "[]"] by (simp_all add: Let_def)
  have the: "k \<in> set ks \<Longrightarrow> the (?bg k) = msgs_for k ss" for k
    using ks(2) by (simp add: group_messages_empty)
  show "ms = map (\<lambda>k. hd (msgs_for k ss)) ks" unfolding eq by (simp add: the)
  show "queued gs' g = queued gs g @ tl (msgs_for g ss)"
    unfolding eq views_fold_add(1) [OF ks(1)] using ks(2) by (auto simp: the)
  show "processing gs' g = (processing gs g \<or> (queued gs g = [] \<and> msgs_for g ss \<noteq> []))"
    unfolding eq views_fold_add(2) [OF ks(1)] using ks(2) by (auto simp: the)
qed

end
