(* ===== verification/SqsSteps.thy ===== *)
theory SqsSteps
  imports SqsGroups
begin

text \<open>
  The SQS FIFO broker as a transition system. \<open>recv_step\<close> has one rule per critical section
  that a receive runs, \<open>group_step\<close> adds the section of an acknowledgement; every method is
  a sequence of these steps, so an invariant of the sections is one of the methods in any
  interleaving. \<open>broker_call\<close> is one call of a method, whatever the queue service answers.
\<close>

section \<open>Critical sections\<close>

inductive recv_step :: "groups \<Rightarrow> groups \<Rightarrow> bool" where
  recv_pop: "ready gs k \<Longrightarrow> recv_step gs (pop_group t k gs)"
| recv_mark: "recv_step gs (markGroupAsProcessing t k gs)"
| recv_add: "\<forall>m \<in> set ms. m_MessageGroupID m = k \<Longrightarrow> recv_step gs (addMessagesToGroup t k ms gs)"
| recv_probe: "\<not> processing gs k \<Longrightarrow> m_MessageGroupID m = k \<Longrightarrow>
     recv_step gs (enqueue_probed t k m gs)"

inductive group_step :: "groups \<Rightarrow> groups \<Rightarrow> bool" where
  step_recv: "recv_step gs gs' \<Longrightarrow> group_step gs gs'"
| step_available: "group_step gs (markGroupAsAvailable t k gs)"

inductive broker_call :: "broker \<Rightarrow> broker \<Rightarrow> bool" where
  call_receive: "broker_call b (snd (ReceiveMessages e n b))"
| call_ack: "broker_call b (snd (AcknowledgeMessage e m b))"
| call_publish: "broker_call b (snd (PublishMessage cl m b))"
| call_extend: "broker_call b (snd (ExtendVisibilityTimeout cl m secs b))"
| call_connect: "broker_call b (snd (Connect cl b))"
| call_close: "broker_call b (snd (Close b))"

abbreviation groups_in :: "broker \<Rightarrow> groups" where
  "groups_in b \<equiv> b_activeGroups b"

lemma log_call_simps [simp]:
  "b_activeGroups (log_call c b) = b_activeGroups b"
  "b_config (log_call c b) = b_config b"
  "b_receiveParams (log_call c b) = b_receiveParams b"
  "b_queueURL (log_call c b) = b_queueURL b"
  "b_calls (log_call c b) = b_calls b @ [c]"
  by (simp_all add: log_call_def)

section \<open>The receiving methods are sequences of critical sections\<close>

lemma take_heads_steps: "recv_step\<^sup>*\<^sup>* gs (snd (take_heads t n ks gs ms))"
proof (induction ks arbitrary: gs ms)
  case (Cons k ks)
  show ?case
  proof (cases "ready gs k")
    case True
    then have "recv_step gs (pop_group t k gs)" by (rule recv_pop)
    with Cons.IH [of "pop_group t k gs"] True show ?thesis
      by (auto simp: take_heads_ready intro: converse_rtranclp_into_rtranclp simp del: take_heads.simps)
  qed (simp add: take_heads_not_ready Cons.IH del: take_heads.simps)
qed simp

lemma internal_steps: "recv_step\<^sup>*\<^sup>* gs (snd (getMessagesFromInternalQueues e n gs))"
  using take_heads_steps [of gs] by (auto simp: getMessagesFromInternalQueues_def split: prod.splits)
     (metis snd_conv)

lemma probe_messages_steps:
  "recv_step\<^sup>*\<^sup>* (groups_in b) (groups_in (snd (probe_messages t ss av b)))"
proof (induction ss arbitrary: av b)
  case (Cons s ss)
  show ?case
  proof (cases "sqs_group s")
    case (Some g)
    show ?thesis
    proof (cases "processing (groups_in b) g")
      case False
      show ?thesis
      proof (cases "convert_message g s")
        case (Some m)
        have "recv_step (groups_in b) (enqueue_probed t g m (groups_in b))"
          using False convert_message_group [OF Some] by (rule recv_probe)
        with False \<open>sqs_group s = Some g\<close> Some Cons.IH show ?thesis
          by (simp add: processing_def Let_def)
             (rule converse_rtranclp_into_rtranclp, assumption, metis (no_types, lifting) broker.select_convs(3) broker.update_convs(3) broker.surjective)
      qed (use False Some Cons.IH in \<open>simp add: processing_def Let_def, metis log_call_simps(1)\<close>)
    qed (use Some Cons.IH in \<open>simp add: processing_def\<close>)
  qed (use Cons.IH in simp)
qed simp

lemma getAvailableGroups_steps:
  "recv_step\<^sup>*\<^sup>* (groups_in b) (groups_in (snd (getAvailableGroups e b)))"
  using probe_messages_steps [of "log_call (CallReceive (probe_params e b)) b"]
  by (simp add: getAvailableGroups_def Let_def split: sum.splits)

lemma group_messages_group:
  "group_messages ss Map.empty k = Some ms \<Longrightarrow> m \<in> set ms \<Longrightarrow> m_MessageGroupID m = k"
  by (auto simp: group_messages_empty split: if_splits dest: msgs_for_group)

lemma deliver_groups_steps:
  assumes "\<And>k l m. bg k = Some l \<Longrightarrow> m \<in> set l \<Longrightarrow> m_MessageGroupID m = k"
  shows "recv_step\<^sup>*\<^sup>* gs (snd (deliver_groups t ks bg gs ms))"
proof (induction ks arbitrary: gs ms)
  case (Cons k ks)
  show ?case
  proof (cases "bg k")
    case (Some l)
    then have "recv_step gs (addMessagesToGroup t k l gs)"
      using assms by (blast intro: recv_add)
    with Some Cons.IH show ?thesis by (auto intro: converse_rtranclp_into_rtranclp)
  qed (simp add: Cons.IH)
qed simp

lemma receiveSingle_steps:
  "recv_step\<^sup>*\<^sup>* (groups_in b) (groups_in (snd (receiveSingleMessage e b)))"
proof -
  obtain av b1 where av: "getAvailableGroups e b = (av, b1)" by fastforce
  then have "recv_step\<^sup>*\<^sup>* (groups_in b) (groups_in b1)"
    using getAvailableGroups_steps [of b e] by simp
  then show ?thesis
    using av
    by (auto simp: receiveSingleMessage_def Let_def split: sum.splits list.splits option.splits
        intro: rtranclp.rtrancl_into_rtrancl recv_mark)
qed

lemma receiveBatch_steps:
  "recv_step\<^sup>*\<^sup>* (groups_in b) (groups_in (snd (receiveBatchMessages e n b)))"
proof -
  obtain av b1 where av: "getAvailableGroups e b = (av, b1)" by fastforce
  then have "recv_step\<^sup>*\<^sup>* (groups_in b) (groups_in b1)"
    using getAvailableGroups_steps [of b e] by simp
  moreover have "recv_step\<^sup>*\<^sup>* (groups_in b1)
      (snd (deliver_groups t ks (group_messages ss Map.empty) (groups_in b1) []))" for t ks ss
    by (rule deliver_groups_steps) (rule group_messages_group)
  ultimately show ?thesis
    using av by (auto simp: receiveBatchMessages_def Let_def split: sum.splits prod.splits)
      (metis (no_types, lifting) rtranclp_trans snd_conv)
qed

lemma ReceiveMessages_steps:
  "recv_step\<^sup>*\<^sup>* (groups_in b) (groups_in (snd (ReceiveMessages e n b)))"
proof -
  define n' where "n' = go_min n (c_MaxPrefetch (b_config b))"
  obtain res gs where r: "getMessagesFromInternalQueues e n' (groups_in b) = (res, gs)" by fastforce
  define b1 where "b1 = b\<lparr>b_activeGroups := gs\<rparr>"
  have "recv_step\<^sup>*\<^sup>* (groups_in b) (groups_in b1)"
    using internal_steps [of "groups_in b" e n'] r by (simp add: b1_def)
  moreover have "recv_step\<^sup>*\<^sup>* (groups_in b1) (groups_in (snd (ReceiveMessages e n b)))"
    using receiveSingle_steps [of b1 e] receiveBatch_steps [of b1 e n']
    by (auto simp: ReceiveMessages_def Let_def r b1_def simp flip: n'_def split: sum.splits)
  ultimately show ?thesis by (rule rtranclp_trans)
qed

lemma recv_steps_group_steps: "recv_step\<^sup>*\<^sup>* gs gs' \<Longrightarrow> group_step\<^sup>*\<^sup>* gs gs'"
  by (rule mono_rtranclp [rule_format, of recv_step]) (rule step_recv)

lemma AcknowledgeMessage_steps:
  "group_step\<^sup>*\<^sup>* (groups_in b) (groups_in (snd (AcknowledgeMessage e m b)))"
  by (auto simp: AcknowledgeMessage_def Let_def split: option.splits intro: step_available)

lemma broker_call_steps: "broker_call b b' \<Longrightarrow> group_step\<^sup>*\<^sup>* (groups_in b) (groups_in b')"
proof (induction rule: broker_call.induct)
  case (call_receive b e n)
  show ?case by (rule recv_steps_group_steps, rule ReceiveMessages_steps)
next
  case (call_ack b e m)
  show ?case by (rule AcknowledgeMessage_steps)
qed (auto simp: PublishMessage_def ExtendVisibilityTimeout_def Connect_def Close_def Let_def
  split: option.splits sum.splits)

lemma broker_calls_steps: "broker_call\<^sup>*\<^sup>* b b' \<Longrightarrow> group_step\<^sup>*\<^sup>* (groups_in b) (groups_in b')"
  by (induction rule: rtranclp_induct) (auto intro: rtranclp_trans broker_call_steps)

section \<open>Invariants of the steps\<close>

text \<open>The map files every message under its own group.\<close>

definition wf_groups :: "groups \<Rightarrow> bool" where
  "wf_groups gs \<longleftrightarrow> (\<forall>k g. gs k = Some g \<longrightarrow>
     g_GroupID g = k \<and> (\<forall>m \<in> set (g_Tasks g). m_MessageGroupID m = k))"

lemma wf_groups_empty [simp]: "wf_groups Map.empty"
  by (simp add: wf_groups_def)

lemma wf_groups_upd:
  "wf_groups gs \<Longrightarrow> g_GroupID g = k \<Longrightarrow> \<forall>m \<in> set (g_Tasks g). m_MessageGroupID m = k \<Longrightarrow>
   wf_groups (gs(k \<mapsto> g))"
  by (auto simp: wf_groups_def)

lemma wf_groupsD:
  "wf_groups gs \<Longrightarrow> gs k = Some g \<Longrightarrow>
     g_GroupID g = k \<and> (\<forall>m \<in> set (g_Tasks g). m_MessageGroupID m = k)"
  by (auto simp: wf_groups_def)

lemma wf_groups_queued: "wf_groups gs \<Longrightarrow> m \<in> set (queued gs k) \<Longrightarrow> m_MessageGroupID m = k"
  by (cases "gs k") (auto simp: queued_def wf_groups_def)

lemma recv_step_wf: "recv_step gs gs' \<Longrightarrow> wf_groups gs \<Longrightarrow> wf_groups gs'"
proof (induction rule: recv_step.induct)
  case (recv_pop gs k t)
  then obtain g where g: "gs k = Some g" using ready_dom by blast
  have "set (tl (g_Tasks g)) \<subseteq> set (g_Tasks g)" by (cases "g_Tasks g") auto
  with wf_groupsD [OF recv_pop.prems g]
  have "wf_groups (gs(k \<mapsto> g\<lparr>g_Tasks := tl (g_Tasks g), g_Processing := True, g_LastAccess := t\<rparr>))"
    by (intro wf_groups_upd [OF recv_pop.prems]) auto
  then show ?case by (simp only: pop_group_def g option.case)
next
  case (recv_mark gs t k)
  then show ?case
    by (auto simp: markGroupAsProcessing_def Let_def wf_groups_def split: option.splits if_splits)
next
  case (recv_add ms k gs t)
  then have "\<forall>m \<in> set (tl ms). m_MessageGroupID m = k" by (cases ms) auto
  with recv_add.prems show ?case
    by (auto simp: addMessagesToGroup_def Let_def wf_groups_def split: option.splits if_splits)
next
  case (recv_probe gs k m t)
  then show ?case
    by (auto simp: enqueue_probed_def wf_groups_def split: option.splits if_splits)
qed

lemma group_step_wf: "group_step gs gs' \<Longrightarrow> wf_groups gs \<Longrightarrow> wf_groups gs'"
proof (induction rule: group_step.induct)
  case (step_available gs t k)
  then show ?case
    by (auto simp: markGroupAsAvailable_def Let_def wf_groups_def split: option.splits if_splits)
qed (rule recv_step_wf)

lemma group_steps_wf: "group_step\<^sup>*\<^sup>* gs gs' \<Longrightarrow> wf_groups gs \<Longrightarrow> wf_groups gs'"
  by (induction rule: rtranclp_induct) (auto intro: group_step_wf)

text \<open>No step of a receive frees a group.\<close>

lemma recv_step_processing: "recv_step gs gs' \<Longrightarrow> processing gs k \<Longrightarrow> processing gs' k"
  by (induction rule: recv_step.induct) (auto simp: processing_pop dest: ready_dom)

lemma recv_steps_processing: "recv_step\<^sup>*\<^sup>* gs gs' \<Longrightarrow> processing gs k \<Longrightarrow> processing gs' k"
  by (induction rule: rtranclp_induct) (auto intro: recv_step_processing)

text \<open>A stuck group stays stuck, and nothing leaves its queue.\<close>

lemma group_step_stuck:
  "group_step gs gs' \<Longrightarrow> stuck gs k \<Longrightarrow>
   stuck gs' k \<and> (\<exists>ms. queued gs' k = queued gs k @ ms)"
proof (induction rule: group_step.induct)
  case (step_recv gs gs')
  then show ?case
    by (induction rule: recv_step.induct) (auto simp: stuck_def ready_def processing_pop)
qed (auto simp: stuck_def)

lemma group_steps_stuck:
  "group_step\<^sup>*\<^sup>* gs gs' \<Longrightarrow> stuck gs k \<Longrightarrow>
   stuck gs' k \<and> (\<exists>ms. queued gs' k = queued gs k @ ms)"
proof (induction rule: rtranclp_induct)
  case (step gs' gs'')
  then obtain ms where ms: "stuck gs' k" "queued gs' k = queued gs k @ ms" by blast
  with group_step_stuck [OF step.hyps(2)] obtain ms' where
    "stuck gs'' k" "queued gs'' k = queued gs' k @ ms'" by blast
  with ms show ?case by auto
qed simp

section \<open>Frames\<close>

lemma probe_messages_frame:
  "b_config (snd (probe_messages t ss av b)) = b_config b \<and>
   b_queueURL (snd (probe_messages t ss av b)) = b_queueURL b \<and>
   b_receiveParams (snd (probe_messages t ss av b)) = b_receiveParams b"
  by (induction ss arbitrary: av b) (auto simp: Let_def split: option.splits)

lemma getAvailableGroups_frame:
  "b_config (snd (getAvailableGroups e b)) = b_config b \<and>
   b_queueURL (snd (getAvailableGroups e b)) = b_queueURL b \<and>
   b_receiveParams (snd (getAvailableGroups e b)) = b_receiveParams b"
  using probe_messages_frame [of "e_now e" _ _ "log_call (CallReceive (probe_params e b)) b"]
  by (auto simp: getAvailableGroups_def Let_def split: sum.splits)

end
