(* ===== verification/SqsProps.thy ===== *)
theory SqsProps
  imports SqsSteps
begin

text \<open>
  What the SQS FIFO broker promises and what it does not: construction, the shape of one
  receive, the marks of the groups it hands messages out of, and the worker's view of a broker:
  the theory interprets the locale \<open>group_broker\<close>, on the model.
\<close>

section \<open>One receive, path by path\<close>

definition ok_env :: "recv_env \<Rightarrow> bool" where
  "ok_env e \<longleftrightarrow> distinct (e_ord_internal e) \<and> distinct (e_ord_available e) \<and> distinct (e_ord_batch e)"

abbreviation limit_of :: "int \<Rightarrow> broker \<Rightarrow> int" where
  "limit_of n b \<equiv> go_min n (c_MaxPrefetch (b_config b))"

abbreviation picks_in :: "recv_env \<Rightarrow> int \<Rightarrow> broker \<Rightarrow> string list" where
  "picks_in e n b \<equiv> picks (limit_of n b) (e_ord_internal e) (groups_in b)"

lemma ReceiveMessages_eq:
  assumes "ok_env e" "0 \<le> limit_of n b"
  shows "ReceiveMessages e n b =
    (let ps = picks_in e n b in
     if ps \<noteq> [] then
       (Inr (map (\<lambda>k. hd (queued (groups_in b) k)) ps),
        b\<lparr>b_activeGroups := fold (pop_group (e_now e)) ps (groups_in b)\<rparr>)
     else if c_FetchMode (b_config b) = ''single'' then receiveSingleMessage e b
     else receiveBatchMessages e (limit_of n b) b)"
  using assms by (simp add: ReceiveMessages_def internal_eq ok_env_def Let_def)

lemma ReceiveMessages_negative:
  "limit_of n b < 0 \<Longrightarrow> ReceiveMessages e n b = (Inl PanicNegativeCap, b)"
  by (simp add: ReceiveMessages_def getMessagesFromInternalQueues_def Let_def)

lemma deliver_groups_batch:
  "deliver_groups t ks (group_messages ss Map.empty) gs [] =
    (let qs = filter (\<lambda>k. msgs_for k ss \<noteq> []) ks
     in (map (\<lambda>k. hd (msgs_for k ss)) qs,
         fold (\<lambda>k. addMessagesToGroup t k (msgs_for k ss)) qs gs))"
proof -
  let ?bg = "group_messages ss Map.empty" and ?qs = "filter (\<lambda>k. msgs_for k ss \<noteq> []) ks"
  have ne: "l \<noteq> []" if "?bg k = Some l" for k l
    using that by (auto simp: group_messages_empty split: if_splits)
  have flt: "filter (\<lambda>k. ?bg k \<noteq> None) ks = ?qs"
    by (rule filter_cong) (auto simp: group_messages_empty)
  have the: "the (?bg k) = msgs_for k ss" if "k \<in> set ?qs" for k
    using that by (simp add: group_messages_empty)
  have fld: "fold (\<lambda>k. addMessagesToGroup t k (the (?bg k))) ?qs gs =
      fold (\<lambda>k. addMessagesToGroup t k (msgs_for k ss)) ?qs gs"
    by (rule fold_cong) (simp_all only: the)
  have hds: "map (\<lambda>k. hd (the (?bg k))) ?qs = map (\<lambda>k. hd (msgs_for k ss)) ?qs"
    by (rule map_cong) (simp_all only: the)
  have "deliver_groups t ks ?bg gs [] =
      (let qs = filter (\<lambda>k. ?bg k \<noteq> None) ks
       in ([] @ map (\<lambda>k. hd (the (?bg k))) qs,
           fold (\<lambda>k. addMessagesToGroup t k (the (?bg k))) qs gs))"
    by (rule deliver_groups_eq) (rule ne)
  then show ?thesis by (simp only: Let_def flt fld hds append_Nil)
qed

lemma groups_of_batch:
  "groups_of (map (\<lambda>k. hd (msgs_for k ss)) (filter (\<lambda>k. msgs_for k ss \<noteq> []) ks)) =
   filter (\<lambda>k. msgs_for k ss \<noteq> []) ks"
  by (rule map_idI [THEN trans [rotated]], simp_all)
     (metis (no_types, lifting) hd_in_set mem_Collect_eq msgs_for_group)

lemma groups_of_picks:
  "wf_groups gs \<Longrightarrow> groups_of (map (\<lambda>k. hd (queued gs k)) (picks n ks gs)) = picks n ks gs"
proof -
  assume wf: "wf_groups gs"
  have "m_MessageGroupID (hd (queued gs k)) = k" if "k \<in> set (picks n ks gs)" for k
    using that picks_ready [of k n ks gs] wf_groups_queued [OF wf, of "hd (queued gs k)" k]
    by (simp add: ready_def)
  then show ?thesis by (simp add: map_idI)
qed

section \<open>The interface that the worker relies on\<close>

lemma ReceiveMessages_distinct:
  assumes ok: "ok_env e" and wf: "wf_groups (groups_in b)"
    and eq: "ReceiveMessages e n b = (Inr ms, b')"
  shows "distinct (groups_of ms)"
proof (cases "0 \<le> limit_of n b")
  case True
  let ?ps = "picks_in e n b"
  show ?thesis
  proof (cases "?ps = []")
    case False
    with eq ReceiveMessages_eq [OF ok True]
    have "ms = map (\<lambda>k. hd (queued (groups_in b) k)) ?ps" by (simp add: Let_def)
    with groups_of_picks [OF wf] show ?thesis
      using ok by (simp only:) (simp add: distinct_picks ok_env_def)
  next
    case none: True
    show ?thesis
    proof (cases "c_FetchMode (b_config b) = ''single''")
      case True
      with eq none ReceiveMessages_eq [OF ok \<open>0 \<le> limit_of n b\<close>]
      have "receiveSingleMessage e b = (Inr ms, b')" by simp
      then show ?thesis
        by (auto simp: receiveSingleMessage_def Let_def split: prod.splits sum.splits list.splits option.splits)
    next
      case False
      with eq none ReceiveMessages_eq [OF ok \<open>0 \<le> limit_of n b\<close>]
      have "receiveBatchMessages e (limit_of n b) b = (Inr ms, b')" by simp
      then obtain ss where "ms = map (\<lambda>k. hd (msgs_for k ss))
          (filter (\<lambda>k. msgs_for k ss \<noteq> []) (e_ord_batch e))"
        by (auto simp: receiveBatchMessages_def deliver_groups_batch Let_def split: prod.splits sum.splits)
      then show ?thesis
        using ok by (simp only: groups_of_batch) (simp add: ok_env_def)
    qed
  qed
next
  case False
  with eq ReceiveMessages_negative [of n b e] show ?thesis by simp
qed

lemma AcknowledgeMessage_groups:
  "groups_in (snd (AcknowledgeMessage e m b)) =
    (if cl_DeleteMessage (e_client e) (b_queueURL b) (m_ReceiptHandle m) = None
     then markGroupAsAvailable (e_now e) (m_MessageGroupID m) (groups_in b) else groups_in b)"
  by (simp add: AcknowledgeMessage_def Let_def split: option.splits)

interpretation sqs: group_broker ReceiveMessages AcknowledgeMessage
  "\<lambda>b. processing (groups_in b)" ok_env "\<lambda>b. wf_groups (groups_in b)"
proof unfold_locales
  fix e n b ms b'
  assume "ok_env e" "wf_groups (groups_in b)" "ReceiveMessages e n b = (Inr ms, b')"
  then show "distinct (groups_of ms)" by (rule ReceiveMessages_distinct)
next
  fix e n b
  assume "wf_groups (groups_in b)"
  then show "wf_groups (groups_in (snd (ReceiveMessages e n b)))"
    by (rule group_steps_wf [OF recv_steps_group_steps [OF ReceiveMessages_steps]])
next
  fix e m b
  assume "wf_groups (groups_in b)"
  then show "wf_groups (groups_in (snd (AcknowledgeMessage e m b)))"
    by (rule group_steps_wf [OF AcknowledgeMessage_steps])
next
  fix e n b g
  assume "processing (groups_in b) g"
  then show "processing (groups_in (snd (ReceiveMessages e n b))) g"
    by (rule recv_steps_processing [OF ReceiveMessages_steps])
next
  fix e and m :: message and g b
  assume "m_MessageGroupID m \<noteq> g"
  then show "processing (groups_in (snd (AcknowledgeMessage e m b))) g = processing (groups_in b) g"
    by (simp add: AcknowledgeMessage_groups)
next
  fix e and m :: message and b err b' g
  assume "AcknowledgeMessage e m b = (Some err, b')"
  then show "processing (groups_in b') g = processing (groups_in b) g"
    by (auto simp: AcknowledgeMessage_def Let_def split: option.splits)
qed

section \<open>The groups of the messages handed out\<close>

lemma msgs_for_ne: "msgs_for g ss \<noteq> [] \<Longrightarrow> \<exists>s \<in> set ss. sqs_group s = Some g"
  by (induction ss) (auto split: option.splits if_splits)

lemma receive_single_marks:
  assumes eq: "receiveSingleMessage e b = (Inr ms, b')" and g: "g \<in> set (groups_of ms)"
  shows "processing (groups_in b') g"
proof -
  obtain av b1 where av: "getAvailableGroups e b = (av, b1)" by fastforce
  from eq g av obtain h s m where c: "convert_message h s = Some m" "ms = [m]"
    and b': "groups_in b' = markGroupAsProcessing (e_now e) h (groups_in b1)"
    by (auto simp: receiveSingleMessage_def Let_def split: sum.splits list.splits option.splits)
  have "h = g" using g c convert_message_group by fastforce
  with b' show ?thesis by simp
qed

text \<open>In batch mode the mark is set only when no message of the group was queued when the answer came.\<close>

lemma receive_batch_marks:
  assumes ok: "ok_env e" and eq: "receiveBatchMessages e n b = (Inr ms, b')"
    and g: "g \<in> set (groups_of ms)" and free: "queued (groups_in (snd (getAvailableGroups e b))) g = []"
  shows "processing (groups_in b') g"
proof -
  obtain av b1 where av: "getAvailableGroups e b = (av, b1)" by fastforce
  from eq av obtain ss where d: "deliver_groups (e_now e) (e_ord_batch e) (group_messages ss Map.empty) (groups_in b1) [] =
      (ms, groups_in b')"
    by (auto simp: receiveBatchMessages_def Let_def split: sum.splits prod.splits)
  let ?qs = "filter (\<lambda>k. msgs_for k ss \<noteq> []) (e_ord_batch e)"
  from d have ms: "ms = map (\<lambda>k. hd (msgs_for k ss)) ?qs"
    and b': "groups_in b' = fold (\<lambda>k. addMessagesToGroup (e_now e) k (msgs_for k ss)) ?qs (groups_in b1)"
    by (simp_all add: deliver_groups_batch Let_def)
  from g ms groups_of_batch have "g \<in> set ?qs" by metis
  moreover have "distinct ?qs" using ok by (simp add: ok_env_def)
  ultimately show ?thesis using free av unfolding b' by (simp add: views_fold_add)
qed

lemma receive_marks:
  assumes ok: "ok_env e" and wf: "wf_groups (groups_in b)"
    and eq: "ReceiveMessages e n b = (Inr ms, b')" and g: "g \<in> set (groups_of ms)"
  shows "processing (groups_in b') g \<or>
    c_FetchMode (b_config b) \<noteq> ''single'' \<and> queued (groups_in (snd (getAvailableGroups e b))) g \<noteq> []"
proof -
  have nn: "0 \<le> limit_of n b" using eq ReceiveMessages_negative [of n b e] by fastforce
  note eqs = eq ReceiveMessages_eq [OF ok nn]
  show ?thesis
  proof (cases "picks_in e n b = []")
    case True
    with eqs receive_single_marks [of e b ms b' g] receive_batch_marks [of e "limit_of n b" b ms b' g] ok g
    show ?thesis by (auto split: if_splits)
  next
    case False
    with eqs have ms: "ms = map (\<lambda>k. hd (queued (groups_in b) k)) (picks_in e n b)"
      and b': "groups_in b' = fold (pop_group (e_now e)) (picks_in e n b) (groups_in b)"
      by (auto simp: Let_def)
    from g ms groups_of_picks [OF wf] have "g \<in> set (picks_in e n b)" by metis
    moreover have "\<forall>p \<in> set (picks_in e n b). groups_in b p \<noteq> None"
      using picks_ready ready_dom by fastforce
    moreover have "distinct (picks_in e n b)" using ok by (simp add: ok_env_def distinct_picks)
    ultimately show ?thesis unfolding b' by (simp add: processing_fold_pop)
  qed
qed

end
