(* ===== verification/SqsClaims.thy ===== *)
theory SqsClaims
  imports SqsProps
begin

text \<open>
  The properties of the SQS FIFO broker, each with a witness at a concrete broker, and the
  small fixtures the witnesses share.
\<close>

section \<open>Fixtures of the witnesses\<close>

definition demo_config :: broker_config where
  "demo_config = \<lparr>c_QueueURL = ''q.fifo'', c_Region = '''', c_Endpoint = '''', c_MaxMessages = 10,
     c_VisibilityTimeout = 30, c_WaitTimeSeconds = 20, c_FetchMode = '''', c_BatchSize = 0,
     c_MaxPrefetch = 0\<rparr>"

definition demo_broker :: broker where
  "demo_broker = (case NewSQSFIFOBroker demo_config of Inr b \<Rightarrow> b)"

definition demo_sqs_message :: "string \<Rightarrow> string \<Rightarrow> sqs_message" where
  "demo_sqs_message i g = \<lparr>s_MessageId = i, s_Body = ''YQ=='', s_ReceiptHandle = i,
     s_Attributes = [''MessageGroupId'' \<mapsto> g], s_MessageAttributes = Map.empty\<rparr>"

definition demo_message :: "string \<Rightarrow> string \<Rightarrow> message" where
  "demo_message i g = \<lparr>m_ID = i, m_Body = ''a'', m_Attributes = [''MessageGroupId'' \<mapsto> g],
     m_MessageGroupID = g, m_MessageDeduplicationID = '''', m_ReceiptHandle = i\<rparr>"

text \<open>A queue that answers the request proper with \<open>ss\<close> and the probe with nothing.\<close>

definition demo_client :: "sqs_message list \<Rightarrow> sqs_client" where
  "demo_client ss = \<lparr>cl_ReceiveMessage =
       (\<lambda>p. if r_ReceiveRequestAttemptId p = Some ''req-u'' then Inr ss else Inr []),
     cl_DeleteMessage = (\<lambda>_ _. None), cl_ChangeMessageVisibility = (\<lambda>_ _ _. None),
     cl_SendMessage = (\<lambda>_. Inr ''id''), cl_GetQueueAttributes = (\<lambda>_. None)\<rparr>"

definition demo_env :: "sqs_message list \<Rightarrow> string list \<Rightarrow> recv_env" where
  "demo_env ss ord = \<lparr>e_client = demo_client ss, e_probe_uuid = ''u'', e_req_uuid = ''u'',
     e_now = 1, e_ord_internal = [], e_ord_available = [], e_ord_batch = ord\<rparr>"

lemma demo_decode [simp]: "b64_decode ''YQ=='' = Some ''a''"
  by code_simp

lemma demo_convert [simp]: "convert_message g (demo_sqs_message i h) = Some (demo_message i h\<lparr>m_MessageGroupID := g\<rparr>)"
  by (simp add: convert_message_def demo_sqs_message_def demo_message_def map_add_def)

lemma demo_body [simp]: "s_Body (demo_sqs_message i g) = ''YQ==''"
  by (simp add: demo_sqs_message_def)

lemma demo_group [simp]: "sqs_group (demo_sqs_message i g) = Some g"
  by (simp add: demo_sqs_message_def)

lemma demo_message_simps [simp]:
  "m_MessageGroupID (demo_message i g) = g" "m_ReceiptHandle (demo_message i g) = i"
  "m_ID (demo_message i g) = i" "m_Body (demo_message i g) = ''a''"
  by (simp_all add: demo_message_def)

lemma demo_same_group [simp]: "demo_message i g\<lparr>m_MessageGroupID := g\<rparr> = demo_message i g"
  by (simp add: demo_message_def)

lemma demo_new: "NewSQSFIFOBroker demo_config = Inr demo_broker"
  by (simp add: demo_broker_def NewSQSFIFOBroker_def demo_config_def norm_fetch_mode_def Let_def)

lemma demo_broker_simps [simp]:
  "groups_in demo_broker = Map.empty" "c_FetchMode (b_config demo_broker) = ''batch''"
  "c_MaxPrefetch (b_config demo_broker) = 50" "c_BatchSize (b_config demo_broker) = 10"
  "b_calls demo_broker = []"
  by (simp_all add: demo_broker_def NewSQSFIFOBroker_def demo_config_def norm_fetch_mode_def Let_def
      or_default_def norm_batch_size_def)

lemma demo_client_receive [simp]:
  "cl_ReceiveMessage (e_client (demo_env ss ord)) p =
     (if r_ReceiveRequestAttemptId p = Some ''req-u'' then Inr ss else Inr [])"
  by (simp add: demo_env_def demo_client_def)

lemma demo_env_simps [simp]:
  "e_now (demo_env ss ord) = 1" "e_ord_batch (demo_env ss ord) = ord"
  "e_ord_internal (demo_env ss ord) = []" "e_ord_available (demo_env ss ord) = []"
  by (simp_all add: demo_env_def)

lemma demo_params [simp]:
  "r_ReceiveRequestAttemptId (probe_params (demo_env ss ord) b) = Some ''probe-u''"
  "r_ReceiveRequestAttemptId (single_params (demo_env ss ord) b) = Some ''req-u''"
  "r_ReceiveRequestAttemptId (batch_params (demo_env ss ord) n av b) = Some ''req-u''"
  by (simp_all add: probe_params_def single_params_def batch_params_def demo_env_def Let_def)

lemma demo_available:
  "getAvailableGroups (demo_env ss ord) b = ([], log_call (CallReceive (probe_params (demo_env ss ord) b)) b)"
  by (simp add: getAvailableGroups_def Let_def)

lemma ack_call: "broker_call\<^sup>*\<^sup>* b (snd (AcknowledgeMessage e m b))"
  by (rule r_into_rtranclp) (rule call_ack)

section \<open>Groups that never drain\<close>

text \<open>C1: A group that is marked as processing while messages wait in its queue stays so, and
  its queue only grows at the end, whatever sequence of calls (receives, acknowledgements,
  publishes, with any answers of SQS) follows: no call ever takes a message out of it.\<close>

theorem stuck_forever:
  assumes "broker_call\<^sup>*\<^sup>* b b'" and "stuck (groups_in b) g"
  shows "stuck (groups_in b') g \<and> (\<exists>ms. queued (groups_in b') g = queued (groups_in b) g @ ms)"
  using broker_calls_steps [OF assms(1)] assms(2) by (rule group_steps_stuck)

definition demo_stuck :: broker where
  "demo_stuck = demo_broker\<lparr>b_activeGroups :=
     addMessagesToGroup 1 ''g'' [demo_message ''1'' ''g'', demo_message ''2'' ''g''] Map.empty\<rparr>"

theorem stuck_forever_witness:
  "let b' = snd (AcknowledgeMessage (demo_env [] []) (demo_message ''1'' ''g'') demo_stuck)
   in stuck (groups_in demo_stuck) ''g'' \<and> stuck (groups_in b') ''g''"
proof -
  have s: "stuck (groups_in demo_stuck) ''g''" by (simp add: demo_stuck_def stuck_def)
  show ?thesis
    using stuck_forever [OF ack_call s] s by (simp add: Let_def)
qed

text \<open>C2: When SQS answers a batch receive with two or more messages of one idle group, the
  first is handed out and the others are queued; from then on they stay at the head of the
  queue for ever, after every further sequence of calls, the acknowledgement of the first
  message included.\<close>

theorem batch_tail_never_delivered:
  assumes "getAvailableGroups e b = (av, b1)"
    and "cl_ReceiveMessage (e_client e) (batch_params e n av b1) = Inr ss"
    and "iterates (e_ord_batch e) (group_messages ss Map.empty)"
    and "queued (groups_in b1) g = []" and "msgs_for g ss = m1 # m2 # rest"
    and "receiveBatchMessages e n b = (res, b')" and "broker_call\<^sup>*\<^sup>* b' b''"
  shows "stuck (groups_in b'') g \<and> (\<exists>ms. queued (groups_in b'') g = m2 # rest @ ms)"
proof -
  obtain msgs where d: "deliver_groups (e_now e) (e_ord_batch e) (group_messages ss Map.empty)
      (groups_in b1) [] = (msgs, groups_in b')"
    using assms(1,2,6) by (auto simp: receiveBatchMessages_def Let_def split: prod.splits)
  have "stuck (groups_in b') g" "queued (groups_in b') g = m2 # rest"
    using batch_views(2,3) [OF assms(3) d, of g] assms(4,5) by (simp_all add: stuck_def)
  with group_steps_stuck [OF broker_calls_steps [OF assms(7)], of g] show ?thesis by simp
qed

abbreviation demo_two :: "sqs_message list" where
  "demo_two \<equiv> [demo_sqs_message ''1'' ''g'', demo_sqs_message ''2'' ''g'']"

lemma demo_two_iterates: "iterates [''g''] (group_messages demo_two Map.empty)"
  by (auto simp: iterates_def)

theorem batch_tail_never_delivered_witness:
  "let e = demo_env demo_two [''g'']; (res, b') = receiveBatchMessages e 10 demo_broker
   in res = Inr [demo_message ''1'' ''g''] \<and>
      stuck (groups_in (snd (AcknowledgeMessage e (demo_message ''1'' ''g'') b'))) ''g''"
proof -
  let ?e = "demo_env demo_two [''g'']"
  obtain res b' where r: "receiveBatchMessages ?e 10 demo_broker = (res, b')" by fastforce
  then have "res = Inr [demo_message ''1'' ''g'']"
    by (auto simp: receiveBatchMessages_def demo_available Let_def)
  moreover have "stuck (groups_in (snd (AcknowledgeMessage ?e (demo_message ''1'' ''g'') b'))) ''g''"
    using batch_tail_never_delivered
      [OF demo_available _ _ _ _ r ack_call [of b' ?e "demo_message ''1'' ''g''"], where g = "''g''"]
      demo_two_iterates by simp
  ultimately show ?thesis using r by simp
qed

section \<open>What one receive hands out\<close>

text \<open>C4: While some idle group has queued messages, a receive answers from the internal
  queues alone: it hands out the first message of each of the first \<open>max 1 n\<close> such groups of the
  map iteration, takes exactly these out of their queues, marks these groups as processing, and
  makes no call to SQS.\<close>

theorem internal_receive_reference:
  assumes "ok_env e" and "0 \<le> go_min n (c_MaxPrefetch (b_config b))"
    and "picks (go_min n (c_MaxPrefetch (b_config b))) (e_ord_internal e) (b_activeGroups b) = ps"
    and "ps \<noteq> []"
  shows "ReceiveMessages e n b =
    (Inr (map (\<lambda>k. hd (queued (b_activeGroups b) k)) ps),
     b\<lparr>b_activeGroups := fold (pop_group (e_now e)) ps (b_activeGroups b)\<rparr>)"
  using ReceiveMessages_eq [OF assms(1,2)] assms(3,4) by (simp add: Let_def)

definition demo_ready :: broker where
  "demo_ready = demo_broker\<lparr>b_activeGroups :=
     [''g'' \<mapsto> \<lparr>g_GroupID = ''g'', g_Processing = False, g_LastAccess = 0,
       g_Tasks = [demo_message ''1'' ''g'', demo_message ''2'' ''g'']\<rparr>]\<rparr>"

theorem internal_receive_reference_witness:
  "let (res, b') = ReceiveMessages ((demo_env [] [])\<lparr>e_ord_internal := [''h'', ''g'']\<rparr>) 5 demo_ready
   in res = Inr [demo_message ''1'' ''g''] \<and> queued (groups_in b') ''g'' = [demo_message ''2'' ''g'']
      \<and> processing (groups_in b') ''g''"
proof -
  let ?e = "(demo_env [] [])\<lparr>e_ord_internal := [''h'', ''g'']\<rparr>"
  have "ok_env ?e" by (simp add: ok_env_def)
  moreover have "0 \<le> go_min 5 (c_MaxPrefetch (b_config demo_ready))"
    by (simp add: demo_ready_def go_min_def)
  moreover have "picks (go_min 5 (c_MaxPrefetch (b_config demo_ready))) (e_ord_internal ?e)
      (b_activeGroups demo_ready) = [''g'']"
    by (simp add: demo_ready_def go_min_def picks_def ready_def processing_def queued_def)
  ultimately have "ReceiveMessages ?e 5 demo_ready =
      (Inr (map (\<lambda>k. hd (queued (b_activeGroups demo_ready) k)) [''g'']),
       demo_ready\<lparr>b_activeGroups := fold (pop_group (e_now ?e)) [''g''] (b_activeGroups demo_ready)\<rparr>)"
    by (rule internal_receive_reference) simp
  then show ?thesis by (simp add: demo_ready_def queued_def processing_def pop_group_def)
qed

text \<open>A limit of 0 hands out one message all the same, because the loop checks the limit only after it has
  appended a message.\<close>

theorem zero_limit_hands_out_one:
  assumes "ok_env e" and "go_min n (c_MaxPrefetch (b_config b)) = 0"
    and "k \<in> set (e_ord_internal e)" and "ready (b_activeGroups b) k"
  shows "\<exists>m b'. ReceiveMessages e n b = (Inr [m], b')"
proof -
  let ?ps = "picks_in e n b"
  have "filter (ready (b_activeGroups b)) (e_ord_internal e) \<noteq> []"
    using assms(3,4) by (auto simp: filter_empty_conv)
  then obtain h hs where "filter (ready (b_activeGroups b)) (e_ord_internal e) = h # hs"
    by (cases "filter (ready (b_activeGroups b)) (e_ord_internal e)") auto
  then have "?ps = [h]" using assms(2) by (simp add: picks_def)
  with ReceiveMessages_eq [OF assms(1), of n b] assms(2) show ?thesis by (simp add: Let_def)
qed

theorem zero_limit_hands_out_one_witness:
  "\<exists>m b'. ReceiveMessages ((demo_env [] [])\<lparr>e_ord_internal := [''g'']\<rparr>) 0 demo_ready = (Inr [m], b')"
  by (rule zero_limit_hands_out_one [where k = "''g''"])
    (simp_all add: ok_env_def demo_ready_def go_min_def ready_def processing_def queued_def)

text \<open>C10: A batch receive loses and reorders nothing within a group: for every group, the
  message handed out followed by the messages added to the group's queue are exactly the
  messages of that group in the answer of SQS that decode, in the order of the answer.\<close>

theorem batch_delivery:
  assumes "iterates ks (group_messages ss Map.empty)"
    and "deliver_groups t ks (group_messages ss Map.empty) gs [] = (ms, gs')"
  shows "filter (\<lambda>m. m_MessageGroupID m = g) ms = take 1 (msgs_for g ss) \<and>
    queued gs' g = queued gs g @ drop 1 (msgs_for g ss) \<and>
    processing gs' g = (processing gs g \<or> (queued gs g = [] \<and> msgs_for g ss \<noteq> []))"
proof -
  have ks: "distinct ks" "set ks = {k. msgs_for k ss \<noteq> []}"
    using assms(1) by (auto simp: iterates_def group_messages_empty dom_def split: if_splits)
  have "m_MessageGroupID (hd (msgs_for k ss)) = k" if "k \<in> set ks" for k
    using that ks(2) by (auto intro: msgs_for_group hd_in_set)
  then have "filter (\<lambda>m. m_MessageGroupID m = g) (map (\<lambda>k. hd (msgs_for k ss)) ks) =
      map (\<lambda>k. hd (msgs_for k ss)) (filter (\<lambda>k. k = g) ks)"
    by (auto simp: filter_map o_def intro!: arg_cong [where f = "map _"] filter_cong)
  also have "filter (\<lambda>k. k = g) ks = (if msgs_for g ss = [] then [] else [g])"
    using filter_eq_singleton [of id ks g] ks by (auto simp: filter_empty_conv)
  finally have "filter (\<lambda>m. m_MessageGroupID m = g) ms = take 1 (msgs_for g ss)"
    using batch_views(1) [OF assms] by (cases "msgs_for g ss") auto
  then show ?thesis
    using batch_views(2,3) [OF assms] by (simp add: drop_Suc)
qed

theorem batch_delivery_witness:
  "let (ms, gs) = deliver_groups 1 [''g''] (group_messages demo_two Map.empty) Map.empty []
   in filter (\<lambda>m. m_MessageGroupID m = ''g'') ms = [demo_message ''1'' ''g''] \<and>
      queued gs ''g'' = [demo_message ''2'' ''g'']"
proof -
  obtain ms gs where d: "deliver_groups 1 [''g''] (group_messages demo_two Map.empty) Map.empty [] = (ms, gs)"
    by fastforce
  show ?thesis using batch_delivery [OF demo_two_iterates d, of "''g''"] by (simp only: d) simp
qed

text \<open>C23: In every state that a new broker reaches by any calls, one receive hands out at most one message
  per message group, and afterwards each of these groups is marked as processing. There is one exception: in
  batch mode the mark is not set for a group that already had queued messages (which the probe of the
  same receive can have queued) when the answer of SQS came.\<close>

theorem receive_one_per_group:
  assumes "NewSQSFIFOBroker config = Inr b\<^sub>0" and "broker_call\<^sup>*\<^sup>* b\<^sub>0 b"
    and "ok_env e" and "ReceiveMessages e n b = (Inr ms, b')"
  shows "distinct (map m_MessageGroupID ms) \<and>
    (\<forall>g \<in> set (map m_MessageGroupID ms). processing (b_activeGroups b') g \<or>
       c_FetchMode (b_config b) \<noteq> ''single'' \<and> queued (b_activeGroups (snd (getAvailableGroups e b))) g \<noteq> [])"
proof -
  have "groups_in b\<^sub>0 = Map.empty"
    using assms(1) by (auto simp: NewSQSFIFOBroker_def Let_def split: if_splits option.splits)
  then have "wf_groups (groups_in b)"
    using group_steps_wf [OF broker_calls_steps [OF assms(2)]] by simp
  with assms(3,4) show ?thesis using sqs.receive_distinct receive_marks by blast
qed

lemma demo_receive_two:
  "fst (ReceiveMessages (demo_env demo_two [''g'']) 10 demo_broker) = Inr [demo_message ''1'' ''g'']"
  by (simp add: ReceiveMessages_def getMessagesFromInternalQueues_def go_min_def
      receiveBatchMessages_def demo_available Let_def)

theorem receive_one_per_group_witness:
  "\<exists>b'. ReceiveMessages (demo_env demo_two [''g'']) 10 demo_broker = (Inr [demo_message ''1'' ''g''], b')
   \<and> processing (b_activeGroups b') ''g''"
proof -
  obtain b' where r: "ReceiveMessages (demo_env demo_two [''g'']) 10 demo_broker =
      (Inr [demo_message ''1'' ''g''], b')"
    using demo_receive_two by (metis prod.collapse)
  have "b_activeGroups (snd (getAvailableGroups (demo_env demo_two [''g'']) demo_broker)) = Map.empty"
    by (simp add: demo_available)
  with receive_one_per_group [OF demo_new rtranclp.rtrancl_refl _ r]
  have "processing (b_activeGroups b') ''g''" by (simp add: ok_env_def queued_def)
  with r show ?thesis by blast
qed

text \<open>A batch receive hands out a message of a group that is already marked as
  processing: only the internal queues respect the mark. (SQS does this once the visibility timeout of the message
  in flight has passed.)\<close>

theorem batch_ignores_processing:
  "\<exists>e b m. processing (b_activeGroups b) (m_MessageGroupID m) \<and>
     fst (ReceiveMessages e 10 b) = Inr [m]"
proof -
  let ?b = "demo_broker\<lparr>b_activeGroups := markGroupAsProcessing 1 ''g'' Map.empty\<rparr>"
  have "processing (b_activeGroups ?b) (m_MessageGroupID (demo_message ''1'' ''g''))" by simp
  moreover have "fst (ReceiveMessages (demo_env demo_two [''g'']) 10 ?b) = Inr [demo_message ''1'' ''g'']"
    by (simp add: ReceiveMessages_def getMessagesFromInternalQueues_def go_min_def
        receiveBatchMessages_def demo_available Let_def)
  ultimately show ?thesis by blast
qed

text \<open>A single-mode receive whose message body does not decode hands out nothing but leaves
  the group marked as processing, and no message of it is queued that could free it later.\<close>

theorem single_decode_failure:
  assumes "getAvailableGroups e b = (av, b1)"
    and "cl_ReceiveMessage (e_client e) (single_params e b1) = Inr (s # ss)"
    and "sqs_group s = Some g" and "b64_decode (s_Body s) = None"
  shows "fst (receiveSingleMessage e b) = Inl DecodeBodyFailed \<and>
    processing (b_activeGroups (snd (receiveSingleMessage e b))) g \<and>
    queued (b_activeGroups (snd (receiveSingleMessage e b))) = queued (b_activeGroups b1)"
  using assms by (simp add: receiveSingleMessage_def convert_message_def)

theorem single_decode_failure_witness:
  "let s = (demo_sqs_message ''1'' ''g'')\<lparr>s_Body := ''{}''\<rparr>
   in fst (receiveSingleMessage (demo_env [s] []) demo_broker) = Inl DecodeBodyFailed"
proof -
  let ?s = "(demo_sqs_message ''1'' ''g'')\<lparr>s_Body := ''{}''\<rparr>"
  have "b64_decode ''{}'' = None" by code_simp
  then show ?thesis
    using single_decode_failure [OF demo_available, of "[?s]" "[]" demo_broker ?s "[]" "''g''"]
    by (simp add: demo_sqs_message_def)
qed

section \<open>Construction and requests\<close>

lemma fifo_suffix:
  "(\<exists>p. u = p @ ''.fifo'') \<longleftrightarrow> \<not> (length u < 5 \<or> drop (length u - 5) u \<noteq> ''.fifo'')"
proof
  assume "\<exists>p. u = p @ ''.fifo''"
  then show "\<not> (length u < 5 \<or> drop (length u - 5) u \<noteq> ''.fifo'')" by auto
next
  assume *: "\<not> (length u < 5 \<or> drop (length u - 5) u \<noteq> ''.fifo'')"
  then have d: "drop (length u - 5) u = ''.fifo''" by blast
  show "\<exists>p. u = p @ ''.fifo''"
    by (rule exI [of _ "take (length u - 5) u"], fold d, rule append_take_drop_id [symmetric])
qed

text \<open>A broker is constructed exactly for the queue URLs that end in \<open>.fifo\<close> and the fetch
  modes that are empty, \<open>single\<close> or \<open>batch\<close>.\<close>

theorem new_broker_accepts:
  "(\<exists>b. NewSQSFIFOBroker config = Inr b) \<longleftrightarrow>
   (\<exists>p. c_QueueURL config = p @ ''.fifo'') \<and> c_FetchMode config \<in> {'''', ''single'', ''batch''}"
  unfolding fifo_suffix
  by (cases "c_QueueURL config = ''''"; cases "length (c_QueueURL config) < 5 \<or>
        drop (length (c_QueueURL config) - 5) (c_QueueURL config) \<noteq> ''.fifo''")
     (simp_all only: NewSQSFIFOBroker_def norm_fetch_mode_def Let_def, auto)

lemma or_default_props [simp]:
  "0 < d \<Longrightarrow> 0 < or_default d v" "0 < d \<Longrightarrow> or_default d (or_default d v) = or_default d v"
  by (simp_all add: or_default_def)

lemma norm_batch_size_props [simp]:
  "2 \<le> norm_batch_size n" "norm_batch_size n \<le> 10"
  "norm_batch_size (norm_batch_size n) = norm_batch_size n"
  by (simp_all add: norm_batch_size_def)

lemma norm_fetch_mode_props:
  "norm_fetch_mode f = Some mode \<Longrightarrow>
     (mode = ''single'' \<or> mode = ''batch'') \<and> norm_fetch_mode mode = Some mode"
  by (auto simp: norm_fetch_mode_def split: if_splits)

text \<open>The configuration of a constructed broker is normalised: every size is positive, the
  batch size is within 2 and 10, the mode is one of the two; and constructing a broker from it
  again changes nothing.\<close>

theorem new_broker_normalises:
  assumes "NewSQSFIFOBroker config = Inr b"
  shows "let c = b_config b in 2 \<le> c_BatchSize c \<and> c_BatchSize c \<le> 10 \<and> 0 < c_MaxMessages c \<and>
    0 < c_VisibilityTimeout c \<and> 0 < c_WaitTimeSeconds c \<and> 0 < c_MaxPrefetch c \<and>
    (c_FetchMode c = ''single'' \<or> c_FetchMode c = ''batch'') \<and> b_activeGroups b = Map.empty \<and>
    NewSQSFIFOBroker c = Inr b"
proof -
  let ?u = "c_QueueURL config"
  from assms obtain mode where u: "?u \<noteq> ''''" "\<not> (length ?u < 5 \<or> drop (length ?u - 5) ?u \<noteq> ''.fifo'')"
    and mode: "norm_fetch_mode (c_FetchMode config) = Some mode"
    by (simp add: NewSQSFIFOBroker_def Let_def split: if_splits option.splits)
  from assms u mode have c: "b_config b = config
     \<lparr>c_MaxMessages := or_default 10 (c_MaxMessages config),
      c_VisibilityTimeout := or_default 30 (c_VisibilityTimeout config),
      c_WaitTimeSeconds := or_default 20 (c_WaitTimeSeconds config),
      c_FetchMode := mode, c_BatchSize := norm_batch_size (c_BatchSize config),
      c_MaxPrefetch := or_default 50 (c_MaxPrefetch config)\<rparr>"
    and b: "b = \<lparr>b_queueURL = ?u, b_config = b_config b, b_activeGroups = Map.empty,
      b_receiveParams = initial_receive_params (b_config b), b_calls = []\<rparr>"
    by (auto simp add: NewSQSFIFOBroker_def Let_def)
  have "NewSQSFIFOBroker (b_config b) =
      Inr \<lparr>b_queueURL = ?u, b_config = b_config b, b_activeGroups = Map.empty,
        b_receiveParams = initial_receive_params (b_config b), b_calls = []\<rparr>"
    using u norm_fetch_mode_props [OF mode] by (simp add: NewSQSFIFOBroker_def Let_def c)
  then have "NewSQSFIFOBroker (b_config b) = Inr b" using b by simp
  moreover have "b_activeGroups b = Map.empty" by (subst b) simp
  ultimately show ?thesis
    using norm_fetch_mode_props [OF mode] by (simp add: Let_def c)
qed

theorem new_broker_normalises_witness:
  "NewSQSFIFOBroker demo_config = Inr demo_broker \<and> NewSQSFIFOBroker (b_config demo_broker) = Inr demo_broker"
  using new_broker_normalises [OF demo_new] demo_new by (simp add: Let_def)

text \<open>The configuration never changes after construction.\<close>

lemma ReceiveMessages_config: "b_config (snd (ReceiveMessages e n b)) = b_config b"
proof -
  have "b_config (snd (receiveSingleMessage e b')) = b_config b'" for b'
    using getAvailableGroups_frame [of e b']
    by (auto simp: receiveSingleMessage_def Let_def split: prod.splits sum.splits list.splits option.splits)
  moreover have "b_config (snd (receiveBatchMessages e k b')) = b_config b'" for b' k
    using getAvailableGroups_frame [of e b']
    by (auto simp: receiveBatchMessages_def Let_def split: prod.splits sum.splits)
  ultimately show ?thesis
    by (auto simp: ReceiveMessages_def Let_def split: prod.splits sum.splits)
qed

lemma broker_call_config: "broker_call b b' \<Longrightarrow> b_config b' = b_config b"
  by (induction rule: broker_call.induct)
     (auto simp: ReceiveMessages_config AcknowledgeMessage_def PublishMessage_def Connect_def
       Close_def ExtendVisibilityTimeout_def Let_def split: option.splits sum.splits)

lemma broker_calls_config: "broker_call\<^sup>*\<^sup>* b b' \<Longrightarrow> b_config b' = b_config b"
  by (induction rule: rtranclp_induct) (auto dest: broker_call_config)

definition max_requested :: "sqs_call \<Rightarrow> int option" where
  "max_requested c = (case c of CallReceive p \<Rightarrow> Some (r_MaxNumberOfMessages p) | _ \<Rightarrow> None)"

definition requests_ok :: "broker \<Rightarrow> broker \<Rightarrow> bool" where
  "requests_ok b b' \<longleftrightarrow> (\<exists>cs. b_calls b' = b_calls b @ cs \<and>
     (\<forall>c \<in> set cs. \<forall>n. max_requested c = Some n \<longrightarrow> 1 \<le> n \<and> n \<le> 10))"

lemma requests_ok_refl: "b_calls b' = b_calls b \<Longrightarrow> requests_ok b b'"
  by (simp add: requests_ok_def)

lemma requests_ok_trans: "requests_ok b b' \<Longrightarrow> requests_ok b' b'' \<Longrightarrow> requests_ok b b''"
  by (fastforce simp: requests_ok_def)

lemma requests_ok_log:
  "(\<And>n. max_requested c = Some n \<Longrightarrow> 1 \<le> n \<and> n \<le> 10) \<Longrightarrow> b_calls b' = b_calls b @ [c] \<Longrightarrow> requests_ok b b'"
  by (auto simp: requests_ok_def)

lemma probe_messages_requests: "requests_ok b (snd (probe_messages t ss av b))"
proof (induction ss arbitrary: av b)
  case (Cons s ss)
  let ?c = "\<lambda>g. CallChangeVisibility (b_queueURL b) (s_ReceiptHandle s) (r_VisibilityTimeout (b_receiveParams b))"
  have step: "requests_ok b b1 \<Longrightarrow> requests_ok b (snd (probe_messages t ss av' b1))" for b1 av'
    using Cons.IH requests_ok_trans by blast
  show ?case
    by (auto simp: Let_def Cons.IH max_requested_def split: option.splits
        intro!: step requests_ok_log [where c = "?c g" for g])
qed (simp add: requests_ok_refl)

lemma getAvailableGroups_requests: "requests_ok b (snd (getAvailableGroups e b))"
proof -
  let ?p = "probe_params e b"
  have "requests_ok b (log_call (CallReceive ?p) b)"
    by (rule requests_ok_log [where c = "CallReceive ?p"]) (auto simp: max_requested_def probe_params_def)
  then show ?thesis
    using requests_ok_trans [OF _ probe_messages_requests]
    by (auto simp: getAvailableGroups_def Let_def requests_ok_refl split: sum.splits)
qed

lemma batch_limit_bounds:
  "2 \<le> c_BatchSize (b_config b) \<Longrightarrow> c_BatchSize (b_config b) \<le> 10 \<Longrightarrow> 1 \<le> n \<Longrightarrow>
   1 \<le> r_MaxNumberOfMessages (batch_params e n av b) \<and> r_MaxNumberOfMessages (batch_params e n av b) \<le> 10"
  by (cases av) (auto simp: batch_params_def Let_def go_min_def)

text \<open>Asked for at least one message, a broker never requests fewer than 1 or more than 10
  messages of SQS in one call (the range SQS accepts), whatever happened before.\<close>

theorem receive_request_bounds:
  assumes "NewSQSFIFOBroker config = Inr b\<^sub>0" and "broker_call\<^sup>*\<^sup>* b\<^sub>0 b" and "1 \<le> n"
  shows "\<exists>cs. b_calls (snd (ReceiveMessages e n b)) = b_calls b @ cs \<and>
    (\<forall>p. CallReceive p \<in> set cs \<longrightarrow> 1 \<le> r_MaxNumberOfMessages p \<and> r_MaxNumberOfMessages p \<le> 10)"
proof -
  have c: "2 \<le> c_BatchSize (b_config b)" "c_BatchSize (b_config b) \<le> 10" "0 < c_MaxPrefetch (b_config b)"
    using broker_calls_config [OF assms(2)] assms(1)
    by (auto simp: NewSQSFIFOBroker_def Let_def split: if_splits option.splits)
  then have n: "1 \<le> limit_of n b" using assms(3) by (simp add: go_min_def)
  have single: "requests_ok b' (snd (receiveSingleMessage e b'))" for b'
  proof -
    obtain av b1 where av: "getAvailableGroups e b' = (av, b1)" by fastforce
    have "requests_ok b1 (snd (receiveSingleMessage e b'))"
      by (rule requests_ok_log [where c = "CallReceive (single_params e b1)"])
         (auto simp: receiveSingleMessage_def av Let_def max_requested_def single_params_def
           split: sum.splits list.splits option.splits)
    then show ?thesis
      using getAvailableGroups_requests [of b' e] av requests_ok_trans by (metis snd_conv)
  qed
  have batch: "requests_ok b' (snd (receiveBatchMessages e (limit_of n b) b'))"
    if "b_config b' = b_config b" for b'
  proof -
    obtain av b1 where av: "getAvailableGroups e b' = (av, b1)" by fastforce
    then have "b_config b1 = b_config b" using getAvailableGroups_frame [of e b'] that by simp
    then have "1 \<le> r_MaxNumberOfMessages (batch_params e (limit_of n b) av b1) \<and>
        r_MaxNumberOfMessages (batch_params e (limit_of n b) av b1) \<le> 10"
      using batch_limit_bounds [of b1 "limit_of n b" e av] c n by simp
    then have "requests_ok b1 (snd (receiveBatchMessages e (limit_of n b) b'))"
      by (intro requests_ok_log [where c = "CallReceive (batch_params e (limit_of n b) av b1)"])
         (auto simp: receiveBatchMessages_def av Let_def max_requested_def split: sum.splits prod.splits)
    then show ?thesis
      using getAvailableGroups_requests [of b' e] av requests_ok_trans by (metis snd_conv)
  qed
  have "requests_ok b (snd (ReceiveMessages e n b))"
  proof -
    obtain res gs where r: "getMessagesFromInternalQueues e (limit_of n b) (groups_in b) = (res, gs)"
      by fastforce
    let ?b = "b\<lparr>b_activeGroups := gs\<rparr>"
    have "requests_ok b ?b" by (simp add: requests_ok_refl)
    then have "requests_ok b (snd (receiveSingleMessage e ?b))"
        "requests_ok b (snd (receiveBatchMessages e (limit_of n b) ?b))"
      using single [of ?b] batch [of ?b] requests_ok_trans by auto
    with \<open>requests_ok b ?b\<close> show ?thesis
      by (auto simp: ReceiveMessages_def r Let_def split: sum.splits)
  qed
  then show ?thesis by (fastforce simp: requests_ok_def max_requested_def split: sqs_call.splits)
qed

theorem receive_request_bounds_witness:
  "\<exists>cs. b_calls (snd (ReceiveMessages (demo_env [] []) 10 demo_broker)) = b_calls demo_broker @ cs \<and>
    (\<forall>p. CallReceive p \<in> set cs \<longrightarrow> 1 \<le> r_MaxNumberOfMessages p \<and> r_MaxNumberOfMessages p \<le> 10)"
  by (rule receive_request_bounds [OF demo_new rtranclp.rtrancl_refl]) simp

section \<open>Acknowledging and publishing\<close>

text \<open>An acknowledgement deletes the message of SQS exactly once; if that fails it reports
  the error and changes no group, and if it succeeds it frees the group exactly when nothing is queued for it, and
  touches no queue and no other group.\<close>

theorem acknowledge_effect:
  "let (res, b') = AcknowledgeMessage e m b;
       g = m_MessageGroupID m;
       err = cl_DeleteMessage (e_client e) (b_queueURL b) (m_ReceiptHandle m)
   in res = map_option DeleteFailed err \<and>
      b_calls b' = b_calls b @ [CallDelete (b_queueURL b) (m_ReceiptHandle m)] \<and>
      queued (b_activeGroups b') = queued (b_activeGroups b) \<and>
      processing (b_activeGroups b') =
        (if err = None
         then (processing (b_activeGroups b))
                (g := processing (b_activeGroups b) g \<and> queued (b_activeGroups b) g \<noteq> [])
         else processing (b_activeGroups b))"
  by (simp add: AcknowledgeMessage_def Let_def split: option.splits)

text \<open>Publishing refuses a message without a group id, then one without a deduplication id,
  and sends nothing then; every other message is sent once, with its body as it is, and the
  broker's groups never change.\<close>

theorem publish_effect:
  "let (res, b') = PublishMessage cl m b in
   b_activeGroups b' = b_activeGroups b \<and>
   (if m_MessageGroupID m = '''' then res = Some ErrMessageGroupIDEmpty \<and> b' = b
    else if m_MessageDeduplicationID m = '''' then res = Some ErrDeduplicationIDEmpty \<and> b' = b
    else b_calls b' = b_calls b @ [CallSend (send_input_of b m)] \<and>
         (res = None \<longleftrightarrow> (\<exists>i. cl_SendMessage cl (send_input_of b m) = Inr i)))"
  by (auto simp: PublishMessage_def Let_def split: sum.splits)

text \<open>C36: Publishing and receiving do not round-trip: a receive decodes the body as base64 and a
  publish sends it raw, so a published message with a non-empty body never comes back with the
  body it was published with.\<close>

theorem publish_receive_mismatch:
  assumes "s_Body s = i_MessageBody (send_input_of b m)" and "m_Body m \<noteq> []"
    and "convert_message g s = Some m'"
  shows "length (m_Body m') < length (m_Body m)"
  using assms b64_decode_shorter [of "m_Body m"]
  by (auto simp: send_input_of_def convert_message_def split: option.splits)

theorem publish_receive_mismatch_witness:
  "let m = (demo_message ''1'' ''g'')\<lparr>m_Body := ''YQ==''\<rparr> in
   convert_message ''g'' (demo_sqs_message ''1'' ''g'') = Some (demo_message ''1'' ''g'') \<and>
   length (m_Body (demo_message ''1'' ''g'')) < length (m_Body m)"
  using publish_receive_mismatch [of "demo_sqs_message ''1'' ''g''" demo_broker
      "(demo_message ''1'' ''g'')\<lparr>m_Body := ''YQ==''\<rparr>" "''g''" "demo_message ''1'' ''g''"]
  by (simp add: send_input_of_def)

end
