(* ===== verification/GoValue.thy ===== *)
theory GoValue
  imports Prelude
begin

text \<open>
  Go's dynamic values, the \<open>interface{}\<close> values that task arguments, results and headers are.
  A value that \<open>encoding/json\<close> puts into an \<open>interface{}\<close> is nil, a bool, a float64, a string,
  a \<open>[]interface{}\<close> or a \<open>map[string]interface{}\<close>; the code itself also puts an \<open>int\<close> there.
  A map is an association list that is kept strictly sorted by key, so that equal maps are
  equal values; \<open>map_put\<close> and \<open>map_of\<close> are Go's assignment and lookup.
\<close>

section \<open>Floating point numbers\<close>

text \<open>
  A float64. A finite one is a sign, a mantissa and a power of two, in the normal form with
  an odd mantissa (or 0, with exponent 0), so that equal numbers are equal values.
\<close>

datatype f64 = Fin bool nat int | Inf bool | NaN

text \<open>The conversion \<open>int(v)\<close> truncates towards zero; out of the range of int64 it is
  \<open>0x8000000000000000\<close>, as on amd64.\<close>

definition int64_min :: int where
  "int64_min = - (2 ^ 63)"

definition f64_trunc :: "nat \<Rightarrow> int \<Rightarrow> int" where
  "f64_trunc m e = (if 0 \<le> e then int m * 2 ^ nat e else int m div 2 ^ nat (- e))"

definition f64_to_int :: "f64 \<Rightarrow> int" where
  "f64_to_int v =
     (case v of
        Fin neg m e \<Rightarrow>
          let t = (if neg then - f64_trunc m e else f64_trunc m e)
          in if - (2 ^ 63) \<le> t \<and> t < 2 ^ 63 then t else int64_min
      | _ \<Rightarrow> int64_min)"

abbreviation f64_zero :: f64 where
  "f64_zero \<equiv> Fin False 0 0"

section \<open>Dynamic values\<close>

datatype gval =
    GNil
  | GBool bool
  | GInt int
  | GFloat f64
  | GStr string
  | GArr "gval list"
  | GMap "(string \<times> gval) list"

type_synonym gmap = "(string \<times> gval) list"

text \<open>Byte order on strings, as Go compares them.\<close>

fun str_less :: "string \<Rightarrow> string \<Rightarrow> bool" where
  "str_less _ [] = False"
| "str_less [] (_ # _) = True"
| "str_less (a # as) (b # bs) =
     (of_char a < (of_char b :: nat) \<or> (a = b \<and> str_less as bs))"

fun map_put :: "string \<Rightarrow> 'v \<Rightarrow> (string \<times> 'v) list \<Rightarrow> (string \<times> 'v) list" where
  "map_put k v [] = [(k, v)]"
| "map_put k v ((k', v') # m) =
     (if k = k' then (k, v) # m
      else if str_less k k' then (k, v) # (k', v') # m
      else (k', v') # map_put k v m)"

fun sorted_map :: "(string \<times> 'v) list \<Rightarrow> bool" where
  "sorted_map [] = True"
| "sorted_map [_] = True"
| "sorted_map ((k, _) # (k', v') # m) = (str_less k k' \<and> sorted_map ((k', v') # m))"

lemma str_less_irrefl [simp]: "\<not> str_less s s"
  by (induction s) auto

lemma str_less_trans: "str_less a b \<Longrightarrow> str_less b c \<Longrightarrow> str_less a c"
  by (induction a b arbitrary: c rule: str_less.induct) (case_tac c; auto)+

lemma str_less_linear: "a \<noteq> b \<Longrightarrow> str_less a b \<or> str_less b a"
proof (induction a b rule: str_less.induct)
  case (3 a as b bs)
  then show ?case using of_char_eq_iff [of a b, where 'a = nat] by (auto simp: neq_iff)
qed (auto elim: list.exhaust simp: neq_Nil_conv)

lemma map_of_put [simp]: "map_of (map_put k v m) = (map_of m)(k \<mapsto> v)"
  by (induction k v m rule: map_put.induct) (auto simp: fun_eq_iff)

lemma sorted_map_Cons:
  "sorted_map ((k, v) # m) \<longleftrightarrow> sorted_map m \<and> (\<forall>k' \<in> fst ` set m. str_less k k')"
  by (induction m arbitrary: k v rule: sorted_map.induct) (auto intro: str_less_trans)

lemma map_put_keys: "fst ` set (map_put k v m) = insert k (fst ` set m)"
  by (induction k v m rule: map_put.induct) auto

lemma sorted_map_put: "sorted_map m \<Longrightarrow> sorted_map (map_put k v m)"
proof (induction k v m rule: map_put.induct)
  case (2 k v k' v' m)
  then show ?case
    using str_less_linear [of k k']
    by (auto simp: sorted_map_Cons map_put_keys intro: str_less_trans)
qed simp

text \<open>Putting the entries of a sorted map back one by one rebuilds it.\<close>

lemma map_put_last:
  "\<forall>k' \<in> fst ` set m. str_less k' k \<Longrightarrow> map_put k v m = m @ [(k, v)]"
proof (induction m)
  case (Cons p m)
  then obtain k' v' where p: "p = (k', v')" "str_less k' k" by (cases p) auto
  then have "k \<noteq> k'" "\<not> str_less k k'" using str_less_trans [of k k' k] by auto
  with p Cons show ?case by simp
qed simp

lemma fold_map_put_sorted:
  "sorted_map (acc @ m) \<Longrightarrow> fold (\<lambda>(k, v). map_put k v) m acc = acc @ m"
proof (induction m arbitrary: acc)
  case (Cons p m)
  obtain k v where p: "p = (k, v)" by fastforce
  have "\<forall>k' \<in> fst ` set acc. str_less k' k"
    using Cons.prems p by (induction acc) (fastforce simp: sorted_map_Cons)+
  then have "map_put k v acc = acc @ [(k, v)]" by (rule map_put_last)
  with Cons p show ?case by simp
qed simp

text \<open>A value all of whose maps are sorted, and which holds only what JSON can hold.\<close>

fun json_gval :: "gval \<Rightarrow> bool" where
  "json_gval (GInt _) = False"
| "json_gval (GArr vs) = (\<forall>v \<in> set vs. json_gval v)"
| "json_gval (GMap m) = (sorted_map m \<and> (\<forall>p \<in> set m. json_gval (snd p)))"
| "json_gval _ = True"

end
