(* ===== verification/Protocol.thy ===== *)
theory Protocol
  imports GoValue
begin

text \<open>
  The protocol interface package (\<open>internal/protocol/protocol.go\<close>): the payloads that pass
  between the worker, the pool and the Python processes, the Celery message, the internal
  message types, and the interface itself as a record of functions. Its implementation is
  \<open>JsonProtocol\<close>. Go's nil slice and nil map are \<open>None\<close>, an empty one is \<open>Some []\<close>.
\<close>

section \<open>Message types\<close>

definition InternalTaskMessage :: string where "InternalTaskMessage = ''task''"
definition InternalResultMessage :: string where "InternalResultMessage = ''result''"
definition InternalPingMessage :: string where "InternalPingMessage = ''ping''"
definition InternalPongMessage :: string where "InternalPongMessage = ''pong''"
definition InternalStopMessage :: string where "InternalStopMessage = ''stop''"

lemmas internal_messages =
  InternalTaskMessage_def InternalResultMessage_def InternalPingMessage_def
  InternalPongMessage_def InternalStopMessage_def

section \<open>Payloads\<close>

record CeleryMessage =
  cm_Body :: string
  cm_ContentEncoding :: string
  cm_ContentType :: string
  cm_Headers :: "gmap option"
  cm_Properties :: "gmap option"

record TaskPayload =
  tp_TaskName :: string
  tp_TaskID :: string
  tp_Args :: "gval list option"
  tp_Kwargs :: "gmap option"
  tp_Retries :: int
  tp_Queue :: string

record ResultPayload =
  rp_TaskID :: string
  rp_Status :: string
  rp_Result :: gval
  rp_Error :: string
  rp_Traceback :: string
  rp_Runtime :: f64
  rp_MemoryUsed :: int

definition empty_result :: ResultPayload where
  "empty_result = \<lparr>rp_TaskID = '''', rp_Status = '''', rp_Result = GNil, rp_Error = '''',
     rp_Traceback = '''', rp_Runtime = f64_zero, rp_MemoryUsed = 0\<rparr>"

section \<open>The interface\<close>

datatype protocol_error =
    MarshalFailed
  | UnmarshalFailed
  | WrongMessageType string
  | UnknownMessageType string
  | TaskNameMissing
  | TaskIDMissing
  | BodyNotBase64
  | BodyNotJson
  | InvalidBodyFormat

text \<open>What an encoding reads from outside: a fresh UUID and the clock, as RFC 3339 text.\<close>

record stamp =
  st_uuid :: string
  st_now :: string

record protocol =
  pr_EncodeTask :: "stamp \<Rightarrow> TaskPayload \<Rightarrow> protocol_error + bytes"
  pr_DecodeTask :: "bytes \<Rightarrow> protocol_error + TaskPayload"
  pr_EncodeResult :: "stamp \<Rightarrow> ResultPayload \<Rightarrow> protocol_error + bytes"
  pr_DecodeResult :: "bytes \<Rightarrow> protocol_error + ResultPayload"
  pr_EncodePing :: "stamp \<Rightarrow> protocol_error + bytes"
  pr_DecodePing :: "bytes \<Rightarrow> protocol_error option"
  pr_EncodePong :: "stamp \<Rightarrow> protocol_error + bytes"
  pr_DecodePong :: "bytes \<Rightarrow> protocol_error option"
  pr_EncodeStop :: "stamp \<Rightarrow> protocol_error + bytes"
  pr_DecodeStop :: "bytes \<Rightarrow> protocol_error option"

section \<open>The contract of an encoder and its decoder\<close>

text \<open>
  What a client of an encoding relies on: the encoder accepts every payload that is \<open>ok\<close>, and the
  decoder gives the payload back, up to \<open>norm\<close> (an encoding may lose the difference between nil and empty).
\<close>

locale codec =
  fixes encode :: "'e \<Rightarrow> 'p \<Rightarrow> protocol_error + 'm"
    and decode :: "'m \<Rightarrow> protocol_error + 'p"
    and env_ok :: "'e \<Rightarrow> bool"
    and ok :: "'p \<Rightarrow> bool"
    and norm :: "'p \<Rightarrow> 'p"
  assumes decode_encode: "env_ok e \<Longrightarrow> ok p \<Longrightarrow> \<exists>m. encode e p = Inr m \<and> decode m = Inr (norm p)"
begin

lemma roundtrip: "env_ok e \<Longrightarrow> ok p \<Longrightarrow> encode e p = Inr m \<Longrightarrow> decode m = Inr (norm p)"
  using decode_encode by fastforce

lemma encode_inj:
  assumes "env_ok e" "env_ok e'" "ok p" "ok q" "encode e p = Inr m" "encode e' q = Inr m"
  shows "norm p = norm q"
proof -
  have "decode m = Inr (norm p)" "decode m = Inr (norm q)" using assms roundtrip by blast+
  then show ?thesis by simp
qed

text \<open>A stream of messages decodes to the payloads in their order.\<close>

fun encode_all :: "('e \<times> 'p) list \<Rightarrow> 'm list" where
  "encode_all [] = []"
| "encode_all ((e, p) # ps) = (case encode e p of Inl _ \<Rightarrow> encode_all ps | Inr m \<Rightarrow> m # encode_all ps)"

lemma decode_stream:
  "\<forall>(e, p) \<in> set ps. env_ok e \<and> ok p \<Longrightarrow> map decode (encode_all ps) = map (\<lambda>(e, p). Inr (norm p)) ps"
proof (induction ps)
  case (Cons x ps)
  obtain e p where x: "x = (e, p)" by fastforce
  with Cons.prems decode_encode [of e p] Cons.IH show ?case by auto
qed simp

end

end
