(* ===== verification/PoolTypes.thy ===== *)
theory PoolTypes
  imports Protocol
begin

text \<open>
  The pool interface package (\<open>internal/pool/pool.go\<close>): process states, statistics and the
  configuration of a pool.
\<close>

datatype ProcessState =
    ProcessStateIdle
  | ProcessStateBusy
  | ProcessStateStarting
  | ProcessStateStopping
  | ProcessStateStopped
  | ProcessStateError

record ProcessStats =
  ps_PID :: int
  ps_State :: ProcessState
  ps_StartTime :: time
  ps_TasksProcessed :: int
  ps_LastTaskTime :: time
  ps_CurrentTaskID :: string
  ps_CurrentTaskStartTime :: time
  ps_MemoryUsage :: int
  ps_CPUUsage :: f64

record PoolConfig =
  pc_MinProcesses :: int
  pc_MaxProcesses :: int
  pc_MaxTasksPerProcess :: int
  pc_MaxIdleTime :: duration
  pc_MaxProcessAge :: duration
  pc_ProcessStartupTimeout :: duration
  pc_ProcessShutdownTimeout :: duration
  pc_TaskExecutionTimeout :: duration
  pc_ProcessEnv :: "string list"
  pc_PythonPath :: string
  pc_WorkerScriptPath :: string

record PoolStats =
  po_TotalProcesses :: int
  po_IdleProcesses :: int
  po_BusyProcesses :: int
  po_StartingProcesses :: int
  po_StoppingProcesses :: int
  po_TotalTasksProcessed :: int
  po_ProcessStats :: "string \<rightharpoonup> ProcessStats"

end
