(* ===== verification/PythonProcess.thy ===== *)
theory PythonProcess
  imports PoolTypes
begin

text \<open>
  One Python process (\<open>internal/pool/python/process.go\<close>). A \<open>PythonProcess\<close> object is the
  record \<open>process\<close>; each method is a function from what it observes of the outside world (the
  operating system's answers, the lines the reader gets, the clock) and the object to its
  result and the object after it. What is written to the child's stdin is the field \<open>p_stdin\<close>.

  A method that waits for one of several channels takes the one it received from as an
  argument: a \<open>wait\<close> value says how the select ended. The lines that the reader of \<open>ExecuteTask\<close> gets are an
  argument too; \<open>StdoutReaders\<close> says which lines these are, since \<open>handleStdout\<close> reads the same pipe.
\<close>

section \<open>The object\<close>

record command =
  cmd_path :: string
  cmd_args :: "string list"
  cmd_Env :: "string list"
  cmd_Dir :: string
  cmd_Setpgid :: bool

record process =
  p_id :: string
  p_cmd :: command
  p_started :: bool
  p_has_stdin :: bool
  p_has_stdout :: bool
  p_has_stderr :: bool
  p_stdin :: "bytes list"
  p_protocol :: protocol
  p_state :: ProcessState
  p_stats :: ProcessStats
  p_taskTimeout :: duration

record PythonProcessConfig =
  ppc_PythonPath :: string
  ppc_WorkerScriptPath :: string
  ppc_Env :: "string list"
  ppc_Protocol :: protocol
  ppc_TaskTimeout :: duration

datatype process_error =
    ExecutablePathFailed
  | StdinPipeFailed
  | StdoutPipeFailed
  | StderrPipeFailed
  | StartFailed
  | EncodeFailed protocol_error
  | WriteFailed
  | ReadFailed
  | TimedOut

definition setState :: "ProcessState \<Rightarrow> process \<Rightarrow> process" where
  [pool_defs]: "setState s p = p\<lparr>p_state := s\<rparr>"

definition getState :: "process \<Rightarrow> ProcessState" where
  [pool_defs]: "getState p = p_state p"

definition Stats :: "process \<Rightarrow> ProcessStats" where
  [pool_defs]: "Stats p = p_stats p"

definition ID :: "process \<Rightarrow> string" where
  [pool_defs]: "ID p = p_id p"

section \<open>Construction\<close>

text \<open>What \<open>NewPythonProcess\<close> reads of its surroundings.\<close>

record os_env =
  os_uuid :: string
  os_now :: time
  os_Environ :: "string list"
  os_Executable :: "string option"
  os_PYTHONPATH :: string

text \<open>\<open>filepath.Dir\<close> of the clean absolute path that \<open>os.Executable\<close> returns: what precedes the
  last slash, or the root.\<close>

definition filepath_Dir :: "string \<Rightarrow> string" where
  "filepath_Dir path =
     (let d = rev (tl (dropWhile (\<lambda>c. c \<noteq> CHR ''/'') (rev path)))
      in if d = '''' then ''/'' else d)"

definition NewPythonProcess :: "os_env \<Rightarrow> PythonProcessConfig \<Rightarrow> process_error + process" where
  "NewPythonProcess os config =
     (let id = os_uuid os;
          pythonPath = (if ppc_PythonPath config = '''' then ''python'' else ppc_PythonPath config);
          env = (if ppc_Env config \<noteq> [] then os_Environ os @ ppc_Env config else os_Environ os);
          env = env @ [''CELERY_GO_PROCESS_ID='' @ id]
      in case os_Executable os of
           None \<Rightarrow> Inl ExecutablePathFailed
         | Some executablePath \<Rightarrow>
             let executableDir = filepath_Dir executablePath;
                 env = env @ [''PYTHONPATH='' @ executableDir @ '':'' @ os_PYTHONPATH os]
             in Inr \<lparr>p_id = id,
                     p_cmd = \<lparr>cmd_path = pythonPath, cmd_args = [ppc_WorkerScriptPath config],
                              cmd_Env = env, cmd_Dir = executableDir, cmd_Setpgid = True\<rparr>,
                     p_started = False, p_has_stdin = False, p_has_stdout = False,
                     p_has_stderr = False, p_stdin = [],
                     p_protocol = ppc_Protocol config,
                     p_state = ProcessStateStarting,
                     p_stats = \<lparr>ps_PID = 0, ps_State = ProcessStateStarting,
                                ps_StartTime = os_now os, ps_TasksProcessed = 0,
                                ps_LastTaskTime = zero_time, ps_CurrentTaskID = '''',
                                ps_CurrentTaskStartTime = zero_time, ps_MemoryUsage = 0,
                                ps_CPUUsage = f64_zero\<rparr>,
                     p_taskTimeout = ppc_TaskTimeout config\<rparr>)"

section \<open>Starting\<close>

text \<open>How the system calls of \<open>Start\<close> end: the first that fails, or the PID of the child.\<close>

datatype start_outcome = StdinPipeErr | StdoutPipeErr | StderrPipeErr | StartErr | Started int

definition Start :: "start_outcome \<Rightarrow> process \<Rightarrow> process_error option \<times> process" where
  "Start out p =
     (case out of
        StdinPipeErr \<Rightarrow> (Some StdinPipeFailed, p)
      | StdoutPipeErr \<Rightarrow> (Some StdoutPipeFailed, p\<lparr>p_has_stdin := True\<rparr>)
      | StderrPipeErr \<Rightarrow> (Some StderrPipeFailed, p\<lparr>p_has_stdin := True, p_has_stdout := True\<rparr>)
      | StartErr \<Rightarrow>
          (Some StartFailed, p\<lparr>p_has_stdin := True, p_has_stdout := True, p_has_stderr := True\<rparr>)
      | Started pid \<Rightarrow>
          let p = p\<lparr>p_has_stdin := True, p_has_stdout := True, p_has_stderr := True,
                     p_started := True\<rparr>;
              p = setState ProcessStateIdle p;
              p = p\<lparr>p_stats := (p_stats p)\<lparr>ps_PID := pid, ps_State := ProcessStateIdle\<rparr>\<rparr>
          in (None, p))"

section \<open>Executing a task\<close>

text \<open>What the reader goroutine of \<open>ExecuteTask\<close> gets of stdout: the lines, and how the scan ended, if it did.\<close>

datatype scan_end = EOF | ScanError | Open

record stdout_scan =
  so_lines :: "bytes list"
  so_end :: scan_end

text \<open>The reader returns the first line that decodes to a result with the task's id.\<close>

fun scan_result :: "protocol \<Rightarrow> string \<Rightarrow> bytes list \<Rightarrow> ResultPayload option" where
  "scan_result pr tid [] = None"
| "scan_result pr tid (line # ls) =
     (case pr_DecodeResult pr line of
        Inl _ \<Rightarrow> scan_result pr tid ls
      | Inr r \<Rightarrow> if rp_TaskID r = tid then Some r else scan_result pr tid ls)"

text \<open>How the select of \<open>ExecuteTask\<close> ended: a result, a read error, or the deadline. A value
  on a channel may lose against the deadline, but it must be there to be received.\<close>

datatype wait = GotResult | GotError | Deadline

record exec_env =
  ex_stamp :: stamp
  ex_start :: time
  ex_end :: time
  ex_write_ok :: bool
  ex_out :: stdout_scan
  ex_wait :: wait

definition mark_busy :: "time \<Rightarrow> TaskPayload \<Rightarrow> process \<Rightarrow> process" where
  "mark_busy now task p =
     (let p = setState ProcessStateBusy p
      in p\<lparr>p_stats := (p_stats p)\<lparr>ps_State := ProcessStateBusy, ps_CurrentTaskID := tp_TaskID task,
                                   ps_CurrentTaskStartTime := now\<rparr>\<rparr>)"

definition mark_done :: "time \<Rightarrow> process \<Rightarrow> process" where
  "mark_done now p =
     (let p = setState ProcessStateIdle p
      in p\<lparr>p_stats := (p_stats p)\<lparr>ps_State := ProcessStateIdle,
                                   ps_TasksProcessed := ps_TasksProcessed (p_stats p) + 1,
                                   ps_LastTaskTime := now, ps_CurrentTaskID := '''',
                                   ps_CurrentTaskStartTime := zero_time\<rparr>\<rparr>)"

definition mark_error :: "process \<Rightarrow> process" where
  "mark_error p =
     (let p = setState ProcessStateError p
      in p\<lparr>p_stats := (p_stats p)\<lparr>ps_State := ProcessStateError, ps_CurrentTaskID := '''',
                                   ps_CurrentTaskStartTime := zero_time\<rparr>\<rparr>)"

definition write_stdin :: "bytes \<Rightarrow> process \<Rightarrow> process" where
  "write_stdin data p = p\<lparr>p_stdin := p_stdin p @ [data @ [CHR 0x0A]]\<rparr>"

text \<open>Encoding and writing the task; an error ends \<open>ExecuteTask\<close>.\<close>

definition send_task :: "exec_env \<Rightarrow> TaskPayload \<Rightarrow> process \<Rightarrow> process_error option \<times> process" where
  "send_task ex task p =
     (case pr_EncodeTask (p_protocol p) (ex_stamp ex) task of
        Inl err \<Rightarrow> (Some (EncodeFailed err), p)
      | Inr taskData \<Rightarrow>
          if \<not> ex_write_ok ex then (Some WriteFailed, p) else (None, write_stdin taskData p))"

text \<open>Waiting for the result. An \<open>ex_wait\<close> that the channels do not allow is read as the
  deadline, which always ends the select.\<close>

definition await_result ::
    "exec_env \<Rightarrow> TaskPayload \<Rightarrow> process \<Rightarrow> (process_error + ResultPayload) \<times> process" where
  "await_result ex task p =
     (let found = scan_result (p_protocol p) (tp_TaskID task) (so_lines (ex_out ex))
      in case (ex_wait ex, found, so_end (ex_out ex)) of
           (GotResult, Some result, _) \<Rightarrow> (Inr result, mark_done (ex_end ex) p)
         | (GotError, None, ScanError) \<Rightarrow> (Inl ReadFailed, mark_error p)
         | _ \<Rightarrow> (Inl TimedOut, mark_error p))"

definition ExecuteTask ::
    "exec_env \<Rightarrow> TaskPayload \<Rightarrow> process \<Rightarrow> (process_error + ResultPayload) \<times> process" where
  "ExecuteTask ex task p =
     (let p = mark_busy (ex_start ex) task p in
      case send_task ex task p of
        (Some err, p) \<Rightarrow> (Inl err, p)
      | (None, p) \<Rightarrow> await_result ex task p)"

lemmas execute_defs = ExecuteTask_def send_task_def await_result_def

section \<open>Pinging\<close>

fun scan_pong :: "protocol \<Rightarrow> bytes list \<Rightarrow> bool" where
  "scan_pong pr [] = False"
| "scan_pong pr (line # ls) = (pr_DecodePong pr line = None \<or> scan_pong pr ls)"

definition Ping :: "exec_env \<Rightarrow> process \<Rightarrow> process_error option \<times> process" where
  "Ping ex p =
     (case pr_EncodePing (p_protocol p) (ex_stamp ex) of
        Inl err \<Rightarrow> (Some (EncodeFailed err), p)
      | Inr pingData \<Rightarrow>
          if \<not> ex_write_ok ex then (Some WriteFailed, p)
          else
            let p = write_stdin pingData p in
            case (ex_wait ex, scan_pong (p_protocol p) (so_lines (ex_out ex)), so_end (ex_out ex)) of
              (GotResult, True, _) \<Rightarrow> (None, p)
            | (GotError, False, ScanError) \<Rightarrow> (Some ReadFailed, p)
            | _ \<Rightarrow> (Some TimedOut, p))"

section \<open>Stopping\<close>

text \<open>
  \<open>Stop\<close> closes the pipes and reports no error in any case; what it does to the child is the
  list of its actions. A graceful stop of a process whose pipes were never made writes to a nil
  interface, which panics.
\<close>

datatype stop_action = WroteStop bytes | WaitedFor | KilledGroup | KilledProcess
  | ClosedStdin | ClosedStdout | ClosedStderr

datatype stop_result = StopOk | StopPanic

record stop_env =
  sp_stamp :: stamp
  sp_write_ok :: bool
  sp_exits_in_time :: bool
  sp_getpgid_ok :: bool

definition Stop ::
    "stop_env \<Rightarrow> bool \<Rightarrow> process \<Rightarrow> stop_result \<times> stop_action list \<times> process" where
  "Stop env graceful p =
     (let p = setState ProcessStateStopping p;
          stop = pr_EncodeStop (p_protocol p) (sp_stamp env)
      in if graceful \<and> \<not> p_has_stdin p \<and> \<not> isl stop then (StopPanic, [], p)
         else
           let (acts, p) =
                 (if graceful then
                    case stop of
                      Inr d \<Rightarrow> if sp_write_ok env
                               then ([WroteStop (d @ [CHR 0x0A])], write_stdin d p) else ([], p)
                    | Inl _ \<Rightarrow> ([], p)
                  else ([], p));
               exited = graceful \<and> sp_exits_in_time env;
               acts = acts @ (if graceful then [WaitedFor] else []);
               acts = acts @ (if \<not> exited \<and> p_started p
                              then (if sp_getpgid_ok env then [KilledGroup] else []) @ [KilledProcess]
                              else []);
               acts = acts @ (if p_has_stdin p then [ClosedStdin] else []) @
                 (if p_has_stdout p then [ClosedStdout] else []) @
                 (if p_has_stderr p then [ClosedStderr] else []);
               p = setState ProcessStateStopped p
           in (StopOk, acts, p\<lparr>p_stats := (p_stats p)\<lparr>ps_State := ProcessStateStopped\<rparr>\<rparr>))"

end
