(* ===== verification/ProcessPool.thy ===== *)
theory ProcessPool
  imports PythonProcess
begin

text \<open>
  The process pool (\<open>internal/pool/python/pool.go\<close>), method by method. The pool holds the ids
  of its map \<open>processes\<close> (a process object is found by its id in the heap \<open>pl_heap\<close>, which keeps an
  object that was removed from the map, as a goroutine that holds a pointer does), the list of
  idle ids, and the statistics. Every method that runs in more than one critical section is
  written as the composition of its sections; \<open>PoolThreads\<close> interleaves the same sections.

  What a method reads from outside (a fresh process from the operating system, a stop, the
  clock) is an argument.
\<close>

section \<open>State\<close>

datatype pool_error =
    MaxProcessesReached int
  | CreateProcessFailed process_error
  | StartProcessFailed process_error
  | CreateInitialFailed pool_error
  | CreateNewFailed pool_error
  | GetIdleFailed pool_error
  | ProcessFailed process_error
  | SendCancelled
  | WaitCancelled
  | PanicClosedChannel

record pool =
  pl_config :: PoolConfig
  pl_protocol :: protocol
  pl_heap :: "string \<rightharpoonup> process"
  pl_processes :: "string list"
  pl_idle :: "string list"
  pl_stats :: PoolStats
  pl_shutdown :: bool

text \<open>One attempt to start a child: what \<open>NewPythonProcess\<close> and \<open>Start\<close> observe.\<close>

record spawn =
  sw_os :: os_env
  sw_start :: start_outcome

definition upd_stats :: "(PoolStats \<Rightarrow> PoolStats) \<Rightarrow> pool \<Rightarrow> pool" where
  [pool_defs]: "upd_stats f p = p\<lparr>pl_stats := f (pl_stats p)\<rparr>"

definition upd_process :: "string \<Rightarrow> process \<Rightarrow> pool \<Rightarrow> pool" where
  [pool_defs]: "upd_process i q p = p\<lparr>pl_heap := (pl_heap p)(i \<mapsto> q)\<rparr>"

definition default_duration :: "duration \<Rightarrow> duration \<Rightarrow> duration" where
  "default_duration d v = (if v \<le> 0 then d else v)"

definition NewProcessPool :: "PoolConfig \<Rightarrow> protocol \<Rightarrow> pool" where
  "NewProcessPool config pr =
     (let mn = (if pc_MinProcesses config \<le> 0 then 1 else pc_MinProcesses config);
          mx = (if pc_MaxProcesses config \<le> 0 then 10 else pc_MaxProcesses config);
          mx = (if mx < mn then mn else mx);
          mt = (if pc_MaxTasksPerProcess config \<le> 0 then 100 else pc_MaxTasksPerProcess config)
      in \<lparr>pl_config = config
            \<lparr>pc_MinProcesses := mn, pc_MaxProcesses := mx, pc_MaxTasksPerProcess := mt,
             pc_MaxIdleTime := default_duration (5 * minute) (pc_MaxIdleTime config),
             pc_MaxProcessAge := default_duration (1 * hour) (pc_MaxProcessAge config),
             pc_ProcessStartupTimeout :=
               default_duration (30 * second) (pc_ProcessStartupTimeout config),
             pc_ProcessShutdownTimeout :=
               default_duration (30 * second) (pc_ProcessShutdownTimeout config),
             pc_TaskExecutionTimeout :=
               default_duration (5 * minute) (pc_TaskExecutionTimeout config)\<rparr>,
          pl_protocol = pr, pl_heap = Map.empty, pl_processes = [], pl_idle = [],
          pl_stats = \<lparr>po_TotalProcesses = 0, po_IdleProcesses = 0, po_BusyProcesses = 0,
            po_StartingProcesses = 0, po_StoppingProcesses = 0, po_TotalTasksProcessed = 0,
            po_ProcessStats = Map.empty\<rparr>,
          pl_shutdown = False\<rparr>)"

section \<open>Creating a process\<close>

definition create_allowed :: "pool \<Rightarrow> bool" where
  "create_allowed p \<longleftrightarrow> \<not> (int (length (pl_processes p)) \<ge> pc_MaxProcesses (pl_config p))"

definition create_begin :: "pool \<Rightarrow> pool" where
  "create_begin = upd_stats (\<lambda>s. s\<lparr>po_StartingProcesses := po_StartingProcesses s + 1\<rparr>)"

definition create_abort :: "pool \<Rightarrow> pool" where
  "create_abort = upd_stats (\<lambda>s. s\<lparr>po_StartingProcesses := po_StartingProcesses s - 1\<rparr>)"

definition process_config :: "pool \<Rightarrow> PythonProcessConfig" where
  "process_config p =
     \<lparr>ppc_PythonPath = pc_PythonPath (pl_config p),
      ppc_WorkerScriptPath = pc_WorkerScriptPath (pl_config p),
      ppc_Env = pc_ProcessEnv (pl_config p), ppc_Protocol = pl_protocol p,
      ppc_TaskTimeout = pc_TaskExecutionTimeout (pl_config p)\<rparr>"

text \<open>Making and starting the child, outside every lock.\<close>

definition spawn_process :: "spawn \<Rightarrow> pool \<Rightarrow> pool_error + process" where
  "spawn_process sw p =
     (case NewPythonProcess (sw_os sw) (process_config p) of
        Inl err \<Rightarrow> Inl (CreateProcessFailed err)
      | Inr q \<Rightarrow>
          (case Start (sw_start sw) q of
             (Some err, _) \<Rightarrow> Inl (StartProcessFailed err)
           | (None, q) \<Rightarrow> Inr q))"

definition create_register :: "process \<Rightarrow> pool \<Rightarrow> pool" where
  "create_register q p = (upd_process (ID q) q p)
     \<lparr>pl_processes := List.insert (ID q) (pl_processes p)\<rparr>"

definition create_count :: "process \<Rightarrow> pool \<Rightarrow> pool" where
  "create_count q = upd_stats (\<lambda>s. s
     \<lparr>po_TotalProcesses := po_TotalProcesses s + 1, po_IdleProcesses := po_IdleProcesses s + 1,
      po_StartingProcesses := po_StartingProcesses s - 1,
      po_ProcessStats := (po_ProcessStats s)(ID q \<mapsto> Stats q)\<rparr>)"

definition idle_append :: "string \<Rightarrow> pool \<Rightarrow> pool" where
  "idle_append i p = p\<lparr>pl_idle := pl_idle p @ [i]\<rparr>"

definition createProcess :: "spawn \<Rightarrow> pool \<Rightarrow> pool_error option \<times> pool" where
  "createProcess sw p =
     (if \<not> create_allowed p then (Some (MaxProcessesReached (pc_MaxProcesses (pl_config p))), p)
      else
        let p = create_begin p in
        case spawn_process sw p of
          Inl err \<Rightarrow> (Some err, create_abort p)
        | Inr q \<Rightarrow> (None, idle_append (ID q) (create_count q (create_register q p))))"

section \<open>Taking and returning an idle process\<close>

definition claim_stats :: "pool \<Rightarrow> pool" where
  "claim_stats = upd_stats (\<lambda>s. s\<lparr>po_IdleProcesses := po_IdleProcesses s - 1,
                                  po_BusyProcesses := po_BusyProcesses s + 1\<rparr>)"

definition return_stats :: "pool \<Rightarrow> pool" where
  "return_stats = upd_stats (\<lambda>s. s\<lparr>po_IdleProcesses := po_IdleProcesses s + 1,
                                   po_BusyProcesses := po_BusyProcesses s - 1\<rparr>)"

text \<open>
  \<open>getIdleProcess\<close> calls itself after it drops an id that is no longer in the map, and after it
  created a process; whether it returns is proved below. \<open>sp\<close> supplies the starts: each
  creation takes the next one. This is the call with no other goroutine in between; \<open>PoolThreads\<close>
  splits it at its critical sections, where another worker may take the created process before the retry.
\<close>

partial_function (option) getIdleProcess ::
    "(nat \<Rightarrow> spawn) \<Rightarrow> pool \<Rightarrow> ((pool_error + string) \<times> pool) option" where
  "getIdleProcess sp p =
     (case pl_idle p of
        processID # rest \<Rightarrow>
          (let p = p\<lparr>pl_idle := rest\<rparr>
           in if processID \<in> set (pl_processes p) then Some (Inr processID, claim_stats p)
              else getIdleProcess sp p)
      | [] \<Rightarrow>
          (case createProcess (sp 0) p of
             (Some err, p) \<Rightarrow> Some (Inl (CreateNewFailed err), p)
           | (None, p) \<Rightarrow> getIdleProcess (\<lambda>n. sp (Suc n)) p))"

definition returnProcessToIdlePool :: "string \<Rightarrow> pool \<Rightarrow> pool" where
  "returnProcessToIdlePool i p = return_stats (idle_append i p)"

section \<open>Recycling\<close>

definition shouldRecycleProcess :: "time \<Rightarrow> string \<Rightarrow> pool \<Rightarrow> bool" where
  "shouldRecycleProcess now i p =
     (let c = pl_config p in
      case po_ProcessStats (pl_stats p) i of
        None \<Rightarrow> False
      | Some s \<Rightarrow>
          if pc_MaxTasksPerProcess c > 0 \<and> ps_TasksProcessed s \<ge> pc_MaxTasksPerProcess c then True
          else if pc_MaxIdleTime c > 0 \<and> ps_State s = ProcessStateIdle \<and>
                  ps_LastTaskTime s + pc_MaxIdleTime c < now then True
          else if pc_MaxProcessAge c > 0 \<and> ps_StartTime s + pc_MaxProcessAge c < now then True
          else ps_State s = ProcessStateError)"

text \<open>\<open>updateProcessStats\<close> looks the process up, and in a second critical section stores its statistics.\<close>

definition store_stats :: "string \<Rightarrow> pool \<Rightarrow> pool" where
  "store_stats i p =
     (case pl_heap p i of
        None \<Rightarrow> p
      | Some q \<Rightarrow> upd_stats (\<lambda>s. s\<lparr>po_ProcessStats := (po_ProcessStats s)(i \<mapsto> Stats q)\<rparr>) p)"

definition updateProcessStats :: "string \<Rightarrow> pool \<Rightarrow> pool" where
  "updateProcessStats i p = (if i \<notin> set (pl_processes p) then p else store_stats i p)"

text \<open>The sections of \<open>recycleProcess\<close>: the first occurrence of the id leaves the idle list; the
  counters change by the state of the process object; the process is stopped; the map and the
  statistics forget it. \<open>Stop\<close> reports no error, so the forced stop of the source never runs.\<close>

definition recycle_unidle :: "string \<Rightarrow> pool \<Rightarrow> pool" where
  "recycle_unidle i p = p\<lparr>pl_idle := remove1 i (pl_idle p)\<rparr>"

definition recycle_begin :: "string \<Rightarrow> pool \<Rightarrow> pool" where
  "recycle_begin i p =
     (let st = map_option (\<lambda>q. ps_State (Stats q)) (pl_heap p i) in
      upd_stats (\<lambda>s.
        let s = s\<lparr>po_StoppingProcesses := po_StoppingProcesses s + 1\<rparr> in
        if st = Some ProcessStateIdle then s\<lparr>po_IdleProcesses := po_IdleProcesses s - 1\<rparr>
        else if st = Some ProcessStateBusy then s\<lparr>po_BusyProcesses := po_BusyProcesses s - 1\<rparr>
        else s) p)"

definition recycle_stop :: "stop_env \<Rightarrow> string \<Rightarrow> pool \<Rightarrow> pool" where
  "recycle_stop env i p =
     (case pl_heap p i of
        None \<Rightarrow> p
      | Some q \<Rightarrow> (case Stop env True q of (_, _, q) \<Rightarrow> upd_process i q p))"

definition recycle_forget :: "string \<Rightarrow> pool \<Rightarrow> pool" where
  "recycle_forget i p = p\<lparr>pl_processes := removeAll i (pl_processes p)\<rparr>"

definition recycle_end :: "string \<Rightarrow> pool \<Rightarrow> pool" where
  "recycle_end i = upd_stats (\<lambda>s. s
     \<lparr>po_TotalProcesses := po_TotalProcesses s - 1,
      po_StoppingProcesses := po_StoppingProcesses s - 1,
      po_ProcessStats := (po_ProcessStats s)(i := None)\<rparr>)"

text \<open>\<open>ensureMinProcesses\<close>: the number of rounds is fixed before the loop, and a failed
  creation is only logged.\<close>

fun create_rounds :: "nat \<Rightarrow> (nat \<Rightarrow> spawn) \<Rightarrow> pool \<Rightarrow> pool" where
  "create_rounds 0 sp p = p"
| "create_rounds (Suc n) sp p = create_rounds n (\<lambda>k. sp (Suc k)) (snd (createProcess (sp 0) p))"

definition ensureMinProcesses :: "(nat \<Rightarrow> spawn) \<Rightarrow> pool \<Rightarrow> pool" where
  "ensureMinProcesses sp p =
     create_rounds (nat (pc_MinProcesses (pl_config p) - int (length (pl_processes p)))) sp p"

definition recycleProcess :: "stop_env \<Rightarrow> (nat \<Rightarrow> spawn) \<Rightarrow> string \<Rightarrow> pool \<Rightarrow> pool" where
  "recycleProcess env sp i p =
     (if i \<notin> set (pl_processes p) then p
      else ensureMinProcesses sp
             (recycle_end i (recycle_forget i (recycle_stop env i
               (recycle_begin i (recycle_unidle i p))))))"

text \<open>What one tick of the monitor does: \<open>order\<close> is the iteration order of the map, and each
  process comes with the environment of its recycling.\<close>

fun recycle_each ::
    "time \<Rightarrow> (string \<times> stop_env \<times> (nat \<Rightarrow> spawn)) list \<Rightarrow> pool \<Rightarrow> pool" where
  "recycle_each now [] p = p"
| "recycle_each now ((i, env, sp) # is) p =
     recycle_each now is (if shouldRecycleProcess now i p then recycleProcess env sp i p else p)"

definition checkAndRecycleProcesses ::
    "time \<Rightarrow> (string \<times> stop_env \<times> (nat \<Rightarrow> spawn)) list \<Rightarrow> (nat \<Rightarrow> spawn) \<Rightarrow> pool \<Rightarrow> pool" where
  "checkAndRecycleProcesses now order sp p = ensureMinProcesses sp (recycle_each now order p)"

section \<open>The worker goroutine, the client call, starting and stopping\<close>

record worker_env =
  we_spawns :: "nat \<Rightarrow> spawn"
  we_exec :: exec_env
  we_now :: time
  we_stop :: stop_env
  we_respawns :: "nat \<Rightarrow> spawn"

text \<open>After a task: refresh the statistics, then recycle the process or return it.\<close>

definition after_task :: "worker_env \<Rightarrow> string \<Rightarrow> pool \<Rightarrow> pool" where
  "after_task we i p =
     (let p = updateProcessStats i p in
      if shouldRecycleProcess (we_now we) i p
      then recycleProcess (we_stop we) (we_respawns we) i p
      else returnProcessToIdlePool i p)"

text \<open>One iteration of \<open>worker\<close>: the result that is sent on the request's channel, and the pool.\<close>

definition worker_iteration ::
    "worker_env \<Rightarrow> TaskPayload \<Rightarrow> pool \<Rightarrow> ((pool_error + ResultPayload) \<times> pool) option" where
  "worker_iteration we task p =
     (case getIdleProcess (we_spawns we) p of
        None \<Rightarrow> None
      | Some (Inl err, p) \<Rightarrow> Some (Inl (GetIdleFailed err), p)
      | Some (Inr i, p) \<Rightarrow>
          (case pl_heap p i of
             None \<Rightarrow> None
           | Some q \<Rightarrow>
               (case ExecuteTask (we_exec we) task q of
                  (res, q) \<Rightarrow>
                    Some (case res of Inl e \<Rightarrow> Inl (ProcessFailed e) | Inr r \<Rightarrow> Inr r,
                          after_task we i (upd_process i q p)))))"

text \<open>How the two selects of the pool's \<open>ExecuteTask\<close> ended.\<close>

datatype 'r client_wait = CtxDoneSending | CtxDoneWaiting | Received 'r

definition pool_ExecuteTask ::
    "(pool_error + ResultPayload) client_wait \<Rightarrow> pool \<Rightarrow> (pool_error + ResultPayload) \<times> pool" where
  "pool_ExecuteTask w p =
     (case w of
        CtxDoneSending \<Rightarrow> (Inl SendCancelled, p)
      | CtxDoneWaiting \<Rightarrow> (Inl WaitCancelled, p)
      | Received r \<Rightarrow>
          (r, upd_stats (\<lambda>s. s\<lparr>po_TotalTasksProcessed := po_TotalTasksProcessed s + 1\<rparr>) p))"

definition pool_Stats :: "pool \<Rightarrow> PoolStats" where
  "pool_Stats p = pl_stats p"

fun create_initial :: "nat \<Rightarrow> (nat \<Rightarrow> spawn) \<Rightarrow> pool \<Rightarrow> pool_error option \<times> pool" where
  "create_initial 0 sp p = (None, p)"
| "create_initial (Suc n) sp p =
     (case createProcess (sp 0) p of
        (Some err, p) \<Rightarrow> (Some (CreateInitialFailed err), p)
      | (None, p) \<Rightarrow> create_initial n (\<lambda>k. sp (Suc k)) p)"

definition pool_Start :: "(nat \<Rightarrow> spawn) \<Rightarrow> pool \<Rightarrow> pool_error option \<times> pool" where
  "pool_Start sp p = create_initial (nat (pc_MinProcesses (pl_config p))) sp p"

fun stop_each :: "(string \<times> stop_env) list \<Rightarrow> pool \<Rightarrow> pool" where
  "stop_each [] p = p"
| "stop_each ((i, env) # is) p = stop_each is (recycle_stop env i p)"

text \<open>The order in which a range over the map of processes visits it. A list that is not an order of the
  map is replaced by one that is, so that every process is visited.\<close>

definition iteration :: "string list \<Rightarrow> pool \<Rightarrow> string list" where
  "iteration order p =
     (if distinct order \<and> set order = set (pl_processes p) then order else pl_processes p)"

lemma set_iteration [simp]: "set (iteration order p) = set (pl_processes p)"
  by (simp add: iteration_def)

text \<open>The order, and what the stop of each process meets.\<close>

type_synonym stop_plan = "string list \<times> (string \<Rightarrow> stop_env)"

text \<open>\<open>Stop\<close> closes the shutdown channel, which panics when it is closed already.\<close>

definition pool_Stop :: "stop_plan \<Rightarrow> pool \<Rightarrow> pool_error option \<times> pool" where
  "pool_Stop plan p =
     (if pl_shutdown p then (Some PanicClosedChannel, p)
      else (None, stop_each (map (\<lambda>i. (i, snd plan i)) (iteration (fst plan) p)) (p\<lparr>pl_shutdown := True\<rparr>)))"

end
