(* ===== verification/PoolLemmas.thy ===== *)
theory PoolLemmas
  imports ProcessPool
begin

text \<open>
  The process and the pool taken one call at a time: what each method does to the object it
  runs on, the invariant of the pool and its preservation, and the termination of \<open>getIdleProcess\<close>.
\<close>

section \<open>The process object\<close>

lemma process_frame [simp]:
  "p_id (setState s q) = p_id q" "p_id (mark_busy t tk q) = p_id q" "p_id (mark_done t q) = p_id q"
  "p_id (mark_error q) = p_id q" "p_id (write_stdin d q) = p_id q"
  "p_protocol (mark_busy t tk q) = p_protocol q" "p_protocol (write_stdin d q) = p_protocol q"
  "p_stats (write_stdin d q) = p_stats q"
  by (simp_all add: setState_def mark_busy_def mark_done_def mark_error_def write_stdin_def Let_def)

lemma ID_simp [simp]: "ID q = p_id q"
  by (simp add: ID_def)

lemma Stats_simp [simp]: "Stats q = p_stats q"
  by (simp add: Stats_def)

lemma ps_State_marks [simp]:
  "ps_State (p_stats (mark_busy t tk q)) = ProcessStateBusy"
  "ps_State (p_stats (mark_done t q)) = ProcessStateIdle"
  "ps_State (p_stats (mark_error q)) = ProcessStateError"
  "ps_TasksProcessed (p_stats (mark_busy t tk q)) = ps_TasksProcessed (p_stats q)"
  "ps_TasksProcessed (p_stats (mark_done t q)) = ps_TasksProcessed (p_stats q) + 1"
  "ps_TasksProcessed (p_stats (mark_error q)) = ps_TasksProcessed (p_stats q)"
  "ps_StartTime (p_stats (mark_busy t tk q)) = ps_StartTime (p_stats q)"
  "ps_StartTime (p_stats (mark_done t q)) = ps_StartTime (p_stats q)"
  "ps_StartTime (p_stats (mark_error q)) = ps_StartTime (p_stats q)"
  by (simp_all add: setState_def mark_busy_def mark_done_def mark_error_def Let_def)

text \<open>The fields of a process that tell whether it was started.\<close>

definition runnable :: "process \<Rightarrow> bool" where
  "runnable q \<longleftrightarrow> p_has_stdin q \<and> p_has_stdout q \<and> p_has_stderr q \<and> p_started q"

lemma runnable_frame [simp]:
  "runnable (setState s q) = runnable q" "runnable (mark_busy t tk q) = runnable q"
  "runnable (mark_done t q) = runnable q" "runnable (mark_error q) = runnable q"
  "runnable (write_stdin d q) = runnable q"
  by (simp_all add: runnable_def setState_def mark_busy_def mark_done_def mark_error_def
      write_stdin_def Let_def)

lemma scan_result_id: "scan_result pr tid ls = Some r \<Longrightarrow> rp_TaskID r = tid"
  by (induction ls) (auto split: sum.splits if_splits)

lemma scan_result_in:
  "scan_result pr tid ls = Some r \<Longrightarrow> \<exists>line \<in> set ls. pr_DecodeResult pr line = Inr r"
  by (induction ls) (auto split: sum.splits if_splits)

lemma scan_result_None:
  "scan_result pr tid ls = None \<longleftrightarrow>
     (\<forall>line \<in> set ls. \<forall>r. pr_DecodeResult pr line = Inr r \<longrightarrow> rp_TaskID r \<noteq> tid)"
  by (induction ls) (auto split: sum.splits)

lemma ExecuteTask_frame:
  "ExecuteTask ex task q = (res, q') \<Longrightarrow> p_id q' = p_id q \<and> runnable q' = runnable q"
  by (auto simp: execute_defs Let_def
      split: sum.splits if_splits wait.splits option.splits scan_end.splits)

lemma ExecuteTask_cases:
  assumes "ExecuteTask ex task q = (res, q')"
  obtains (encode) err where "res = Inl (EncodeFailed err)" "q' = mark_busy (ex_start ex) task q"
  | (write_failed) "res = Inl WriteFailed" "q' = mark_busy (ex_start ex) task q"
  | (result) r d where "res = Inr r" "rp_TaskID r = tp_TaskID task"
      "q' = mark_done (ex_end ex) (write_stdin d (mark_busy (ex_start ex) task q))"
  | (failed) d where "res \<in> {Inl ReadFailed, Inl TimedOut}"
      "q' = mark_error (write_stdin d (mark_busy (ex_start ex) task q))"
  using assms
  by (auto simp: execute_defs Let_def
      split: sum.splits if_splits wait.splits option.splits scan_end.splits dest: scan_result_id)

text \<open>
  What a client of a task executor relies on: a result that it gets is the result of the task
  it asked for.
\<close>

locale task_executor =
  fixes exec :: "'env \<Rightarrow> TaskPayload \<Rightarrow> 's \<Rightarrow> ('err + ResultPayload) \<times> 's"
  assumes exec_id: "exec e t s = (Inr r, s') \<Longrightarrow> rp_TaskID r = tp_TaskID t"
begin

text \<open>A sequence of tasks through one executor, and the results that were obtained.\<close>

fun exec_all :: "('env \<times> TaskPayload) list \<Rightarrow> 's \<Rightarrow> ('err + ResultPayload) list" where
  "exec_all [] s = []"
| "exec_all ((e, t) # ts) s = (let (r, s') = exec e t s in r # exec_all ts s')"

lemma exec_all_ids:
  "list_all2 (\<lambda>(e, t) res. \<forall>r. res = Inr r \<longrightarrow> rp_TaskID r = tp_TaskID t) ets (exec_all ets s)"
  by (induction ets s rule: exec_all.induct) (auto split: prod.splits dest: exec_id)

end

interpretation py: task_executor ExecuteTask
proof unfold_locales
  fix e t s r s'
  assume "ExecuteTask e t s = (Inr r, s')"
  then show "rp_TaskID r = tp_TaskID t" by (cases rule: ExecuteTask_cases) auto
qed

section \<open>Frames of the pool's sections\<close>

lemma upd_stats_frame [simp]:
  "pl_config (upd_stats f p) = pl_config p" "pl_heap (upd_stats f p) = pl_heap p"
  "pl_processes (upd_stats f p) = pl_processes p" "pl_idle (upd_stats f p) = pl_idle p"
  "pl_shutdown (upd_stats f p) = pl_shutdown p" "pl_protocol (upd_stats f p) = pl_protocol p"
  "pl_stats (upd_stats f p) = f (pl_stats p)"
  by (simp_all add: upd_stats_def)

lemma upd_process_frame [simp]:
  "pl_config (upd_process i q p) = pl_config p" "pl_stats (upd_process i q p) = pl_stats p"
  "pl_processes (upd_process i q p) = pl_processes p" "pl_idle (upd_process i q p) = pl_idle p"
  "pl_shutdown (upd_process i q p) = pl_shutdown p" "pl_protocol (upd_process i q p) = pl_protocol p"
  "pl_heap (upd_process i q p) = (pl_heap p)(i \<mapsto> q)"
  by (simp_all add: upd_process_def)

lemmas pool_sections =
  create_begin_def create_abort_def create_register_def create_count_def idle_append_def
  claim_stats_def return_stats_def recycle_unidle_def recycle_begin_def recycle_forget_def
  recycle_end_def

lemma NewPythonProcess_ok:
  "NewPythonProcess os c = Inr q \<Longrightarrow>
     p_id q = os_uuid os \<and> ps_TasksProcessed (p_stats q) = 0 \<and>
     ps_LastTaskTime (p_stats q) = zero_time \<and> ps_StartTime (p_stats q) = os_now os"
  by (cases "os_Executable os") (auto simp: NewPythonProcess_def Let_def)

lemma Start_ok:
  "Start out q = (None, q') \<Longrightarrow>
     p_id q' = p_id q \<and> runnable q' \<and> ps_State (p_stats q') = ProcessStateIdle \<and>
     ps_TasksProcessed (p_stats q') = ps_TasksProcessed (p_stats q) \<and>
     ps_LastTaskTime (p_stats q') = ps_LastTaskTime (p_stats q) \<and>
     ps_StartTime (p_stats q') = ps_StartTime (p_stats q)"
  by (cases out) (auto simp: Start_def Let_def setState_def runnable_def)

lemma spawn_process_ok:
  assumes "spawn_process sw p = Inr q"
  shows "p_id q = os_uuid (sw_os sw)" "runnable q" "ps_State (p_stats q) = ProcessStateIdle"
    "ps_TasksProcessed (p_stats q) = 0" "ps_LastTaskTime (p_stats q) = zero_time"
    "ps_StartTime (p_stats q) = os_now (sw_os sw)"
proof -
  from assms obtain q0 where "NewPythonProcess (sw_os sw) (process_config p) = Inr q0"
    "Start (sw_start sw) q0 = (None, q)"
    by (auto simp: spawn_process_def split: sum.splits prod.splits option.splits)
  from NewPythonProcess_ok [OF this(1)] Start_ok [OF this(2)]
  show "p_id q = os_uuid (sw_os sw)" "runnable q" "ps_State (p_stats q) = ProcessStateIdle"
    "ps_TasksProcessed (p_stats q) = 0" "ps_LastTaskTime (p_stats q) = zero_time"
    "ps_StartTime (p_stats q) = os_now (sw_os sw)" by simp_all
qed

lemma createProcess_cases:
  assumes "createProcess sw p = (res, p')"
  obtains (full) "\<not> create_allowed p" "res = Some (MaxProcessesReached (pc_MaxProcesses (pl_config p)))" "p' = p"
  | (failed) err where "create_allowed p" "res = Some err" "p' = create_abort (create_begin p)"
  | (created) q where "create_allowed p" "res = None" "spawn_process sw (create_begin p) = Inr q"
      "p' = idle_append (p_id q) (create_count q (create_register q (create_begin p)))"
proof (cases "create_allowed p")
  case False
  with assms have "(res, p') = (Some (MaxProcessesReached (pc_MaxProcesses (pl_config p))), p)"
    by (auto simp: createProcess_def)
  with False full show ?thesis by blast
next
  case True
  show ?thesis
  proof (cases "spawn_process sw (create_begin p)")
    case (Inl err)
    with True assms have "(res, p') = (Some err, create_abort (create_begin p))"
      by (auto simp: createProcess_def)
    with True failed show ?thesis by blast
  next
    case (Inr q)
    with True assms have
      "(res, p') = (None, idle_append (p_id q) (create_count q (create_register q (create_begin p))))"
      by (auto simp: createProcess_def)
    with True Inr created show ?thesis by blast
  qed
qed

section \<open>\<open>getIdleProcess\<close> returns\<close>

lemma pl_idle_upd_same [simp]: "pl_idle p = xs \<Longrightarrow> p\<lparr>pl_idle := xs\<rparr> = p"
  by (cases p) simp

text \<open>Its first part drops the ids that are no longer in the map.\<close>

lemma getIdleProcess_drop:
  "getIdleProcess sp p =
    (case dropWhile (\<lambda>i. i \<notin> set (pl_processes p)) (pl_idle p) of
       i # rest \<Rightarrow> Some (Inr i, claim_stats (p\<lparr>pl_idle := rest\<rparr>))
     | [] \<Rightarrow> getIdleProcess sp (p\<lparr>pl_idle := []\<rparr>))"
proof (induction "pl_idle p" arbitrary: p)
  case Nil
  then show ?case using pl_idle_upd_same [of p "[]"] by simp
next
  case (Cons i js)
  have *: "getIdleProcess sp p = (if i \<in> set (pl_processes p) then Some (Inr i, claim_stats (p\<lparr>pl_idle := js\<rparr>))
      else getIdleProcess sp (p\<lparr>pl_idle := js\<rparr>))"
    by (subst getIdleProcess.simps) (simp flip: Cons.hyps(2) add: Let_def)
  show ?case
  proof (cases "i \<in> set (pl_processes p)")
    case True
    then show ?thesis by (simp add: * flip: Cons.hyps(2))
  next
    case False
    have "getIdleProcess sp p = getIdleProcess sp (p\<lparr>pl_idle := js\<rparr>)"
      using False by (simp add: *)
    also have "\<dots> = (case dropWhile (\<lambda>i. i \<notin> set (pl_processes p)) js of
       i # rest \<Rightarrow> Some (Inr i, claim_stats (p\<lparr>pl_idle := rest\<rparr>))
     | [] \<Rightarrow> getIdleProcess sp (p\<lparr>pl_idle := []\<rparr>))"
      using Cons.hyps(1) [of "p\<lparr>pl_idle := js\<rparr>"] by (simp cong: list.case_cong)
    also have "js = tl (pl_idle p)" by (simp flip: Cons.hyps(2))
    finally show ?thesis using False by (simp flip: Cons.hyps(2))
  qed
qed

lemma getIdleProcess_Nil:
  "pl_idle p = [] \<Longrightarrow> getIdleProcess sp p =
    (case createProcess (sp 0) p of
       (Some err, p') \<Rightarrow> Some (Inl (CreateNewFailed err), p')
     | (None, p') \<Rightarrow> getIdleProcess (\<lambda>n. sp (Suc n)) p')"
  by (subst getIdleProcess.simps) simp

lemma getIdleProcess_created:
  assumes "pl_idle p = []" "createProcess sw p = (None, p')"
  shows "\<exists>q. spawn_process sw (create_begin p) = Inr q \<and> pl_idle p' = [p_id q] \<and>
    p_id q \<in> set (pl_processes p') \<and>
    getIdleProcess sp p' = Some (Inr (p_id q), claim_stats (p'\<lparr>pl_idle := []\<rparr>))"
  using assms(2)
proof (cases rule: createProcess_cases)
  case (created q)
  then have "pl_idle p' = [p_id q]" "p_id q \<in> set (pl_processes p')"
    using assms(1) by (simp_all add: pool_sections)
  moreover from this have "getIdleProcess sp p' = Some (Inr (p_id q), claim_stats (p'\<lparr>pl_idle := []\<rparr>))"
    by (subst getIdleProcess_drop) simp
  ultimately show ?thesis using created by blast
qed auto

text \<open>The recursion-free form: drop stale ids; take the first good one, or create one.\<close>

lemma getIdleProcess_eq:
  "getIdleProcess sp p =
    Some (case dropWhile (\<lambda>i. i \<notin> set (pl_processes p)) (pl_idle p) of
       i # rest \<Rightarrow> (Inr i, claim_stats (p\<lparr>pl_idle := rest\<rparr>))
     | [] \<Rightarrow>
         (case createProcess (sp 0) (p\<lparr>pl_idle := []\<rparr>) of
            (Some err, p') \<Rightarrow> (Inl (CreateNewFailed err), p')
          | (None, p') \<Rightarrow> (Inr (last (pl_idle p')), claim_stats (p'\<lparr>pl_idle := []\<rparr>))))"
proof (cases "dropWhile (\<lambda>i. i \<notin> set (pl_processes p)) (pl_idle p)")
  case Nil
  let ?p = "p\<lparr>pl_idle := []\<rparr>"
  have eq: "getIdleProcess sp p = getIdleProcess sp ?p"
    by (subst getIdleProcess_drop) (simp only: Nil list.case)
  obtain res p' where c: "createProcess (sp 0) ?p = (res, p')" by fastforce
  show ?thesis
  proof (cases res)
    case None
    with getIdleProcess_created [of ?p "sp 0" p' "\<lambda>n. sp (Suc n)"] c
    have "getIdleProcess sp ?p = Some (Inr (last (pl_idle p')), claim_stats (p'\<lparr>pl_idle := []\<rparr>))"
      by (auto simp: getIdleProcess_Nil)
    with None c show ?thesis by (simp only: eq Nil list.case prod.case option.case)
  next
    case (Some err)
    with c have "getIdleProcess sp ?p = Some (Inl (CreateNewFailed err), p')"
      by (simp add: getIdleProcess_Nil)
    with Some c show ?thesis by (simp only: eq Nil list.case prod.case option.case)
  qed
qed (subst getIdleProcess_drop, simp)

end
