(* ===== verification/PoolInv.thy ===== *)
theory PoolInv
  imports PoolLemmas
begin

text \<open>
  The invariant of the pool between two calls, when one goroutine runs at a time, and its
  preservation by every operation. The process ids are UUIDs: an operation that may start
  children is given spawns whose ids are new and different (\<open>fresh_spawns\<close>).
\<close>

section \<open>The invariant\<close>

definition spawn_id :: "spawn \<Rightarrow> string" where
  "spawn_id sw = os_uuid (sw_os sw)"

definition fresh_spawns :: "(nat \<Rightarrow> spawn) \<Rightarrow> pool \<Rightarrow> bool" where
  "fresh_spawns sp p \<longleftrightarrow> inj (\<lambda>n. spawn_id (sp n)) \<and> (\<forall>n. pl_heap p (spawn_id (sp n)) = None)"

definition config_ok :: "PoolConfig \<Rightarrow> bool" where
  "config_ok c \<longleftrightarrow> 1 \<le> pc_MinProcesses c \<and> pc_MinProcesses c \<le> pc_MaxProcesses c"

text \<open>The ids of the map are at most \<open>MaxProcesses\<close> different ones, each of a started process;
  \<open>free\<close> says which of them are not in the idle list (none between two calls).\<close>

definition procs_ok :: "pool \<Rightarrow> bool" where
  "procs_ok p \<longleftrightarrow> config_ok (pl_config p) \<and> distinct (pl_processes p) \<and>
     int (length (pl_processes p)) \<le> pc_MaxProcesses (pl_config p) \<and>
     (\<forall>i \<in> set (pl_processes p). \<exists>q. pl_heap p i = Some q \<and> p_id q = i \<and> runnable q)"

definition counts_ok :: "pool \<Rightarrow> bool" where
  "counts_ok p \<longleftrightarrow> po_TotalProcesses (pl_stats p) = int (length (pl_processes p)) \<and>
     po_StartingProcesses (pl_stats p) = 0 \<and> po_StoppingProcesses (pl_stats p) = 0 \<and>
     dom (po_ProcessStats (pl_stats p)) = set (pl_processes p)"

definition idle_ok :: "string set \<Rightarrow> pool \<Rightarrow> bool" where
  "idle_ok busy p \<longleftrightarrow> distinct (pl_idle p) \<and> set (pl_idle p) \<inter> busy = {} \<and>
     set (pl_idle p) \<union> busy = set (pl_processes p)"

definition pool_inv :: "string set \<Rightarrow> pool \<Rightarrow> bool" where
  "pool_inv busy p \<longleftrightarrow> procs_ok p \<and> counts_ok p \<and> idle_ok busy p"

lemmas inv_defs = pool_inv_def procs_ok_def counts_ok_def idle_ok_def

lemma fresh_spawns_Suc: "fresh_spawns sp p \<Longrightarrow> fresh_spawns (\<lambda>n. sp (Suc n)) p"
  by (auto simp: fresh_spawns_def inj_def)

lemma pool_inv_heap:
  "pool_inv busy p \<Longrightarrow> i \<in> set (pl_processes p) \<Longrightarrow> \<exists>q. pl_heap p i = Some q \<and> p_id q = i \<and> runnable q"
  by (simp add: inv_defs)

lemma pool_inv_not_heap: "pool_inv busy p \<Longrightarrow> pl_heap p i = None \<Longrightarrow> i \<notin> set (pl_processes p)"
  using pool_inv_heap by fastforce

lemma NewProcessPool_inv: "pool_inv {} (NewProcessPool c pr)"
  by (auto simp: inv_defs NewProcessPool_def Let_def config_ok_def)

section \<open>Creating\<close>

lemma create_inv:
  assumes "pool_inv busy p" "create_allowed p" "spawn_process sw (create_begin p) = Inr q"
    "pl_heap p (spawn_id sw) = None"
  shows "pool_inv busy (idle_append (p_id q) (create_count q (create_register q (create_begin p))))"
proof -
  have q: "p_id q = spawn_id sw" "runnable q"
    using spawn_process_ok [OF assms(3)] by (simp_all add: spawn_id_def)
  have n: "spawn_id sw \<notin> set (pl_processes p)" using pool_inv_not_heap assms(1,4) by blast
  then have "spawn_id sw \<notin> set (pl_idle p)" "spawn_id sw \<notin> busy" using assms(1) by (auto simp: inv_defs)
  with q n assms(1,2) show ?thesis
    by (auto simp: inv_defs pool_sections create_allowed_def)
qed

lemma abort_inv: "pool_inv busy p \<Longrightarrow> pool_inv busy (create_abort (create_begin p))"
  by (simp add: inv_defs pool_sections)

lemma createProcess_inv:
  assumes "pool_inv busy p" "pl_heap p (spawn_id sw) = None" "createProcess sw p = (res, p')"
  shows "pool_inv busy p'"
  using assms(3)
proof (cases rule: createProcess_cases)
  case (created q)
  then show ?thesis using create_inv assms by blast
qed (use assms abort_inv in auto)

text \<open>What a creation leaves alone.\<close>

lemma createProcess_heap:
  assumes "createProcess sw p = (res, p')" "i \<noteq> spawn_id sw"
  shows "pl_heap p' i = pl_heap p i"
  using assms(1)
proof (cases rule: createProcess_cases)
  case (created q)
  then show ?thesis
    using spawn_process_ok(1) [OF created(3)] assms(2)
    by (simp add: pool_sections spawn_id_def)
qed (simp_all add: pool_sections)

lemma createProcess_frame:
  assumes "createProcess sw p = (res, p')"
  shows "pl_config p' = pl_config p" "pl_shutdown p' = pl_shutdown p"
    "po_BusyProcesses (pl_stats p') = po_BusyProcesses (pl_stats p)"
    "set (pl_processes p) \<subseteq> set (pl_processes p')"
  using assms
  by (cases rule: createProcess_cases; simp add: pool_sections subset_insertI)+

lemma createProcess_fresh:
  assumes "fresh_spawns sp p" "createProcess (sp 0) p = (res, p')"
  shows "fresh_spawns (\<lambda>n. sp (Suc n)) p'"
proof -
  have "spawn_id (sp (Suc n)) \<noteq> spawn_id (sp 0)" for n
    using assms(1) by (auto simp: fresh_spawns_def inj_def)
  then have "pl_heap p' (spawn_id (sp (Suc n))) = pl_heap p (spawn_id (sp (Suc n)))" for n
    using createProcess_heap [OF assms(2)] by blast
  with fresh_spawns_Suc [OF assms(1)] show ?thesis by (simp add: fresh_spawns_def)
qed

lemma create_rounds_inv:
  "pool_inv busy p \<Longrightarrow> fresh_spawns sp p \<Longrightarrow> pool_inv busy (create_rounds n sp p)"
proof (induction n arbitrary: sp p)
  case (Suc n)
  obtain res p' where c: "createProcess (sp 0) p = (res, p')" by fastforce
  have "pool_inv busy p'"
    using createProcess_inv [OF Suc.prems(1) _ c] Suc.prems(2) by (simp add: fresh_spawns_def)
  with Suc.IH createProcess_fresh [OF Suc.prems(2) c] c show ?case by simp
qed simp

lemma ensureMin_inv:
  "pool_inv busy p \<Longrightarrow> fresh_spawns sp p \<Longrightarrow> pool_inv busy (ensureMinProcesses sp p)"
  by (simp add: ensureMinProcesses_def create_rounds_inv)

lemma create_rounds_frame:
  "pl_config (create_rounds n sp p) = pl_config p \<and>
   pl_shutdown (create_rounds n sp p) = pl_shutdown p \<and>
   po_BusyProcesses (pl_stats (create_rounds n sp p)) = po_BusyProcesses (pl_stats p) \<and>
   set (pl_processes p) \<subseteq> set (pl_processes (create_rounds n sp p))"
proof (induction n arbitrary: sp p)
  case (Suc n)
  obtain res p' where c: "createProcess (sp 0) p = (res, p')" by fastforce
  with Suc.IH [of "\<lambda>n. sp (Suc n)" p'] createProcess_frame [OF c] show ?case by auto
qed simp

lemma create_rounds_heap:
  "\<forall>n. spawn_id (sp n) \<noteq> i \<Longrightarrow> pl_heap (create_rounds n sp p) i = pl_heap p i"
proof (induction n arbitrary: sp p)
  case (Suc n)
  obtain res p' where c: "createProcess (sp 0) p = (res, p')" by fastforce
  with Suc.IH [of "\<lambda>n. sp (Suc n)" p'] Suc.prems createProcess_heap [OF c, of i] show ?case by fastforce
qed simp

section \<open>Taking, running and returning a process\<close>

lemma idle_ok_dropWhile:
  assumes "pool_inv busy p"
  shows "dropWhile (\<lambda>i. i \<notin> set (pl_processes p)) (pl_idle p) = pl_idle p"
proof -
  have "set (pl_idle p) \<subseteq> set (pl_processes p)" using assms by (auto simp: inv_defs)
  then show ?thesis by (cases "pl_idle p") auto
qed

text \<open>Under the invariant no id of the idle list is stale.\<close>

lemma getIdleProcess_inv_eq:
  assumes "pool_inv busy p"
  shows "getIdleProcess sp p =
    Some (case pl_idle p of
       i # rest \<Rightarrow> (Inr i, claim_stats (p\<lparr>pl_idle := rest\<rparr>))
     | [] \<Rightarrow>
         (case createProcess (sp 0) p of
            (Some err, p') \<Rightarrow> (Inl (CreateNewFailed err), p')
          | (None, p') \<Rightarrow> (Inr (last (pl_idle p')), claim_stats (p'\<lparr>pl_idle := []\<rparr>))))"
  unfolding getIdleProcess_eq idle_ok_dropWhile [OF assms]
  by (cases "pl_idle p") simp_all

lemma claim_inv:
  "pool_inv busy p \<Longrightarrow> pl_idle p = i # rest \<Longrightarrow>
     pool_inv (insert i busy) (claim_stats (p\<lparr>pl_idle := rest\<rparr>))"
  by (auto simp: inv_defs pool_sections)

lemma getIdleProcess_cases:
  assumes "pool_inv busy p" "fresh_spawns sp p"
  obtains (taken) i rest where "pl_idle p = i # rest"
      "getIdleProcess sp p = Some (Inr i, claim_stats (p\<lparr>pl_idle := rest\<rparr>))"
  | (refused) err p' where "pl_idle p = []" "createProcess (sp 0) p = (Some err, p')"
      "getIdleProcess sp p = Some (Inl (CreateNewFailed err), p')"
  | (created) i p' where "pl_idle p = []" "createProcess (sp 0) p = (None, p')"
      "pl_idle p' = [i]" "i = spawn_id (sp 0)"
      "getIdleProcess sp p = Some (Inr i, claim_stats (p'\<lparr>pl_idle := []\<rparr>))"
proof (cases "pl_idle p")
  case (Cons i rest)
  with getIdleProcess_inv_eq [OF assms(1), of sp] taken show ?thesis by simp
next
  case Nil
  note eq = getIdleProcess_inv_eq [OF assms(1), of sp]
  obtain res p' where c: "createProcess (sp 0) p = (res, p')" by fastforce
  show ?thesis
  proof (cases res)
    case (Some err)
    with Nil eq c refused show ?thesis by simp
  next
    case None
    with getIdleProcess_created [OF Nil] c obtain q
      where "spawn_process (sp 0) (create_begin p) = Inr q" "pl_idle p' = [p_id q]" by blast
    moreover have "p_id q = spawn_id (sp 0)"
      using calculation(1) spawn_process_ok(1) by (simp add: spawn_id_def)
    ultimately show ?thesis using Nil eq c None created by simp
  qed
qed

lemma getIdleProcess_inv:
  assumes "pool_inv busy p" "fresh_spawns sp p" "getIdleProcess sp p = Some (res, p')"
  shows "case res of Inl _ \<Rightarrow> pool_inv busy p'
    | Inr i \<Rightarrow> i \<notin> busy \<and> i \<in> set (pl_processes p') \<and> pool_inv (insert i busy) p'"
  using assms(1,2)
proof (cases rule: getIdleProcess_cases)
  case (taken i rest)
  with claim_inv [OF assms(1) taken(1)] assms(1,3) show ?thesis by (auto simp: inv_defs)
next
  case (refused err q)
  then show ?thesis
    using createProcess_inv [OF assms(1) _ refused(2)] assms(2,3) by (simp add: fresh_spawns_def)
next
  case (created i q)
  then have "pool_inv busy q"
    using createProcess_inv [OF assms(1) _ created(2)] assms(2) by (simp add: fresh_spawns_def)
  with claim_inv [OF this created(3)] created(3,5) assms(3) show ?thesis by (auto simp: inv_defs)
qed

text \<open>What taking a process leaves alone.\<close>

lemma getIdleProcess_frame:
  assumes "pool_inv busy p" "fresh_spawns sp p" "getIdleProcess sp p = Some (res, p')"
  shows "pl_config p' = pl_config p \<and>
    (\<forall>i. i \<noteq> spawn_id (sp 0) \<longrightarrow> pl_heap p' i = pl_heap p i) \<and>
    po_BusyProcesses (pl_stats p') = po_BusyProcesses (pl_stats p) + (if isl res then 0 else 1)"
  using assms(1,2)
proof (cases rule: getIdleProcess_cases)
  case (taken i rest)
  with assms(3) show ?thesis by (auto simp: claim_stats_def)
next
  case (refused err q)
  with assms(3) createProcess_frame [OF refused(2)] createProcess_heap [OF refused(2)]
  show ?thesis by auto
next
  case (created i q)
  with assms(3) createProcess_frame [OF created(2)] createProcess_heap [OF created(2)]
  show ?thesis by (auto simp: claim_stats_def)
qed

lemma upd_process_inv:
  "pool_inv busy p \<Longrightarrow> p_id q = i \<Longrightarrow> runnable q \<Longrightarrow> pool_inv busy (upd_process i q p)"
  by (auto simp: inv_defs)

lemma updateProcessStats_inv: "pool_inv busy p \<Longrightarrow> pool_inv busy (updateProcessStats i p)"
  by (auto simp: updateProcessStats_def store_stats_def inv_defs split: option.split)

lemma return_inv:
  "pool_inv (insert i busy) p \<Longrightarrow> i \<notin> busy \<Longrightarrow> pool_inv busy (returnProcessToIdlePool i p)"
  by (auto simp: returnProcessToIdlePool_def inv_defs pool_sections)

section \<open>Recycling\<close>

definition recycled :: "stop_env \<Rightarrow> string \<Rightarrow> pool \<Rightarrow> pool" where
  "recycled env i p = recycle_end i (recycle_forget i (recycle_stop env i
     (recycle_begin i (recycle_unidle i p))))"

lemma recycleProcess_eq:
  "recycleProcess env sp i p =
     (if i \<in> set (pl_processes p) then ensureMinProcesses sp (recycled env i p) else p)"
  by (simp add: recycleProcess_def recycled_def)

lemma recycle_stop_frame [simp]:
  "pl_config (recycle_stop env i p) = pl_config p" "pl_stats (recycle_stop env i p) = pl_stats p"
  "pl_processes (recycle_stop env i p) = pl_processes p" "pl_idle (recycle_stop env i p) = pl_idle p"
  "pl_shutdown (recycle_stop env i p) = pl_shutdown p"
  by (simp_all add: recycle_stop_def split: option.split prod.split)

lemma recycle_stop_heap: "j \<noteq> i \<Longrightarrow> pl_heap (recycle_stop env i p) j = pl_heap p j"
  by (simp add: recycle_stop_def split: option.split prod.split)

lemma recycle_stop_dom: "(pl_heap (recycle_stop env i p) j = None) = (pl_heap p j = None)"
  by (auto simp: recycle_stop_def split: option.split prod.split)

lemma recycled_frame [simp]:
  "pl_config (recycled env i p) = pl_config p" "pl_shutdown (recycled env i p) = pl_shutdown p"
  "pl_processes (recycled env i p) = removeAll i (pl_processes p)"
  "pl_idle (recycled env i p) = remove1 i (pl_idle p)"
  by (simp_all add: recycled_def pool_sections)

lemma recycled_heap: "j \<noteq> i \<Longrightarrow> pl_heap (recycled env i p) j = pl_heap p j"
  by (simp add: recycled_def pool_sections recycle_stop_heap)

lemma recycled_heap_dom: "(pl_heap (recycled env i p) j = None) = (pl_heap p j = None)"
  by (simp add: recycled_def pool_sections recycle_stop_dom)

lemma recycled_stats:
  "po_TotalProcesses (pl_stats (recycled env i p)) = po_TotalProcesses (pl_stats p) - 1"
  "po_StartingProcesses (pl_stats (recycled env i p)) = po_StartingProcesses (pl_stats p)"
  "po_StoppingProcesses (pl_stats (recycled env i p)) = po_StoppingProcesses (pl_stats p)"
  "po_ProcessStats (pl_stats (recycled env i p)) = (po_ProcessStats (pl_stats p))(i := None)"
  "pl_heap p i = Some q \<Longrightarrow> po_BusyProcesses (pl_stats (recycled env i p)) =
     po_BusyProcesses (pl_stats p) - (if ps_State (p_stats q) = ProcessStateBusy then 1 else 0)"
  "pl_heap p i = Some q \<Longrightarrow> po_IdleProcesses (pl_stats (recycled env i p)) =
     po_IdleProcesses (pl_stats p) - (if ps_State (p_stats q) = ProcessStateIdle then 1 else 0)"
  by (auto simp: recycled_def pool_sections Let_def)

lemma recycled_inv:
  assumes "pool_inv busy p" "i \<in> set (pl_processes p)"
  shows "pool_inv (busy - {i}) (recycled env i p)"
proof -
  have "distinct (pl_processes p)" using assms(1) by (simp add: inv_defs)
  then have len: "length (removeAll i (pl_processes p)) = length (pl_processes p) - 1"
    "length (pl_processes p) \<ge> 1"
    using assms(2) by (simp add: length_remove1 flip: distinct_remove1_removeAll)
      (cases "pl_processes p"; use assms(2) in simp)
  have "procs_ok (recycled env i p)"
    using assms(1) len unfolding inv_defs by (auto simp: recycled_heap distinct_removeAll)
  moreover have "counts_ok (recycled env i p)"
    using assms len unfolding inv_defs by (auto simp: recycled_stats of_nat_diff)
  moreover have "idle_ok (busy - {i}) (recycled env i p)"
    using assms unfolding inv_defs by (auto simp: in_set_remove1)
  ultimately show ?thesis by (simp add: pool_inv_def)
qed

lemma fresh_spawns_recycled: "fresh_spawns sp p \<Longrightarrow> fresh_spawns sp (recycled env i p)"
  by (simp add: fresh_spawns_def recycled_heap_dom)

lemma recycleProcess_inv:
  assumes "pool_inv busy p" "fresh_spawns sp p" "i \<in> set (pl_processes p)"
  shows "pool_inv (busy - {i}) (recycleProcess env sp i p)"
  using assms ensureMin_inv [OF recycled_inv fresh_spawns_recycled] by (simp add: recycleProcess_eq)

lemma after_task_inv:
  assumes "pool_inv (insert i busy) p" "i \<notin> busy" "fresh_spawns (we_respawns we) p"
  shows "pool_inv busy (after_task we i p)"
proof -
  let ?p = "updateProcessStats i p"
  have inv: "pool_inv (insert i busy) ?p" using assms(1) by (rule updateProcessStats_inv)
  then have "i \<in> set (pl_processes ?p)" by (auto simp: inv_defs)
  moreover have "fresh_spawns (we_respawns we) ?p"
    using assms(3) by (simp add: fresh_spawns_def updateProcessStats_def store_stats_def split: option.split)
  ultimately have "pool_inv (insert i busy - {i}) (recycleProcess (we_stop we) (we_respawns we) i ?p)"
    using inv recycleProcess_inv by blast
  then show ?thesis using return_inv [OF inv assms(2)] assms(2) by (simp add: after_task_def Let_def)
qed

end
