(* ===== verification/PoolRuns.thy ===== *)
theory PoolRuns
  imports PoolInv
begin

text \<open>
  Runs of a pool whose operations come one after the other: the reachable pools, and the
  invariant on them. Several children may be started by one operation; their ids are all new
  and different (\<open>fresh_all\<close>).
\<close>

section \<open>Fresh spawns for several creations\<close>

definition apart :: "(nat \<Rightarrow> spawn) \<Rightarrow> (nat \<Rightarrow> spawn) \<Rightarrow> bool" where
  "apart sp sp' \<longleftrightarrow> (\<forall>n m. spawn_id (sp n) \<noteq> spawn_id (sp' m))"

fun fresh_all :: "(nat \<Rightarrow> spawn) list \<Rightarrow> pool \<Rightarrow> bool" where
  "fresh_all [] p = True"
| "fresh_all (sp # sps) p = (fresh_spawns sp p \<and> (\<forall>sp' \<in> set sps. apart sp sp') \<and> fresh_all sps p)"

lemma fresh_all_heap:
  "fresh_all sps p \<Longrightarrow> (\<And>sp n. sp \<in> set sps \<Longrightarrow> (pl_heap p' (spawn_id (sp n)) = None) = (pl_heap p (spawn_id (sp n)) = None))
     \<Longrightarrow> fresh_all sps p'"
  by (induction sps) (auto simp: fresh_spawns_def)

lemma create_rounds_keeps:
  assumes "fresh_all (sp # sps) p"
  shows "fresh_all sps (create_rounds n sp p)"
proof (rule fresh_all_heap)
  show "fresh_all sps p" using assms by simp
  fix sp' m assume "sp' \<in> set sps"
  then have "spawn_id (sp k) \<noteq> spawn_id (sp' m)" for k using assms by (auto simp: apart_def)
  then show "(pl_heap (create_rounds n sp p) (spawn_id (sp' m)) = None) = (pl_heap p (spawn_id (sp' m)) = None)"
    using create_rounds_heap [of sp "spawn_id (sp' m)" n p] by simp
qed

lemma fresh_all_recycled: "fresh_all sps p \<Longrightarrow> fresh_all sps (recycled env i p)"
  by (rule fresh_all_heap) (simp_all add: recycled_heap_dom)

lemma recycleProcess_keeps: "fresh_all (sp # sps) p \<Longrightarrow> fresh_all sps (recycleProcess env sp i p)"
  using create_rounds_keeps [OF fresh_all_recycled] by (simp add: recycleProcess_eq ensureMinProcesses_def)

section \<open>The operations keep the invariant\<close>

lemma recycle_each_inv:
  "pool_inv {} p \<Longrightarrow> fresh_all (map (\<lambda>(i, env, sp). sp) order @ sps) p \<Longrightarrow>
     pool_inv {} (recycle_each now order p) \<and> fresh_all sps (recycle_each now order p)"
proof (induction order arbitrary: p)
  case (Cons x order)
  obtain i env sp where x: "x = (i, env, sp)" by (cases x)
  let ?p = "if shouldRecycleProcess now i p then recycleProcess env sp i p else p"
  have f: "fresh_all (sp # map (\<lambda>(i, env, sp). sp) order @ sps) p" using Cons.prems(2) x by simp
  then have "pool_inv {} ?p"
    using Cons.prems(1) recycleProcess_inv [of "{}" p sp i env] by (auto simp: recycleProcess_eq)
  moreover have "fresh_all (map (\<lambda>(i, env, sp). sp) order @ sps) ?p"
    using recycleProcess_keeps [OF f] f by simp
  ultimately show ?case using Cons.IH [of ?p] x by simp
qed simp

lemma check_inv:
  "pool_inv {} p \<Longrightarrow> fresh_all (map (\<lambda>(i, env, sp). sp) order @ [sp]) p \<Longrightarrow>
     pool_inv {} (checkAndRecycleProcesses now order sp p)"
  using recycle_each_inv [of p order "[sp]" now] ensureMin_inv
  by (simp add: checkAndRecycleProcesses_def)

lemma getIdleProcess_keeps:
  assumes "pool_inv busy p" "fresh_all (sp # sps) p" "getIdleProcess sp p = Some (res, p')"
  shows "fresh_all sps p'"
proof (rule fresh_all_heap)
  show "fresh_all sps p" using assms by simp
  fix sp' m assume "sp' \<in> set sps"
  then have "spawn_id (sp 0) \<noteq> spawn_id (sp' m)" using assms by (auto simp: apart_def)
  then show "(pl_heap p' (spawn_id (sp' m)) = None) = (pl_heap p (spawn_id (sp' m)) = None)"
    using getIdleProcess_frame [OF assms(1) _ assms(3)] assms(2) by simp
qed

text \<open>One iteration of a worker, unfolded along the claim.\<close>

lemma worker_iteration_cases:
  assumes "pool_inv busy p" "fresh_all [we_spawns we, we_respawns we] p"
  obtains (refused) err p' where "getIdleProcess (we_spawns we) p = Some (Inl err, p')"
      "worker_iteration we task p = Some (Inl (GetIdleFailed err), p')" "pool_inv busy p'"
  | (ran) i p1 q res q' where "getIdleProcess (we_spawns we) p = Some (Inr i, p1)"
      "i \<notin> busy" "pool_inv (insert i busy) p1" "pl_heap p1 i = Some q" "p_id q = i" "runnable q"
      "ExecuteTask (we_exec we) task q = (res, q')" "p_id q' = i" "runnable q'"
      "worker_iteration we task p = Some (case res of Inl e \<Rightarrow> Inl (ProcessFailed e) | Inr r \<Rightarrow> Inr r,
         after_task we i (upd_process i q' p1))"
      "pool_inv (insert i busy) (upd_process i q' p1)"
      "fresh_spawns (we_respawns we) (upd_process i q' p1)"
proof -
  have f: "fresh_spawns (we_spawns we) p" using assms(2) by simp
  obtain r p1 where g: "getIdleProcess (we_spawns we) p = Some (r, p1)"
    unfolding getIdleProcess_eq by fastforce
  show ?thesis
  proof (cases r)
    case (Inl err)
    with g refused getIdleProcess_inv [OF assms(1) f g] show ?thesis
      by (simp add: worker_iteration_def)
  next
    case (Inr i)
    with getIdleProcess_inv [OF assms(1) f g] have i: "i \<notin> busy" "i \<in> set (pl_processes p1)"
      "pool_inv (insert i busy) p1" by simp_all
    then obtain q where q: "pl_heap p1 i = Some q" "p_id q = i" "runnable q"
      using pool_inv_heap by blast
    obtain res q' where x: "ExecuteTask (we_exec we) task q = (res, q')" by fastforce
    have q': "p_id q' = i" "runnable q'" using ExecuteTask_frame [OF x] q by simp_all
    have "fresh_spawns (we_respawns we) p1"
      using getIdleProcess_keeps [OF assms(1) assms(2) g] by simp
    then have "fresh_spawns (we_respawns we) (upd_process i q' p1)"
      using q(1) by (auto simp: fresh_spawns_def)
    with ran i q q' x g Inr upd_process_inv [OF i(3) q'] show ?thesis
      by (simp add: worker_iteration_def)
  qed
qed

lemma worker_iteration_inv:
  assumes "pool_inv busy p" "fresh_all [we_spawns we, we_respawns we] p"
    "worker_iteration we task p = Some (res, p')"
  shows "pool_inv busy p'"
  using assms(1,2)
proof (cases rule: worker_iteration_cases [where task = task])
  case (ran i p1 q r q')
  with assms(3) after_task_inv [OF ran(11,2,12)] show ?thesis by simp
qed (use assms(3) in auto)

lemma create_initial_inv:
  "pool_inv busy p \<Longrightarrow> fresh_spawns sp p \<Longrightarrow> pool_inv busy (snd (create_initial n sp p))"
proof (induction n arbitrary: sp p)
  case (Suc n)
  obtain res p' where c: "createProcess (sp 0) p = (res, p')" by fastforce
  have "pool_inv busy p'"
    using createProcess_inv [OF Suc.prems(1) _ c] Suc.prems(2) by (simp add: fresh_spawns_def)
  with Suc.IH createProcess_fresh [OF Suc.prems(2) c] c show ?case by (simp split: option.split)
qed simp

lemma Stop_frame: "Stop env g q = (r, acts, q') \<Longrightarrow> p_id q' = p_id q \<and> runnable q' = runnable q"
  by (auto simp: Stop_def Let_def runnable_def setState_def write_stdin_def split: if_splits sum.splits)

lemma recycle_stop_inv: "pool_inv busy p \<Longrightarrow> pool_inv busy (recycle_stop env i p)"
proof (cases "pl_heap p i")
  case (Some q)
  assume inv: "pool_inv busy p"
  obtain r acts q' where s: "Stop env True q = (r, acts, q')" by (metis prod_cases3)
  show ?thesis
  proof (cases "i \<in> set (pl_processes p)")
    case True
    with pool_inv_heap [OF inv True] Some have "p_id q' = i" "runnable q'" using Stop_frame [OF s] by simp_all
    with upd_process_inv [OF inv, of q' i] Some s show ?thesis by (simp add: recycle_stop_def)
  next
    case False
    with inv Some s show ?thesis by (auto simp: recycle_stop_def inv_defs)
  qed
qed (simp add: recycle_stop_def)

lemma stop_each_inv: "pool_inv busy p \<Longrightarrow> pool_inv busy (stop_each order p)"
  by (induction order p rule: stop_each.induct) (auto intro: recycle_stop_inv)

section \<open>The reachable pools\<close>

inductive pool_run :: "pool \<Rightarrow> bool" where
  run_new: "pool_run (NewProcessPool c pr)"
| run_start: "pool_run p \<Longrightarrow> fresh_spawns sp p \<Longrightarrow> pool_run (snd (pool_Start sp p))"
| run_task: "pool_run p \<Longrightarrow> fresh_all [we_spawns we, we_respawns we] p \<Longrightarrow>
    worker_iteration we task p = Some (res, p') \<Longrightarrow> pool_run p'"
| run_client: "pool_run p \<Longrightarrow> pool_run (snd (pool_ExecuteTask w p))"
| run_tick: "pool_run p \<Longrightarrow> fresh_all (map (\<lambda>(i, env, sp). sp) order @ [sp]) p \<Longrightarrow>
    pool_run (checkAndRecycleProcesses now order sp p)"
| run_stop: "pool_run p \<Longrightarrow> pool_run (snd (pool_Stop order p))"

lemma pool_run_inv: "pool_run p \<Longrightarrow> pool_inv {} p"
proof (induction rule: pool_run.induct)
  case (run_client p w)
  then show ?case by (auto simp: pool_ExecuteTask_def inv_defs split: client_wait.split)
next
  case (run_stop p order)
  have "pool_inv {} (p\<lparr>pl_shutdown := True\<rparr>)" using run_stop.IH by (simp add: inv_defs)
  then show ?case using run_stop.IH stop_each_inv by (simp add: pool_Stop_def)
qed (auto simp: pool_Start_def intro: NewProcessPool_inv create_initial_inv worker_iteration_inv check_inv
    simp del: fresh_all.simps)

end
