(* ===== verification/PoolClaims.thy ===== *)
theory PoolClaims
  imports PoolRuns
begin

text \<open>
  The properties of the Python processes and of their pool, taken one call at a time, with
  their witnesses. The interleaving of the worker goroutines is the subject of \<open>PoolThreads\<close>.
\<close>

section \<open>A concrete pool for the witnesses\<close>

definition demo_protocol :: protocol where
  "demo_protocol = \<lparr>pr_EncodeTask = (\<lambda>_ t. Inr (tp_TaskID t)), pr_DecodeTask = (\<lambda>_. Inl UnmarshalFailed),
     pr_EncodeResult = (\<lambda>_ r. Inr (rp_TaskID r)),
     pr_DecodeResult = (\<lambda>d. Inr (empty_result\<lparr>rp_TaskID := d\<rparr>)),
     pr_EncodePing = (\<lambda>_. Inr ''ping''), pr_DecodePing = (\<lambda>d. if d = ''ping'' then None else Some UnmarshalFailed),
     pr_EncodePong = (\<lambda>_. Inr ''pong''), pr_DecodePong = (\<lambda>d. if d = ''pong'' then None else Some UnmarshalFailed),
     pr_EncodeStop = (\<lambda>_. Inr ''stop''), pr_DecodeStop = (\<lambda>d. if d = ''stop'' then None else Some UnmarshalFailed)\<rparr>"

definition demo_config :: PoolConfig where
  "demo_config = \<lparr>pc_MinProcesses = 1, pc_MaxProcesses = 2, pc_MaxTasksPerProcess = 1, pc_MaxIdleTime = 0,
     pc_MaxProcessAge = 0, pc_ProcessStartupTimeout = 0, pc_ProcessShutdownTimeout = 0,
     pc_TaskExecutionTimeout = 0, pc_ProcessEnv = [], pc_PythonPath = '''', pc_WorkerScriptPath = ''w.py''\<rparr>"

text \<open>Spawns that start, with ids of growing length.\<close>

definition demo_spawns :: "char \<Rightarrow> nat \<Rightarrow> spawn" where
  "demo_spawns c n = \<lparr>sw_os = \<lparr>os_uuid = replicate (Suc n) c, os_now = 9 * max_duration, os_Environ = [],
     os_Executable = Some ''/bin/w'', os_PYTHONPATH = ''''\<rparr>, sw_start = Started 7\<rparr>"

lemma demo_spawn_id [simp]: "spawn_id (demo_spawns c n) = replicate (Suc n) c"
  by (simp add: spawn_id_def demo_spawns_def)

lemma demo_inj [simp]: "inj (\<lambda>n. replicate (Suc n) c)"
  by (rule injI) (metis length_replicate nat.inject)

lemma demo_apart [simp]: "c \<noteq> d \<Longrightarrow> apart (demo_spawns c) (demo_spawns d)"
  by (auto simp: apart_def)

lemma demo_fresh: "\<forall>n. pl_heap p (replicate (Suc n) c) = None \<Longrightarrow> fresh_spawns (demo_spawns c) p"
  unfolding fresh_spawns_def demo_spawn_id by (rule conjI [OF demo_inj])

text \<open>The new pool, its first process, and the pool after its start: one idle process.\<close>

definition demo_new :: pool where
  "demo_new = NewProcessPool demo_config demo_protocol"

lemma demo_new_simps [simp]:
  "pl_processes demo_new = []" "pl_idle demo_new = []" "pl_shutdown demo_new = False"
  "pl_heap demo_new = Map.empty" "pl_protocol demo_new = demo_protocol"
  "pc_MinProcesses (pl_config demo_new) = 1" "pc_MaxProcesses (pl_config demo_new) = 2"
  "pc_MaxTasksPerProcess (pl_config demo_new) = 1"
  "pc_MaxIdleTime (pl_config demo_new) = 5 * minute"
  "pc_MaxProcessAge (pl_config demo_new) = 1 * hour"
  "po_TotalProcesses (pl_stats demo_new) = 0" "po_IdleProcesses (pl_stats demo_new) = 0"
  "po_BusyProcesses (pl_stats demo_new) = 0" "po_ProcessStats (pl_stats demo_new) = Map.empty"
  by (simp_all add: demo_new_def NewProcessPool_def Let_def demo_config_def default_duration_def)

definition demo_process :: process where
  "demo_process = (case spawn_process (demo_spawns CHR ''a'' 0) (create_begin demo_new) of Inr q \<Rightarrow> q)"

lemma demo_spawn [simp]:
  "spawn_process (demo_spawns CHR ''a'' 0) (create_begin demo_new) = Inr demo_process"
  by (simp add: demo_process_def spawn_process_def demo_spawns_def NewPythonProcess_def Let_def
      Start_def setState_def)

lemma demo_process_id [simp]: "p_id demo_process = ''a''"
  using spawn_process_ok(1) [OF demo_spawn] demo_spawn_id [of "CHR ''a''" 0] by (simp add: spawn_id_def)

definition demo_pool :: pool where
  "demo_pool = snd (pool_Start (demo_spawns CHR ''a'') demo_new)"

lemma demo_new_fresh: "fresh_spawns (demo_spawns c) demo_new"
  by (rule demo_fresh) simp

lemma demo_pool_run: "pool_run demo_pool"
  unfolding demo_pool_def demo_new_def
  by (rule run_start [OF run_new demo_new_fresh [unfolded demo_new_def]])

lemma demo_pool_eq:
  "demo_pool = idle_append ''a'' (create_count demo_process (create_register demo_process (create_begin demo_new)))"
  by (simp add: demo_pool_def pool_Start_def createProcess_def create_allowed_def Let_def)

lemma demo_pool_simps [simp]:
  "pl_processes demo_pool = [''a'']" "pl_idle demo_pool = [''a'']" "pl_shutdown demo_pool = False"
  "pl_heap demo_pool = [''a'' \<mapsto> demo_process]" "pl_config demo_pool = pl_config demo_new"
  "po_TotalProcesses (pl_stats demo_pool) = 1" "po_IdleProcesses (pl_stats demo_pool) = 1"
  "po_BusyProcesses (pl_stats demo_pool) = 0"
  "po_ProcessStats (pl_stats demo_pool) = [''a'' \<mapsto> p_stats demo_process]"
  by (simp_all add: demo_pool_eq pool_sections)

section \<open>Taking a process\<close>

text \<open>C33: Called while no other goroutine uses the pool, \<open>getIdleProcess\<close> always returns, although it calls itself: it
  drops the idle ids that are no longer in the map, takes the first good one, and when none is left makes at most
  one attempt to create a process, which it then takes. (Between the creation and the retry another worker
  may take the new process; in the interleaved model of \<open>PoolThreads\<close> the retry then creates again.)\<close>

theorem getIdleProcess_returns:
  "getIdleProcess sp p =
    Some (case dropWhile (\<lambda>i. i \<notin> set (pl_processes p)) (pl_idle p) of
       i # rest \<Rightarrow> (Inr i, claim_stats (p\<lparr>pl_idle := rest\<rparr>))
     | [] \<Rightarrow>
         (case createProcess (sp 0) (p\<lparr>pl_idle := []\<rparr>) of
            (Some err, p') \<Rightarrow> (Inl (CreateNewFailed err), p')
          | (None, p') \<Rightarrow> (Inr (last (pl_idle p')), claim_stats (p'\<lparr>pl_idle := []\<rparr>))))"
  by (rule getIdleProcess_eq)

section \<open>Bounds\<close>

text \<open>C15: In every pool that calls one after the other can reach, the map holds at most
  \<open>MaxProcesses\<close> processes, each of them once, started and under its own id; the idle list holds
  exactly these; the total counter is their number and no process counts as starting or stopping.\<close>

theorem pool_bounded:
  assumes "pool_run p"
  shows "int (length (pl_processes p)) \<le> pc_MaxProcesses (pl_config p) \<and>
    set (pl_idle p) = set (pl_processes p) \<and> distinct (pl_idle p) \<and> distinct (pl_processes p) \<and>
    (\<forall>i \<in> set (pl_processes p). \<exists>q. pl_heap p i = Some q \<and> p_id q = i \<and> runnable q) \<and>
    po_TotalProcesses (pl_stats p) = int (length (pl_processes p)) \<and>
    po_StartingProcesses (pl_stats p) = 0 \<and> po_StoppingProcesses (pl_stats p) = 0"
  using pool_run_inv [OF assms] by (auto simp: inv_defs)

theorem pool_bounded_witness:
  "int (length (pl_processes demo_pool)) \<le> 2 \<and> set (pl_idle demo_pool) = {''a''} \<and>
   po_TotalProcesses (pl_stats demo_pool) = 1"
  using pool_bounded [OF demo_pool_run] by simp

text \<open>The number of tasks a process has done stays below the limit while it is in the map.\<close>

definition reuse_ok :: "pool \<Rightarrow> bool" where
  "reuse_ok p \<longleftrightarrow> 1 \<le> pc_MaxTasksPerProcess (pl_config p) \<and>
     (\<forall>i \<in> set (pl_processes p). \<forall>q. pl_heap p i = Some q \<longrightarrow>
        ps_TasksProcessed (p_stats q) < pc_MaxTasksPerProcess (pl_config p))"

lemma reuse_ok_create: "reuse_ok p \<Longrightarrow> createProcess sw p = (res, p') \<Longrightarrow> reuse_ok p'"
proof -
  assume r: "reuse_ok p" and c: "createProcess sw p = (res, p')"
  from c show "reuse_ok p'"
  proof (cases rule: createProcess_cases)
    case (created q)
    with r spawn_process_ok(4) [OF created(3)] show ?thesis
      by (auto simp: reuse_ok_def pool_sections)
  qed (use r in \<open>auto simp: reuse_ok_def pool_sections\<close>)
qed

lemma reuse_ok_rounds: "reuse_ok p \<Longrightarrow> reuse_ok (create_rounds n sp p)"
proof (induction n arbitrary: sp p)
  case (Suc n)
  then show ?case using reuse_ok_create by (metis create_rounds.simps(2) prod.collapse)
qed simp

lemma reuse_ok_recycle: "reuse_ok p \<Longrightarrow> reuse_ok (recycleProcess env sp i p)"
proof -
  assume "reuse_ok p"
  then have "reuse_ok (recycled env i p)" by (auto simp: reuse_ok_def recycled_heap)
  with \<open>reuse_ok p\<close> show ?thesis
    by (simp add: recycleProcess_eq ensureMinProcesses_def reuse_ok_rounds)
qed

lemma reuse_ok_recycle_each: "reuse_ok p \<Longrightarrow> reuse_ok (recycle_each now order p)"
  by (induction now order p rule: recycle_each.induct) (simp_all add: reuse_ok_recycle)

lemma reuse_ok_initial: "reuse_ok p \<Longrightarrow> reuse_ok (snd (create_initial n sp p))"
proof (induction n arbitrary: sp p)
  case (Suc n)
  obtain res p' where "createProcess (sp 0) p = (res, p')" by fastforce
  with Suc reuse_ok_create show ?case by (auto split: option.split)
qed simp

lemma reuse_ok_claim: "reuse_ok (claim_stats (p\<lparr>pl_idle := xs\<rparr>)) = reuse_ok p"
  by (simp add: reuse_ok_def claim_stats_def)

lemma reuse_ok_getIdle:
  assumes "pool_inv busy p" "fresh_spawns sp p" "getIdleProcess sp p = Some (res, p')" "reuse_ok p"
  shows "reuse_ok p'"
  using assms(1,2)
proof (cases rule: getIdleProcess_cases)
  case (taken i rest)
  with assms(3,4) have "p' = claim_stats (p\<lparr>pl_idle := rest\<rparr>)" by simp
  with assms(4) show ?thesis by (simp only: reuse_ok_claim)
next
  case (refused err q)
  with assms(3) have "p' = q" by simp
  with reuse_ok_create [OF assms(4) refused(2)] show ?thesis by simp
next
  case (created i q)
  with assms(3) have "p' = claim_stats (q\<lparr>pl_idle := []\<rparr>)" by simp
  with reuse_ok_create [OF assms(4) created(2)] show ?thesis by (simp only: reuse_ok_claim)
qed

lemma Stop_tasks: "Stop env g q = (r, a, q') \<Longrightarrow> ps_TasksProcessed (p_stats q') = ps_TasksProcessed (p_stats q)"
  by (auto simp: Stop_def Let_def setState_def write_stdin_def split: if_splits sum.splits)

lemma reuse_ok_stop: "reuse_ok p \<Longrightarrow> reuse_ok (recycle_stop env i p)"
proof (cases "pl_heap p i")
  case (Some q)
  assume r: "reuse_ok p"
  obtain rs a q' where s: "Stop env True q = (rs, a, q')" by (metis prod_cases3)
  with Some have "recycle_stop env i p = upd_process i q' p" by (simp add: recycle_stop_def)
  with r Some Stop_tasks [OF s] show ?thesis by (auto simp: reuse_ok_def)
qed (simp add: recycle_stop_def)

lemma reuse_ok_stop_each: "reuse_ok p \<Longrightarrow> reuse_ok (stop_each order p)"
  by (induction order p rule: stop_each.induct) (simp_all add: reuse_ok_stop)

text \<open>\<open>updateProcessStats\<close> then \<open>shouldRecycleProcess\<close> read the process as it is now.\<close>

lemma should_recycle_now:
  assumes "i \<in> set (pl_processes p)" "pl_heap p i = Some q"
  shows "shouldRecycleProcess now i (updateProcessStats i p) \<longleftrightarrow>
    (let c = pl_config p; s = p_stats q in
       pc_MaxTasksPerProcess c > 0 \<and> ps_TasksProcessed s \<ge> pc_MaxTasksPerProcess c
     \<or> pc_MaxIdleTime c > 0 \<and> ps_State s = ProcessStateIdle \<and> ps_LastTaskTime s + pc_MaxIdleTime c < now
     \<or> pc_MaxProcessAge c > 0 \<and> ps_StartTime s + pc_MaxProcessAge c < now
     \<or> ps_State s = ProcessStateError)"
  using assms by (auto simp: shouldRecycleProcess_def updateProcessStats_def store_stats_def Let_def)

lemma reuse_ok_after:
  assumes "i \<in> set (pl_processes p)" "pl_heap p i = Some q"
    "1 \<le> pc_MaxTasksPerProcess (pl_config p)"
    "\<And>j q. j \<in> set (pl_processes p) \<Longrightarrow> j \<noteq> i \<Longrightarrow> pl_heap p j = Some q \<Longrightarrow>
       ps_TasksProcessed (p_stats q) < pc_MaxTasksPerProcess (pl_config p)"
  shows "reuse_ok (after_task we i p)"
proof -
  let ?u = "updateProcessStats i p"
  have u: "?u = upd_stats (\<lambda>s. s\<lparr>po_ProcessStats := (po_ProcessStats s)(i \<mapsto> p_stats q)\<rparr>) p"
    using assms by (simp add: updateProcessStats_def store_stats_def)
  show ?thesis
  proof (cases "shouldRecycleProcess (we_now we) i ?u")
    case True
    have "reuse_ok (recycled (we_stop we) i ?u)"
      using assms by (auto simp: reuse_ok_def u recycled_heap)
    with True assms(1) show ?thesis
      by (simp add: after_task_def recycleProcess_eq ensureMinProcesses_def reuse_ok_rounds u)
  next
    case False
    with should_recycle_now [OF assms(1,2)] assms(3)
    have "ps_TasksProcessed (p_stats q) < pc_MaxTasksPerProcess (pl_config p)"
      by (auto simp: Let_def not_le)
    with assms have "reuse_ok p" by (auto simp: reuse_ok_def) (metis option.sel)
    with False show ?thesis
      by (simp add: after_task_def reuse_ok_def u returnProcessToIdlePool_def pool_sections)
  qed
qed

text \<open>C16: Between calls that run one after the other, no process in the map has used up its \<open>MaxTasksPerProcess\<close>:
  in every pool that such calls can reach, each process in the map has answered fewer tasks. (Within a
  call the worker that has just counted the last task still has the process in the map until it recycles it.)\<close>

theorem process_reuse_bound:
  assumes "pool_run p" and "i \<in> set (pl_processes p)" and "pl_heap p i = Some q"
  shows "ps_TasksProcessed (p_stats q) < pc_MaxTasksPerProcess (pl_config p)"
proof -
  from assms(1) have "reuse_ok p"
  proof (induction rule: pool_run.induct)
    case (run_new c pr)
    then show ?case by (simp add: reuse_ok_def NewProcessPool_def Let_def)
  next
    case (run_task p we task res p')
    note inv = pool_run_inv [OF run_task(1)]
    from inv run_task(2) show ?case
    proof (cases rule: worker_iteration_cases [where task = task])
      case (refused err r)
      with run_task(3,4) reuse_ok_getIdle [OF inv _ refused(1)] run_task(2) show ?thesis by simp
    next
      case (ran j p1 q res q')
      have "reuse_ok p1" using reuse_ok_getIdle [OF inv _ ran(1) run_task(4)] run_task(2) by simp
      moreover have "j \<in> set (pl_processes p1)" using ran(3) by (auto simp: inv_defs)
      ultimately have "reuse_ok (after_task we j (upd_process j q' p1))"
        by (intro reuse_ok_after [where q = q']) (auto simp: reuse_ok_def)
      with ran(10) run_task(3) show ?thesis by simp
    qed
  next
    case (run_stop p order)
    have "reuse_ok (p\<lparr>pl_shutdown := True\<rparr>)" using run_stop.IH by (simp add: reuse_ok_def)
    with run_stop.IH show ?case by (simp add: pool_Stop_def reuse_ok_stop_each)
  next
    case (run_client p w)
    then show ?case by (simp add: pool_ExecuteTask_def reuse_ok_def split: client_wait.split)
  qed (simp_all add: pool_Start_def reuse_ok_initial checkAndRecycleProcesses_def ensureMinProcesses_def
      reuse_ok_rounds reuse_ok_recycle_each)
  with assms show ?thesis by (simp add: reuse_ok_def)
qed

theorem process_reuse_bound_witness: "ps_TasksProcessed (p_stats demo_process) < 1"
  using process_reuse_bound [OF demo_pool_run, of "''a''" demo_process] by simp

section \<open>Keeping the minimum\<close>

definition spawn_ok :: "spawn \<Rightarrow> bool" where
  "spawn_ok sw \<longleftrightarrow> os_Executable (sw_os sw) \<noteq> None \<and> (case sw_start sw of Started _ \<Rightarrow> True | _ \<Rightarrow> False)"

lemma spawn_ok_process: "spawn_ok sw \<Longrightarrow> \<exists>q. spawn_process sw p = Inr q"
  by (auto simp: spawn_ok_def spawn_process_def NewPythonProcess_def Start_def Let_def
      split: start_outcome.splits)

lemma createProcess_grows:
  assumes "pool_inv busy p" "spawn_ok sw" "pl_heap p (spawn_id sw) = None"
    "int (length (pl_processes p)) < pc_MaxProcesses (pl_config p)" "createProcess sw p = (res, p')"
  shows "res = None \<and> length (pl_processes p') = Suc (length (pl_processes p))"
  using assms(5)
proof (cases rule: createProcess_cases)
  case full
  with assms(4) show ?thesis by (simp add: create_allowed_def)
next
  case (failed err)
  obtain q where "spawn_process sw (create_begin p) = Inr q" using spawn_ok_process [OF assms(2)] by blast
  with failed assms(5) show ?thesis by (simp add: createProcess_def)
next
  case (created q)
  then have "p_id q = spawn_id sw" using spawn_process_ok(1) by (simp add: spawn_id_def)
  with pool_inv_not_heap [OF assms(1,3)] created show ?thesis by (simp add: pool_sections)
qed

lemma create_rounds_grows:
  "pool_inv busy p \<Longrightarrow> fresh_spawns sp p \<Longrightarrow> (\<And>n. spawn_ok (sp n)) \<Longrightarrow>
     int (length (pl_processes p) + n) \<le> pc_MaxProcesses (pl_config p) \<Longrightarrow>
     length (pl_processes (create_rounds n sp p)) = length (pl_processes p) + n"
proof (induction n arbitrary: sp p)
  case (Suc n)
  obtain res p' where c: "createProcess (sp 0) p = (res, p')" by fastforce
  have f: "pl_heap p (spawn_id (sp 0)) = None" using Suc.prems(2) by (simp add: fresh_spawns_def)
  have "length (pl_processes p') = Suc (length (pl_processes p))"
    using createProcess_grows [OF Suc.prems(1,3) f _ c] Suc.prems(4) by simp
  moreover have "pool_inv busy p'" by (rule createProcess_inv [OF Suc.prems(1) f c])
  ultimately show ?case
    using Suc.IH [OF _ createProcess_fresh [OF Suc.prems(2) c] Suc.prems(3)] Suc.prems(4)
      createProcess_frame(1) [OF c] c by simp
qed simp

text \<open>When every child starts, \<open>ensureMinProcesses\<close> brings the pool to exactly the
  configured minimum, or leaves it as large as it was; it never removes a process.\<close>

theorem ensure_min_reaches:
  assumes "pool_run p" and "fresh_spawns sp p" and "\<And>n. spawn_ok (sp n)"
  shows "int (length (pl_processes (ensureMinProcesses sp p))) =
      max (int (length (pl_processes p))) (pc_MinProcesses (pl_config p)) \<and>
    set (pl_processes p) \<subseteq> set (pl_processes (ensureMinProcesses sp p))"
proof -
  let ?n = "nat (pc_MinProcesses (pl_config p) - int (length (pl_processes p)))"
  have inv: "pool_inv {} p" by (rule pool_run_inv [OF assms(1)])
  then have "int (length (pl_processes p) + ?n) \<le> pc_MaxProcesses (pl_config p)"
    by (auto simp: inv_defs config_ok_def)
  from create_rounds_grows [OF inv assms(2,3) this] create_rounds_frame [of ?n sp p]
  show ?thesis by (auto simp: ensureMinProcesses_def)
qed

lemma demo_spawn_ok: "spawn_ok (demo_spawns c n)"
  by (simp add: spawn_ok_def demo_spawns_def)

theorem ensure_min_reaches_witness:
  "length (pl_processes (ensureMinProcesses (demo_spawns CHR ''b'') demo_new)) = 1"
  using ensure_min_reaches [of demo_new "demo_spawns CHR ''b''", OF _ demo_new_fresh demo_spawn_ok]
    run_new [of demo_config demo_protocol] by (simp flip: demo_new_def)

section \<open>One task on one process\<close>

lemma scan_result_first:
  "scan_result pr tid ls = Some r \<Longrightarrow>
     \<exists>ls' line rest. ls = ls' @ line # rest \<and> pr_DecodeResult pr line = Inr r \<and> scan_result pr tid ls' = None"
proof (induction ls)
  case (Cons line ls)
  show ?case
  proof (cases "\<exists>r'. pr_DecodeResult pr line = Inr r' \<and> rp_TaskID r' = tid")
    case True
    with Cons.prems have "line # ls = [] @ line # ls \<and> pr_DecodeResult pr line = Inr r \<and> scan_result pr tid [] = None"
      by auto
    then show ?thesis by blast
  next
    case False
    with Cons.prems have "scan_result pr tid ls = Some r" by (auto split: sum.splits if_splits)
    with Cons.IH obtain ls' l rest where "ls = ls' @ l # rest" "pr_DecodeResult pr l = Inr r"
      "scan_result pr tid ls' = None" by blast
    with False have "line # ls = (line # ls') @ l # rest \<and> pr_DecodeResult pr l = Inr r \<and>
        scan_result pr tid (line # ls') = None"
      by (auto split: sum.split)
    then show ?thesis by blast
  qed
qed simp

text \<open>C25: A result comes back only for the task that was sent: one line, the encoded task, goes
  to the child; the result is the first line of the child that decodes to a result with the
  task's id, every line before it does not; the process is idle again, and one more task counts.\<close>

theorem task_result:
  assumes "ExecuteTask ex task q = (Inr r, q')"
  shows "rp_TaskID r = tp_TaskID task \<and>
    (\<exists>d. pr_EncodeTask (p_protocol q) (ex_stamp ex) task = Inr d \<and> p_stdin q' = p_stdin q @ [d @ [CHR 0x0A]]) \<and>
    (\<exists>ls line rest. so_lines (ex_out ex) = ls @ line # rest \<and>
       pr_DecodeResult (p_protocol q) line = Inr r \<and>
       scan_result (p_protocol q) (tp_TaskID task) ls = None) \<and>
    p_state q' = ProcessStateIdle \<and> ps_State (p_stats q') = ProcessStateIdle \<and>
    ps_TasksProcessed (p_stats q') = ps_TasksProcessed (p_stats q) + 1 \<and> ps_LastTaskTime (p_stats q') = ex_end ex"
proof -
  obtain d where d: "pr_EncodeTask (p_protocol q) (ex_stamp ex) task = Inr d"
    "scan_result (p_protocol q) (tp_TaskID task) (so_lines (ex_out ex)) = Some r"
    "q' = mark_done (ex_end ex) (write_stdin d (mark_busy (ex_start ex) task q))"
    using assms by (auto simp: execute_defs Let_def
        split: sum.splits if_splits wait.splits option.splits scan_end.splits)
  with scan_result_first [OF d(2)] scan_result_id [OF d(2)] show ?thesis
    by (simp add: mark_done_def mark_busy_def write_stdin_def setState_def Let_def)
qed

definition demo_task :: TaskPayload where
  "demo_task = \<lparr>tp_TaskName = ''t'', tp_TaskID = ''1'', tp_Args = None, tp_Kwargs = None,
     tp_Retries = 0, tp_Queue = ''''\<rparr>"

definition demo_exec :: "bool \<Rightarrow> bytes list \<Rightarrow> wait \<Rightarrow> exec_env" where
  "demo_exec ok ls w = \<lparr>ex_stamp = \<lparr>st_uuid = ''u'', st_now = ''now''\<rparr>, ex_start = 9 * max_duration,
     ex_end = 9 * max_duration, ex_write_ok = ok, ex_out = \<lparr>so_lines = ls, so_end = Open\<rparr>, ex_wait = w\<rparr>"

lemma demo_process_protocol [simp]: "p_protocol demo_process = demo_protocol"
  by (simp add: demo_process_def spawn_process_def demo_spawns_def NewPythonProcess_def Let_def
      Start_def setState_def process_config_def create_begin_def)

lemma demo_exec_ok:
  "ExecuteTask (demo_exec True [''0'', ''1''] GotResult) demo_task demo_process =
     (Inr (empty_result\<lparr>rp_TaskID := ''1''\<rparr>),
      mark_done (9 * max_duration) (write_stdin ''1'' (mark_busy (9 * max_duration) demo_task demo_process)))"
  by (simp add: execute_defs Let_def demo_exec_def demo_protocol_def demo_task_def mark_busy_def
      setState_def write_stdin_def)

theorem task_result_witness:
  "case ExecuteTask (demo_exec True [''0'', ''1''] GotResult) demo_task demo_process of
     (Inl _, _) \<Rightarrow> False
   | (Inr r, q') \<Rightarrow> rp_TaskID r = ''1'' \<and> p_stdin q' = p_stdin demo_process @ [''1'' @ [CHR 0x0A]] \<and>
       p_state q' = ProcessStateIdle \<and>
       ps_TasksProcessed (p_stats q') = ps_TasksProcessed (p_stats demo_process) + 1 \<and>
       ps_LastTaskTime (p_stats q') = 9 * max_duration"
proof -
  have "pr_EncodeTask demo_protocol st demo_task = Inr ''1''" for st by (simp add: demo_protocol_def demo_task_def)
  moreover have "tp_TaskID demo_task = ''1''" "ex_end (demo_exec ok ls w) = 9 * max_duration" for ok ls w
    by (simp_all add: demo_task_def demo_exec_def)
  ultimately show ?thesis using task_result [OF demo_exec_ok]
    by (simp only: demo_exec_ok prod.case sum.case demo_process_protocol) auto
qed

section \<open>What becomes of a process after its task\<close>

lemma updateProcessStats_eq:
  "i \<in> set (pl_processes p) \<Longrightarrow> pl_heap p i = Some q \<Longrightarrow>
     updateProcessStats i p = upd_stats (\<lambda>s. s\<lparr>po_ProcessStats := (po_ProcessStats s)(i \<mapsto> p_stats q)\<rparr>) p"
  by (simp add: updateProcessStats_def store_stats_def)

lemma after_task_kept:
  assumes "i \<in> set (pl_processes p)" "pl_heap p i = Some q"
    "\<not> shouldRecycleProcess (we_now we) i (updateProcessStats i p)"
  shows "pl_processes (after_task we i p) = pl_processes p"
    "pl_idle (after_task we i p) = pl_idle p @ [i]" "pl_heap (after_task we i p) = pl_heap p"
    "po_BusyProcesses (pl_stats (after_task we i p)) = po_BusyProcesses (pl_stats p) - 1"
  using assms by (simp_all add: after_task_def updateProcessStats_eq returnProcessToIdlePool_def
      pool_sections Let_def)

lemma after_task_recycled:
  assumes "i \<in> set (pl_processes p)" "pl_heap p i = Some q" "i \<notin> set (pl_idle p)"
    "\<And>n. spawn_id (we_respawns we n) \<noteq> i"
    "shouldRecycleProcess (we_now we) i (updateProcessStats i p)"
  shows "\<exists>r acts. Stop (we_stop we) True q = (r, acts, the (pl_heap (after_task we i p) i))"
    "pl_heap (after_task we i p) i \<noteq> None"
    "po_BusyProcesses (pl_stats (after_task we i p)) = po_BusyProcesses (pl_stats p) -
       (if ps_State (p_stats q) = ProcessStateBusy then 1 else 0)"
proof -
  let ?u = "updateProcessStats i p"
  have eq: "after_task we i p = create_rounds (nat (pc_MinProcesses (pl_config p) -
      int (length (removeAll i (pl_processes p))))) (we_respawns we) (recycled (we_stop we) i ?u)"
    using assms by (simp add: after_task_def recycleProcess_eq ensureMinProcesses_def updateProcessStats_eq)
  have u: "pl_heap ?u i = Some q" using assms by (simp add: updateProcessStats_eq)
  obtain r acts q' where s: "Stop (we_stop we) True q = (r, acts, q')" by (metis prod_cases3)
  then have h: "pl_heap (recycled (we_stop we) i ?u) i = Some q'"
    using u by (simp add: recycled_def pool_sections recycle_stop_def)
  then have "pl_heap (after_task we i p) i = Some q'"
    using create_rounds_heap [of "we_respawns we" i] assms(4) by (simp add: eq)
  with s show "\<exists>r acts. Stop (we_stop we) True q = (r, acts, the (pl_heap (after_task we i p) i))"
    "pl_heap (after_task we i p) i \<noteq> None" by simp_all
  show "po_BusyProcesses (pl_stats (after_task we i p)) = po_BusyProcesses (pl_stats p) -
       (if ps_State (p_stats q) = ProcessStateBusy then 1 else 0)"
    using u assms by (simp add: eq create_rounds_frame recycled_stats updateProcessStats_eq)
qed

text \<open>New children do not get the id of a recycled process, so it does not come back.\<close>

lemma create_rounds_out:
  "i \<notin> set (pl_processes p) \<Longrightarrow> i \<notin> set (pl_idle p) \<Longrightarrow> (\<And>n. spawn_id (sp n) \<noteq> i) \<Longrightarrow>
     i \<notin> set (pl_processes (create_rounds n sp p)) \<and> i \<notin> set (pl_idle (create_rounds n sp p))"
proof (induction n arbitrary: sp p)
  case (Suc n)
  obtain res p' where c: "createProcess (sp 0) p = (res, p')" by fastforce
  have "i \<notin> set (pl_processes p') \<and> i \<notin> set (pl_idle p')"
    using c
  proof (cases rule: createProcess_cases)
    case (created q)
    then have "p_id q \<noteq> i" using spawn_process_ok(1) Suc.prems(3) [of 0] by (auto simp: spawn_id_def)
    with created Suc.prems show ?thesis by (simp add: pool_sections)
  qed (use Suc.prems in \<open>simp_all add: pool_sections\<close>)
  with Suc.IH [of p' "\<lambda>k. sp (Suc k)"] Suc.prems(3) c show ?case by simp
qed simp

lemma after_task_gone:
  assumes "i \<in> set (pl_processes p)" "pl_heap p i = Some q" "i \<notin> set (pl_idle p)"
    "\<And>n. spawn_id (we_respawns we n) \<noteq> i"
    "shouldRecycleProcess (we_now we) i (updateProcessStats i p)"
  shows "i \<notin> set (pl_processes (after_task we i p))" "i \<notin> set (pl_idle (after_task we i p))"
proof -
  let ?r = "recycled (we_stop we) i (updateProcessStats i p)"
  have "i \<notin> set (pl_processes ?r)" "i \<notin> set (pl_idle ?r)"
    using assms by (auto simp: updateProcessStats_eq dest: notin_set_remove1)
  from create_rounds_out [OF this assms(4)] assms(1,5)
  show "i \<notin> set (pl_processes (after_task we i p))" "i \<notin> set (pl_idle (after_task we i p))"
    by (simp_all add: after_task_def recycleProcess_eq ensureMinProcesses_def
        updateProcessStats_eq [OF assms(1,2)])
qed

text \<open>The facts of one iteration that took the process \<open>i\<close>.\<close>

lemma worker_iteration_ran:
  assumes "pool_run p" "fresh_all [we_spawns we, we_respawns we] p"
    "getIdleProcess (we_spawns we) p = Some (Inr i, p1)" "pl_heap p1 i = Some q"
    "ExecuteTask (we_exec we) task q = (res, q')"
  shows "worker_iteration we task p = Some (case res of Inl e \<Rightarrow> Inl (ProcessFailed e) | Inr r \<Rightarrow> Inr r,
      after_task we i (upd_process i q' p1))"
    and "i \<in> set (pl_processes (upd_process i q' p1))" and "i \<notin> set (pl_idle (upd_process i q' p1))"
    and "spawn_id (we_respawns we n) \<noteq> i" and "pl_config p1 = pl_config p"
    and "po_BusyProcesses (pl_stats p1) = po_BusyProcesses (pl_stats p) + 1"
proof -
  have inv: "pool_inv {} p" by (rule pool_run_inv [OF assms(1)])
  have g: "pool_inv {i} p1" "i \<in> set (pl_processes p1)"
    using getIdleProcess_inv [OF inv _ assms(3)] assms(2) by simp_all
  then show "i \<in> set (pl_processes (upd_process i q' p1))" "i \<notin> set (pl_idle (upd_process i q' p1))"
    by (auto simp: inv_defs)
  show "worker_iteration we task p = Some (case res of Inl e \<Rightarrow> Inl (ProcessFailed e) | Inr r \<Rightarrow> Inr r,
      after_task we i (upd_process i q' p1))"
    using assms(3-5) by (simp add: worker_iteration_def)
  have "fresh_all [we_respawns we] p1" by (rule getIdleProcess_keeps [OF inv assms(2,3)])
  then have "pl_heap p1 (spawn_id (we_respawns we n)) = None" by (simp add: fresh_spawns_def)
  with assms(4) show "spawn_id (we_respawns we n) \<noteq> i" by auto
  show "pl_config p1 = pl_config p" "po_BusyProcesses (pl_stats p1) = po_BusyProcesses (pl_stats p) + 1"
    using getIdleProcess_frame [OF inv _ assms(3)] assms(2) by simp_all
qed

text \<open>C32: A process whose stdin cannot be written is not recycled: the task fails, the process
  stays in state busy, and a process that is not over age goes back to the end of the idle list,
  where the next task finds it.\<close>

theorem failed_write_returned:
  assumes "pool_run p" and "fresh_all [we_spawns we, we_respawns we] p"
    and "getIdleProcess (we_spawns we) p = Some (Inr i, p1)" and "pl_heap p1 i = Some q"
    and "\<not> ex_write_ok (we_exec we)"
    and "we_now we \<le> ps_StartTime (p_stats q) + pc_MaxProcessAge (pl_config p)"
    and "ps_TasksProcessed (p_stats q) < pc_MaxTasksPerProcess (pl_config p)"
  shows "\<exists>e p'. worker_iteration we task p = Some (Inl (ProcessFailed e), p') \<and>
    pl_idle p' = pl_idle p1 @ [i] \<and> i \<in> set (pl_processes p') \<and>
    pl_heap p' i = Some (mark_busy (ex_start (we_exec we)) task q)"
proof -
  let ?q = "mark_busy (ex_start (we_exec we)) task q"
  obtain e where x: "ExecuteTask (we_exec we) task q = (Inl e, ?q)"
    using assms(5) by (cases "pr_EncodeTask (p_protocol ?q) (ex_stamp (we_exec we)) task")
      (simp_all add: execute_defs Let_def)
  note ran = worker_iteration_ran [OF assms(1-4) x]
  let ?p = "upd_process i ?q p1"
  have "\<not> shouldRecycleProcess (we_now we) i (updateProcessStats i ?p)"
    using assms(6,7) ran(2,5) by (simp add: should_recycle_now [OF ran(2)])
  from after_task_kept [OF ran(2) _ this] ran(1,2) show ?thesis by simp
qed

definition demo_we :: "bool \<Rightarrow> bytes list \<Rightarrow> wait \<Rightarrow> worker_env" where
  "demo_we ok ls w = \<lparr>we_spawns = demo_spawns CHR ''b'', we_exec = demo_exec ok ls w,
     we_now = 9 * max_duration, we_stop = \<lparr>sp_stamp = \<lparr>st_uuid = ''u'', st_now = ''now''\<rparr>,
     sp_write_ok = True, sp_exits_in_time = True, sp_getpgid_ok = True\<rparr>,
     we_respawns = demo_spawns CHR ''c''\<rparr>"

lemma demo_pool_fresh: "fresh_all [we_spawns (demo_we ok ls w), we_respawns (demo_we ok ls w)] demo_pool"
  by (auto simp: demo_we_def intro!: demo_fresh)

definition demo_claimed :: pool where
  "demo_claimed = claim_stats (demo_pool\<lparr>pl_idle := []\<rparr>)"

lemma demo_claimed_simps [simp]:
  "pl_heap demo_claimed = [''a'' \<mapsto> demo_process]" "pl_idle demo_claimed = []"
  "pl_processes demo_claimed = [''a'']"
  by (simp_all add: demo_claimed_def claim_stats_def)

lemma demo_get: "getIdleProcess (we_spawns (demo_we ok ls w)) demo_pool = Some (Inr ''a'', demo_claimed)"
  by (simp add: getIdleProcess_eq demo_claimed_def)

lemma demo_process_stats [simp]:
  "ps_StartTime (p_stats demo_process) = 9 * max_duration" "ps_TasksProcessed (p_stats demo_process) = 0"
  "ps_LastTaskTime (p_stats demo_process) = zero_time" "ps_State (p_stats demo_process) = ProcessStateIdle"
  using spawn_process_ok [OF demo_spawn] by (simp_all add: demo_spawns_def)

theorem failed_write_returned_witness:
  "\<exists>e p'. worker_iteration (demo_we False [] Deadline) demo_task demo_pool = Some (Inl (ProcessFailed e), p') \<and>
     pl_idle p' = [''a'']"
  using failed_write_returned [OF demo_pool_run demo_pool_fresh demo_get, of demo_process False "[]" Deadline demo_task]
  by (auto simp: demo_we_def demo_exec_def)

text \<open>C26: A process whose task failed on reading or ran into its deadline is recycled: it leaves
  the map and the idle list, and it is stopped.\<close>

theorem failed_task_recycled:
  assumes "pool_run p" and "fresh_all [we_spawns we, we_respawns we] p"
    and "getIdleProcess (we_spawns we) p = Some (Inr i, p1)" and "pl_heap p1 i = Some q"
    and "ExecuteTask (we_exec we) task q = (Inl e, q')" and "e = ReadFailed \<or> e = TimedOut"
  shows "\<exists>p' r. worker_iteration we task p = Some (Inl (ProcessFailed e), p') \<and>
    i \<notin> set (pl_processes p') \<and> i \<notin> set (pl_idle p') \<and> pl_heap p' i = Some r \<and>
    (\<exists>acts. Stop (we_stop we) True q' = (StopOk, acts, r) \<and> WaitedFor \<in> set acts)"
proof -
  note ran = worker_iteration_ran [OF assms(1-5)]
  let ?p = "upd_process i q' p1"
  have state: "ps_State (p_stats q') = ProcessStateError" and run: "runnable q' = runnable q"
    using assms(5,6) by (cases rule: ExecuteTask_cases; simp)+
  have "runnable q"
    using pool_inv_heap [of "{i}" p1 i] getIdleProcess_inv [OF pool_run_inv [OF assms(1)] _ assms(3)]
      assms(2,4) by simp
  then have stdin: "p_has_stdin q'" using run by (simp add: runnable_def)
  have h: "pl_heap ?p i = Some q'" by simp
  have should: "shouldRecycleProcess (we_now we) i (updateProcessStats i ?p)"
    by (simp add: should_recycle_now [OF ran(2) h] state Let_def)
  note gone = after_task_gone [OF ran(2) h ran(3,4) should]
  note stopped = after_task_recycled [OF ran(2) h ran(3,4) should]
  obtain r where r: "pl_heap (after_task we i ?p) i = Some r" using stopped(2) by blast
  then obtain rs acts where s: "Stop (we_stop we) True q' = (rs, acts, r)" using stopped(1) by auto
  then have "rs = StopOk" "WaitedFor \<in> set acts"
    using stdin by (auto simp: Stop_def Let_def setState_def split: prod.splits)
  with s r gone ran(1) show ?thesis by simp
qed

lemma demo_timeout:
  "ExecuteTask (we_exec (demo_we True [] Deadline)) demo_task demo_process =
     (Inl TimedOut, mark_error (write_stdin ''1'' (mark_busy (9 * max_duration) demo_task demo_process)))"
  by (simp add: execute_defs Let_def demo_we_def demo_exec_def demo_protocol_def demo_task_def
      mark_busy_def setState_def write_stdin_def)

theorem failed_task_recycled_witness:
  "\<exists>p'. worker_iteration (demo_we True [] Deadline) demo_task demo_pool = Some (Inl (ProcessFailed TimedOut), p') \<and>
     ''a'' \<notin> set (pl_processes p')"
  using failed_task_recycled [OF demo_pool_run demo_pool_fresh demo_get _ demo_timeout] by auto



section \<open>The monitor\<close>

lemma fresh_all_known: "fresh_all sps p \<Longrightarrow> sp \<in> set sps \<Longrightarrow> pl_heap p i \<noteq> None \<Longrightarrow> spawn_id (sp n) \<noteq> i"
  by (induction sps) (auto simp: fresh_spawns_def)

lemma create_rounds_stats:
  "(\<And>n. spawn_id (sp n) \<noteq> i) \<Longrightarrow>
     po_ProcessStats (pl_stats (create_rounds n sp p)) i = po_ProcessStats (pl_stats p) i"
proof (induction n arbitrary: sp p)
  case (Suc n)
  obtain res p' where c: "createProcess (sp 0) p = (res, p')" by fastforce
  have "po_ProcessStats (pl_stats p') i = po_ProcessStats (pl_stats p) i"
    using c
  proof (cases rule: createProcess_cases)
    case (created q)
    then have "p_id q \<noteq> i" using spawn_process_ok(1) Suc.prems [of 0] by (auto simp: spawn_id_def)
    with created show ?thesis by (simp add: pool_sections)
  qed (simp_all add: pool_sections)
  with Suc.IH [of "\<lambda>k. sp (Suc k)"] Suc.prems c show ?case by simp
qed simp

text \<open>A process that was never used, and one that was recycled.\<close>

definition never_used :: "string \<Rightarrow> pool \<Rightarrow> bool" where
  "never_used i p \<longleftrightarrow> i \<in> set (pl_processes p) \<and>
     (\<exists>s. po_ProcessStats (pl_stats p) i = Some s \<and> ps_State s = ProcessStateIdle \<and> ps_LastTaskTime s = zero_time)"

definition gone :: "string \<Rightarrow> pool \<Rightarrow> bool" where
  "gone i p \<longleftrightarrow> i \<notin> set (pl_processes p) \<and> i \<notin> set (pl_idle p) \<and> pl_heap p i \<noteq> None"

lemma gone_recycle:
  assumes "gone i p" "\<And>n. spawn_id (sp n) \<noteq> i"
  shows "gone i (recycleProcess env sp j p)"
proof -
  have "gone i (recycled env j p)" using assms(1) by (auto simp: gone_def recycled_heap_dom dest: notin_set_remove1)
  with create_rounds_out [of i "recycled env j p" sp] create_rounds_heap [of sp i _ "recycled env j p"] assms
  show ?thesis by (auto simp: recycleProcess_eq ensureMinProcesses_def gone_def)
qed

lemma never_used_recycle:
  assumes "never_used i p" "j \<noteq> i" "\<And>n. spawn_id (sp n) \<noteq> i"
  shows "never_used i (recycleProcess env sp j p)"
proof -
  have "never_used i (recycled env j p)" using assms(1,2) by (auto simp: never_used_def recycled_stats)
  with create_rounds_stats [of sp i _ "recycled env j p"] create_rounds_frame [of _ sp "recycled env j p"] assms
  show ?thesis unfolding never_used_def by (auto simp: recycleProcess_eq ensureMinProcesses_def)
qed

lemma never_used_gone:
  assumes "pool_inv {} p" "i \<in> set (pl_processes p)" "\<And>n. spawn_id (sp n) \<noteq> i"
  shows "gone i (recycleProcess env sp i p)"
proof -
  have "gone i (recycled env i p)"
    using assms(1,2) pool_inv_heap [OF assms(1,2)] by (auto simp: gone_def recycled_heap_dom inv_defs)
  with create_rounds_out [of i "recycled env i p" sp] create_rounds_heap [of sp i _ "recycled env i p"] assms
  show ?thesis by (auto simp: recycleProcess_eq ensureMinProcesses_def gone_def)
qed

lemma recycle_config: "pl_config (recycleProcess env sp i p) = pl_config p"
  by (simp add: recycleProcess_eq ensureMinProcesses_def create_rounds_frame)

lemma recycle_each_gone:
  assumes "pool_inv {} p" "fresh_all (map (\<lambda>(i, env, sp). sp) order @ sps) p"
    "gone i p \<or> never_used i p \<and> i \<in> fst ` set order"
    "0 < pc_MaxIdleTime (pl_config p)" "pc_MaxIdleTime (pl_config p) < now"
  shows "gone i (recycle_each now order p)"
  using assms
proof (induction order arbitrary: p)
  case (Cons x order)
  obtain j env sp where x: "x = (j, env, sp)" by (cases x)
  let ?p = "if shouldRecycleProcess now j p then recycleProcess env sp j p else p"
  have known: "pl_heap p i \<noteq> None"
    using Cons.prems(1,3) pool_inv_heap [OF Cons.prems(1)] by (auto simp: gone_def never_used_def)
  have new: "spawn_id (sp n) \<noteq> i" for n
    using fresh_all_known [OF Cons.prems(2) _ known] x by simp
  have f: "fresh_all (sp # map (\<lambda>(i, env, sp). sp) order @ sps) p" using Cons.prems(2) x by simp
  then have step: "pool_inv {} ?p" "fresh_all (map (\<lambda>(i, env, sp). sp) order @ sps) ?p"
    using Cons.prems(1) recycleProcess_inv [of "{}" p sp j env] recycleProcess_keeps [OF f]
    by (auto simp: recycleProcess_eq)
  have "gone i ?p \<or> never_used i ?p \<and> i \<in> fst ` set order"
  proof (cases "gone i p")
    case True
    then show ?thesis using gone_recycle new by simp
  next
    case False
    then have nu: "never_used i p" "i = j \<or> i \<in> fst ` set order" using Cons.prems(3) x by auto
    show ?thesis
    proof (cases "j = i")
      case True
      have "shouldRecycleProcess now i p"
        using nu(1) Cons.prems(4,5) by (auto simp: never_used_def shouldRecycleProcess_def Let_def)
      with never_used_gone [OF Cons.prems(1) _ new] nu(1) True show ?thesis by (simp add: never_used_def)
    next
      case False
      with nu never_used_recycle [OF nu(1) False new] show ?thesis by auto
    qed
  qed
  with Cons.IH [OF step] Cons.prems(4,5) x show ?case by (simp add: recycle_config)
qed simp

text \<open>C39: A process that has not run a task yet is recycled by the first tick of the monitor,
  however young it is: its last task time is Go's zero time, and every maximal idle time is
  shorter than what has passed since. (Every clock reading of today is beyond
  \<open>max_duration\<close>.)\<close>

theorem unused_process_recycled:
  assumes "pool_run p" and "fresh_all (map (\<lambda>(i, env, sp). sp) order @ [sp]) p"
    and "i \<in> set (pl_processes p)" and "i \<in> fst ` set order"
    and "po_ProcessStats (pl_stats p) i = Some s" and "ps_State s = ProcessStateIdle" and "ps_LastTaskTime s = zero_time"
    and "0 < pc_MaxIdleTime (pl_config p)" and "pc_MaxIdleTime (pl_config p) \<le> max_duration" and "max_duration < now"
  shows "i \<notin> set (pl_processes (checkAndRecycleProcesses now order sp p))"
proof -
  have inv: "pool_inv {} p" by (rule pool_run_inv [OF assms(1)])
  have nu: "never_used i p" using assms by (simp add: never_used_def)
  have g: "gone i (recycle_each now order p)"
    using recycle_each_gone [OF inv assms(2), of i now] nu assms(4,8-10) by simp
  have "pl_heap p i \<noteq> None" using pool_inv_heap [OF inv assms(3)] by auto
  then have "spawn_id (sp n) \<noteq> i" for n using fresh_all_known [OF assms(2)] by auto
  with create_rounds_out [of i "recycle_each now order p" sp] g show ?thesis
    by (simp add: checkAndRecycleProcesses_def ensureMinProcesses_def gone_def)
qed

theorem unused_process_recycled_witness:
  "''a'' \<notin> set (pl_processes (checkAndRecycleProcesses (9 * max_duration)
      [(''a'', we_stop (demo_we True [] Deadline), demo_spawns CHR ''b'')] (demo_spawns CHR ''c'') demo_pool))"
proof (rule unused_process_recycled [OF demo_pool_run, where s = "p_stats demo_process"])
  show "fresh_all (map (\<lambda>(i, env, sp). sp)
      [(''a'', we_stop (demo_we True [] Deadline), demo_spawns CHR ''b'')] @ [demo_spawns CHR ''c'']) demo_pool"
    by (auto intro!: demo_fresh)
qed simp_all

section \<open>Stopping the pool\<close>

lemma Stop_stopped:
  "runnable q \<Longrightarrow> Stop env g q = (r, acts, q') \<Longrightarrow>
     r = StopOk \<and> p_state q' = ProcessStateStopped \<and> ps_State (p_stats q') = ProcessStateStopped"
  by (auto simp: Stop_def Let_def setState_def runnable_def split: prod.splits)

lemma recycle_stop_stopped:
  "pool_inv busy p \<Longrightarrow> i \<in> set (pl_processes p) \<Longrightarrow>
     \<exists>q. pl_heap (recycle_stop env i p) i = Some q \<and> p_state q = ProcessStateStopped"
proof -
  assume inv: "pool_inv busy p" and i: "i \<in> set (pl_processes p)"
  from pool_inv_heap [OF this] obtain q where q: "pl_heap p i = Some q" "runnable q" by blast
  obtain r acts q' where s: "Stop env True q = (r, acts, q')" by (metis prod_cases3)
  with q Stop_stopped [OF q(2) s] show ?thesis by (simp add: recycle_stop_def)
qed

lemma stop_each_stopped:
  assumes "pool_inv busy p" "i \<in> set (pl_processes p)"
    "i \<in> fst ` set order \<or> (\<exists>q. pl_heap p i = Some q \<and> p_state q = ProcessStateStopped)"
  shows "\<exists>q. pl_heap (stop_each order p) i = Some q \<and> p_state q = ProcessStateStopped"
  using assms
proof (induction order p rule: stop_each.induct)
  case (2 j env order p)
  let ?p = "recycle_stop env j p"
  have "i \<in> fst ` set order \<or> (\<exists>q. pl_heap ?p i = Some q \<and> p_state q = ProcessStateStopped)"
    using 2(2-4) recycle_stop_stopped [OF 2(2,3)] recycle_stop_heap [of i j env p] by (cases "j = i") auto
  with 2(1) [OF recycle_stop_inv [OF 2(2)]] 2(3) show ?case by simp
qed simp

lemma stop_each_shutdown: "pl_shutdown (stop_each order p) = pl_shutdown p"
  by (induction order p rule: stop_each.induct) simp_all

text \<open>Stopping a running pool stops every process of the map and reports no error; stopping
  it a second time panics, since the shutdown channel is closed already.\<close>

theorem second_stop_panics:
  assumes "pool_run p" and "\<not> pl_shutdown p" and "pool_Stop plan p = (res, p')"
  shows "res = None \<and> (\<forall>i \<in> set (pl_processes p). \<exists>q. pl_heap p' i = Some q \<and> p_state q = ProcessStateStopped) \<and>
    pool_Stop plan' p' = (Some PanicClosedChannel, p')"
proof -
  let ?p = "p\<lparr>pl_shutdown := True\<rparr>"
  let ?order = "map (\<lambda>i. (i, snd plan i)) (iteration (fst plan) p)"
  have p': "res = None" "p' = stop_each ?order ?p" using assms(2,3) by (auto simp: pool_Stop_def)
  have inv: "pool_inv {} ?p" using pool_run_inv [OF assms(1)] by (simp add: inv_defs)
  have "\<exists>q. pl_heap p' i = Some q \<and> p_state q = ProcessStateStopped" if "i \<in> set (pl_processes p)" for i
    unfolding p'(2) by (rule stop_each_stopped [OF inv]) (use that in \<open>simp_all add: image_image\<close>)
  with p' show ?thesis by (simp add: pool_Stop_def stop_each_shutdown)
qed

theorem second_stop_panics_witness:
  "\<exists>p'. pool_Stop ([''a''], \<lambda>_. we_stop (demo_we True [] Deadline)) demo_pool = (None, p') \<and>
     fst (pool_Stop ([], \<lambda>_. we_stop (demo_we True [] Deadline)) p') = Some PanicClosedChannel"
  using second_stop_panics [OF demo_pool_run, of "([''a''], \<lambda>_. we_stop (demo_we True [] Deadline))" _ _
      "([], \<lambda>_. we_stop (demo_we True [] Deadline))"]
  by (cases "pool_Stop ([''a''], \<lambda>_. we_stop (demo_we True [] Deadline)) demo_pool") simp

section \<open>Configuration\<close>

text \<open>The configuration of a new pool is normalised: at least one process, a maximum that is
  not below the minimum, a positive task limit and positive durations; a field that was
  positive is kept, except that the maximum is raised to the minimum.\<close>

theorem new_pool_normalises:
  "let k = pl_config (NewProcessPool c pr) in
     1 \<le> pc_MinProcesses k \<and> pc_MinProcesses k \<le> pc_MaxProcesses k \<and> 1 \<le> pc_MaxTasksPerProcess k \<and>
     0 < pc_MaxIdleTime k \<and> 0 < pc_MaxProcessAge k \<and> 0 < pc_ProcessStartupTimeout k \<and>
     0 < pc_ProcessShutdownTimeout k \<and> 0 < pc_TaskExecutionTimeout k \<and>
     pc_MinProcesses k = (if pc_MinProcesses c > 0 then pc_MinProcesses c else 1) \<and>
     pc_MaxProcesses k = max (pc_MinProcesses k) (if pc_MaxProcesses c > 0 then pc_MaxProcesses c else 10) \<and>
     pc_MaxIdleTime k = (if pc_MaxIdleTime c > 0 then pc_MaxIdleTime c else 5 * minute) \<and>
     pc_TaskExecutionTimeout k = (if pc_TaskExecutionTimeout c > 0 then pc_TaskExecutionTimeout c else 5 * minute)"
  by (simp add: NewProcessPool_def Let_def default_duration_def)

text \<open>The value of a variable in an environment list: \<open>os/exec\<close> uses the last assignment.\<close>

definition env_name :: "string \<Rightarrow> string" where
  "env_name kv = takeWhile (\<lambda>c. c \<noteq> CHR ''='') kv"

definition env_value :: "string \<Rightarrow> string list \<Rightarrow> string option" where
  "env_value n env = (case filter (\<lambda>kv. env_name kv = n) (rev env) of
     [] \<Rightarrow> None | kv # _ \<Rightarrow> Some (drop (Suc (length n)) kv))"

text \<open>The environment of a child: its process id, and a \<open>PYTHONPATH\<close> made of the worker's
  own directory and the worker's own \<open>PYTHONPATH\<close>; a \<open>PYTHONPATH\<close> configured for the children is
  overridden. Every other variable has the configured value, or else the inherited one.\<close>

theorem child_environment:
  assumes "NewPythonProcess os c = Inr q"
  shows "env_value ''CELERY_GO_PROCESS_ID'' (cmd_Env (p_cmd q)) = Some (p_id q) \<and>
    (\<exists>exe. os_Executable os = Some exe \<and>
       env_value ''PYTHONPATH'' (cmd_Env (p_cmd q)) = Some (filepath_Dir exe @ '':'' @ os_PYTHONPATH os)) \<and>
    (n \<noteq> ''CELERY_GO_PROCESS_ID'' \<and> n \<noteq> ''PYTHONPATH'' \<longrightarrow>
       env_value n (cmd_Env (p_cmd q)) =
         (case env_value n (ppc_Env c) of Some v \<Rightarrow> Some v | None \<Rightarrow> env_value n (os_Environ os)))"
proof -
  obtain exe where exe: "os_Executable os = Some exe"
    using assms by (cases "os_Executable os") (simp_all add: NewPythonProcess_def Let_def)
  let ?pp = "''PYTHONPATH='' @ filepath_Dir exe @ '':'' @ os_PYTHONPATH os"
  let ?id = "''CELERY_GO_PROCESS_ID='' @ os_uuid os"
  have env: "cmd_Env (p_cmd q) = os_Environ os @ ppc_Env c @ [?id, ?pp]" and id: "p_id q = os_uuid os"
    using assms exe by (auto simp: NewPythonProcess_def Let_def split: if_splits)
  have "env_name ?id = ''CELERY_GO_PROCESS_ID''" "env_name ?pp = ''PYTHONPATH''"
    by (simp_all add: env_name_def)
  with exe show ?thesis
    unfolding env id by (auto simp: env_value_def split: list.split)
qed

theorem child_environment_witness:
  "\<exists>q. NewPythonProcess (sw_os (demo_spawns CHR ''a'' 0)) (process_config demo_new) = Inr q \<and>
     env_value ''PYTHONPATH'' (cmd_Env (p_cmd q)) = Some ''/bin:''"
proof -
  obtain q where q: "NewPythonProcess (sw_os (demo_spawns CHR ''a'' 0)) (process_config demo_new) = Inr q"
    by (simp add: demo_spawns_def NewPythonProcess_def Let_def)
  from child_environment [OF q, of "''X''"] q show ?thesis by (auto simp: demo_spawns_def filepath_Dir_def)
qed

end
