(* ===== verification/PoolThreads.thy ===== *)
theory PoolThreads
  imports PoolRuns
begin

text \<open>
  The goroutines of the pool, interleaved. Each goroutine is the instruction it does next and
  the jobs it has after it; one step of a goroutine is one critical section of the source (or
  one action outside the locks) on the shared pool, in the order of the source. Goroutine 0 is
  the caller of \<open>Start\<close>, which then becomes the monitor; the others are the workers, which
  \<open>Start\<close> launches before it creates the first process.

  The stop of the whole pool is not part of this model; \<open>pool_Stop\<close> is treated with the
  single calls.
\<close>

section \<open>Goroutines\<close>

datatype creator = ForTask TaskPayload | ForMin | ForStart

datatype instr =
    Ready
  | Halted
  | GetIdle TaskPayload
  | Lookup TaskPayload string
  | Claim TaskPayload string
  | Begin TaskPayload string
  | Send TaskPayload string
  | Await TaskPayload string
  | Update string
  | StoreStats string
  | Decide string
  | Return string
  | ReturnStats
  | Recycle string
  | Unidle string
  | RecycleBegin string
  | RecycleStop string
  | Forget string
  | RecycleEnd string
  | CreateCheck creator
  | CreateBegin creator
  | Spawn creator
  | CreateAbort creator
  | Register process creator
  | Count process creator
  | ToIdle string creator

datatype job = Check string | EnsureMin | Create | CreateFirst

type_synonym goroutine = "instr \<times> job list"

text \<open>What a step reads from outside.\<close>

record step_env =
  te_task :: TaskPayload
  te_spawn :: spawn
  te_exec :: exec_env
  te_now :: time
  te_stop :: stop_env
  te_order :: "string list"

definition on_process :: "string \<Rightarrow> pool \<Rightarrow> (process \<Rightarrow> process \<times> instr) \<Rightarrow> (pool \<times> instr) option" where
  "on_process i p f = (case pl_heap p i of None \<Rightarrow> None
     | Some q \<Rightarrow> (case f q of (q, c) \<Rightarrow> Some (upd_process i q p, c)))"

fun created :: "creator \<Rightarrow> instr" where
  "created (ForTask t) = GetIdle t"
| "created _ = Ready"

fun create_failed :: "creator \<Rightarrow> instr" where
  "create_failed ForStart = Halted"
| "create_failed _ = Ready"

definition istep :: "step_env \<Rightarrow> pool \<Rightarrow> instr \<Rightarrow> (pool \<times> instr) option" where
  "istep e p c =
    (case c of
       GetIdle t \<Rightarrow> (case pl_idle p of [] \<Rightarrow> Some (p, CreateCheck (ForTask t))
      | i # rest \<Rightarrow> Some (p\<lparr>pl_idle := rest\<rparr>, Lookup t i))
     | Lookup t i \<Rightarrow> Some (p, if i \<in> set (pl_processes p) then Claim t i else GetIdle t)
     | Claim t i \<Rightarrow> Some (claim_stats p, Begin t i)
     | Begin t i \<Rightarrow> on_process i p (\<lambda>q. (mark_busy (ex_start (te_exec e)) t q, Send t i))
     | Send t i \<Rightarrow> (on_process i p (\<lambda>q. case send_task (te_exec e) t q of
     (Some err, q) \<Rightarrow> (q, Update i) | (None, q) \<Rightarrow> (q, Await t i)))
     | Await t i \<Rightarrow> on_process i p (\<lambda>q. (snd (await_result (te_exec e) t q), Update i))
     | Update i \<Rightarrow> Some (p, if i \<in> set (pl_processes p) then StoreStats i else Decide i)
     | StoreStats i \<Rightarrow> Some (store_stats i p, Decide i)
     | Decide i \<Rightarrow> Some (p, if shouldRecycleProcess (te_now e) i p then Recycle i else Return i)
     | Return i \<Rightarrow> Some (idle_append i p, ReturnStats)
     | ReturnStats \<Rightarrow> Some (return_stats p, Ready)
     | Recycle i \<Rightarrow> Some (p, if i \<in> set (pl_processes p) then Unidle i else Ready)
     | Unidle i \<Rightarrow> Some (recycle_unidle i p, RecycleBegin i)
     | RecycleBegin i \<Rightarrow> Some (recycle_begin i p, RecycleStop i)
     | RecycleStop i \<Rightarrow> Some (recycle_stop (te_stop e) i p, Forget i)
     | Forget i \<Rightarrow> Some (recycle_forget i p, RecycleEnd i)
     | CreateCheck m \<Rightarrow> Some (p, if create_allowed p then CreateBegin m else create_failed m)
     | CreateBegin m \<Rightarrow> Some (create_begin p, Spawn m)
     | Spawn m \<Rightarrow> (case spawn_process (te_spawn e) p of
        Inl err \<Rightarrow> Some (p, CreateAbort m)
      | Inr q \<Rightarrow> if pl_heap p (p_id q) = None then Some (upd_process (p_id q) q p, Register q m) else None)
     | CreateAbort m \<Rightarrow> Some (create_abort p, create_failed m)
     | Register q m \<Rightarrow> Some (create_register q p, Count q m)
     | Count q m \<Rightarrow> Some (create_count q p, ToIdle (p_id q) m)
     | ToIdle i m \<Rightarrow> Some (idle_append i p, created m)
     | _ \<Rightarrow> None)"

lemma istep_simps [simp]:
  "istep e p (GetIdle t) =
     (case pl_idle p of [] \<Rightarrow> Some (p, CreateCheck (ForTask t))
      | i # rest \<Rightarrow> Some (p\<lparr>pl_idle := rest\<rparr>, Lookup t i))"
  "istep e p (Lookup t i) =
     Some (p, if i \<in> set (pl_processes p) then Claim t i else GetIdle t)"
  "istep e p (Claim t i) =
     Some (claim_stats p, Begin t i)"
  "istep e p (Begin t i) =
     on_process i p (\<lambda>q. (mark_busy (ex_start (te_exec e)) t q, Send t i))"
  "istep e p (Send t i) =
     on_process i p (\<lambda>q. case send_task (te_exec e) t q of
     (Some err, q) \<Rightarrow> (q, Update i) | (None, q) \<Rightarrow> (q, Await t i))"
  "istep e p (Await t i) =
     on_process i p (\<lambda>q. (snd (await_result (te_exec e) t q), Update i))"
  "istep e p (Update i) =
     Some (p, if i \<in> set (pl_processes p) then StoreStats i else Decide i)"
  "istep e p (StoreStats i) =
     Some (store_stats i p, Decide i)"
  "istep e p (Decide i) =
     Some (p, if shouldRecycleProcess (te_now e) i p then Recycle i else Return i)"
  "istep e p (Return i) =
     Some (idle_append i p, ReturnStats)"
  "istep e p ReturnStats =
     Some (return_stats p, Ready)"
  "istep e p (Recycle i) =
     Some (p, if i \<in> set (pl_processes p) then Unidle i else Ready)"
  "istep e p (Unidle i) =
     Some (recycle_unidle i p, RecycleBegin i)"
  "istep e p (RecycleBegin i) =
     Some (recycle_begin i p, RecycleStop i)"
  "istep e p (RecycleStop i) =
     Some (recycle_stop (te_stop e) i p, Forget i)"
  "istep e p (Forget i) =
     Some (recycle_forget i p, RecycleEnd i)"
  "istep e p (CreateCheck m) =
     Some (p, if create_allowed p then CreateBegin m else create_failed m)"
  "istep e p (CreateBegin m) =
     Some (create_begin p, Spawn m)"
  "istep e p (Spawn m) =
     (case spawn_process (te_spawn e) p of
        Inl err \<Rightarrow> Some (p, CreateAbort m)
      | Inr q \<Rightarrow> if pl_heap p (p_id q) = None then Some (upd_process (p_id q) q p, Register q m) else None)"
  "istep e p (CreateAbort m) =
     Some (create_abort p, create_failed m)"
  "istep e p (Register q m) =
     Some (create_register q p, Count q m)"
  "istep e p (Count q m) =
     Some (create_count q p, ToIdle (p_id q) m)"
  "istep e p (ToIdle i m) =
     Some (idle_append i p, created m)"
  "istep e p Ready = None" "istep e p Halted = None" "istep e p (RecycleEnd i) = None"
  by (simp_all add: istep_def)

text \<open>One step of a goroutine; \<open>mon\<close> says whether it is goroutine 0. A spawn whose id is already
  in use does not happen.\<close>

definition next_job :: "step_env \<Rightarrow> bool \<Rightarrow> pool \<Rightarrow> job list \<Rightarrow> goroutine option" where
  "next_job e mon p js =
     (case js of
        [] \<Rightarrow>
          if mon
          then if distinct (te_order e) \<and> set (te_order e) = set (pl_processes p)
               then Some (Ready, map Check (te_order e) @ [EnsureMin]) else None
          else Some (GetIdle (te_task e), [])
      | j # js \<Rightarrow>
          (case j of
             Check i \<Rightarrow> Some (if shouldRecycleProcess (te_now e) i p then Recycle i else Ready, js)
           | EnsureMin \<Rightarrow> Some (Ready,
               replicate (nat (pc_MinProcesses (pl_config p) - int (length (pl_processes p)))) Create @ js)
           | Create \<Rightarrow> Some (CreateCheck ForMin, js)
           | CreateFirst \<Rightarrow> Some (CreateCheck ForStart, js)))"

definition gstep :: "step_env \<Rightarrow> bool \<Rightarrow> pool \<Rightarrow> goroutine \<Rightarrow> (pool \<times> goroutine) option" where
  "gstep e mon p g =
     (case g of (c, js) \<Rightarrow>
        if c = Ready then map_option (Pair p) (next_job e mon p js)
        else case c of
          RecycleEnd i \<Rightarrow> Some (recycle_end i p, Ready, EnsureMin # js)
        | _ \<Rightarrow> map_option (\<lambda>(p, c). (p, c, js)) (istep e p c))"

type_synonym pstate = "pool \<times> goroutine list"

definition pstep :: "step_env \<times> nat \<Rightarrow> pstate \<Rightarrow> pstate option" where
  "pstep a s = (case (a, s) of ((e, k), (p, gs)) \<Rightarrow>
     if k < length gs
     then (case gstep e (k = 0) p (gs ! k) of None \<Rightarrow> None | Some (p', g) \<Rightarrow> Some (p', gs[k := g]))
     else None)"

definition started :: "PoolConfig \<Rightarrow> protocol \<Rightarrow> pstate" where
  "started c pr =
     (let p = NewProcessPool c pr in
      (p, (Ready, replicate (nat (pc_MinProcesses (pl_config p))) CreateFirst) #
          replicate (nat (pc_MaxProcesses (pl_config p))) (Ready, [])))"

inductive reach :: "PoolConfig \<Rightarrow> protocol \<Rightarrow> pstate \<Rightarrow> bool" for c pr where
  reach_start: "reach c pr (started c pr)"
| reach_step: "reach c pr s \<Longrightarrow> pstep a s = Some s' \<Longrightarrow> reach c pr s'"

text \<open>A schedule: which goroutine steps, with what it reads.\<close>

fun run :: "(step_env \<times> nat) list \<Rightarrow> pstate \<Rightarrow> pstate option" where
  "run [] s = Some s"
| "run (a # as) s = (case pstep a s of None \<Rightarrow> None | Some s' \<Rightarrow> run as s')"

lemma run_reach: "reach c pr s \<Longrightarrow> run as s = Some s' \<Longrightarrow> reach c pr s'"
  by (induction as arbitrary: s) (auto intro: reach_step split: option.splits)

lemma run_append: "run (as @ bs) s = (case run as s of None \<Rightarrow> None | Some s' \<Rightarrow> run bs s')"
  by (induction as arbitrary: s) (auto split: option.split)

section \<open>Who holds a process\<close>

text \<open>The process a goroutine holds: taken from the idle list, or created, and not given back.\<close>

definition held :: "instr \<Rightarrow> string option" where
  "held c = (case c of
      Lookup t i \<Rightarrow> Some i | Claim t i \<Rightarrow> Some i | Begin t i \<Rightarrow> Some i | Send t i \<Rightarrow> Some i
    | Await t i \<Rightarrow> Some i | Update i \<Rightarrow> Some i | StoreStats i \<Rightarrow> Some i | Decide i \<Rightarrow> Some i | Return i \<Rightarrow> Some i
    | Register q m \<Rightarrow> Some (p_id q) | Count q m \<Rightarrow> Some (p_id q) | ToIdle i m \<Rightarrow> Some i
    | _ \<Rightarrow> None)"

lemma held_simps [simp]:
  "held Ready = None" "held Halted = None" "held (GetIdle t) = None" "held (Lookup t i) = Some i"
  "held (Claim t i) = Some i" "held (Begin t i) = Some i" "held (Send t i) = Some i"
  "held (Await t i) = Some i" "held (Update i) = Some i" "held (StoreStats i) = Some i" "held (Decide i) = Some i"
  "held (Return i) = Some i" "held ReturnStats = None" "held (Recycle i) = None" "held (Unidle i) = None"
  "held (RecycleBegin i) = None" "held (RecycleStop i) = None" "held (Forget i) = None"
  "held (RecycleEnd i) = None" "held (CreateCheck m) = None" "held (CreateBegin m) = None"
  "held (Spawn m) = None" "held (CreateAbort m) = None" "held (Register q m) = Some (p_id q)"
  "held (Count q m) = Some (p_id q)" "held (ToIdle i m) = Some i"
  by (simp_all add: held_def)

lemma held_created [simp]: "held (created m) = None" "held (create_failed m) = None"
  by (cases m; simp)+

text \<open>The four ways in which a step moves a process between the idle list and its holder.\<close>

definition moves :: "pool \<Rightarrow> instr \<Rightarrow> pool \<Rightarrow> instr \<Rightarrow> bool" where
  "moves p c p' c' \<longleftrightarrow>
     (\<exists>i. pl_idle p = i # pl_idle p' \<and> held c = None \<and> held c' = Some i)
   \<or> (\<exists>i. held c = Some i \<and> pl_idle p' = pl_idle p @ [i] \<and> held c' = None)
   \<or> (\<exists>i. held c = None \<and> held c' = Some i \<and> pl_idle p' = pl_idle p \<and> pl_heap p i = None \<and> pl_heap p' i \<noteq> None)
   \<or> (\<exists>i. pl_idle p' \<in> {pl_idle p, remove1 i (pl_idle p)}) \<and> (held c' = held c \<or> held c' = None)"

lemma moves_keep: "pl_idle p' = pl_idle p \<Longrightarrow> held c' = held c \<or> held c' = None \<Longrightarrow> moves p c p' c'"
  by (auto simp: moves_def)

lemma on_process_cases:
  assumes "on_process i p f = Some (p', c')"
  obtains q q' where "pl_heap p i = Some q" "f q = (q', c')" "p' = upd_process i q' p"
  using assms by (auto simp: on_process_def split: option.splits prod.splits)

lemma store_stats_frame [simp]:
  "pl_config (store_stats i p) = pl_config p" "pl_heap (store_stats i p) = pl_heap p"
  "pl_processes (store_stats i p) = pl_processes p" "pl_idle (store_stats i p) = pl_idle p"
  by (simp_all add: store_stats_def split: option.split)

lemma istep_moves:
  assumes "istep e p c = Some (p', c')"
  shows "moves p c p' c'"
proof (cases c)
  case (GetIdle t)
  with assms show ?thesis by (auto simp: moves_def split: list.splits)
next
  case (Begin t i)
  with assms show ?thesis by (auto elim!: on_process_cases intro!: moves_keep)
next
  case (Send t i)
  with assms show ?thesis by (auto elim!: on_process_cases intro!: moves_keep split: prod.splits option.splits)
next
  case (Await t i)
  with assms show ?thesis by (auto elim!: on_process_cases intro!: moves_keep)
next
  case (Spawn m)
  with assms show ?thesis by (auto simp: moves_def split: sum.splits if_splits)
qed (use assms in \<open>auto simp: moves_def pool_sections split: if_splits\<close>)

lemma gstep_cases:
  assumes "gstep e mon p (c, js) = Some (p', c', js')"
  obtains (job) "c = Ready" "p' = p" "next_job e mon p js = Some (c', js')"
  | (ended) i where "c = RecycleEnd i" "p' = recycle_end i p" "c' = Ready" "js' = EnsureMin # js"
  | (instr) "istep e p c = Some (p', c')" "js' = js" "c \<noteq> Ready" "\<forall>i. c \<noteq> RecycleEnd i"
  using assms by (auto simp: gstep_def split: if_splits instr.splits)

lemma next_job_held: "next_job e mon p js = Some (c', js') \<Longrightarrow> held c' = None"
  by (auto simp: next_job_def split: list.splits if_splits job.splits)

lemma gstep_moves: "gstep e mon p (c, js) = Some (p', c', js') \<Longrightarrow> moves p c p' c'"
  by (erule gstep_cases)
    (auto intro: istep_moves dest: next_job_held intro: moves_keep simp: recycle_end_def)

lemma recycle_stop_dom_mono: "pl_heap p j \<noteq> None \<Longrightarrow> pl_heap (recycle_stop env i p) j \<noteq> None"
  using recycle_stop_dom by simp

lemma istep_heap:
  assumes "istep e p c = Some (p', c')" "pl_heap p i \<noteq> None"
  shows "pl_heap p' i \<noteq> None"
proof (cases c)
  case (RecycleStop j)
  with assms recycle_stop_dom_mono show ?thesis by auto
qed (use assms in \<open>auto simp: pool_sections elim!: on_process_cases split: list.splits sum.splits if_splits prod.splits option.splits\<close>)

lemma gstep_heap:
  "gstep e mon p (c, js) = Some (p', c', js') \<Longrightarrow> pl_heap p i \<noteq> None \<Longrightarrow> pl_heap p' i \<noteq> None"
  by (erule gstep_cases) (auto dest: istep_heap simp: recycle_end_def)

section \<open>The invariant of all goroutines\<close>

definition ginv :: "pstate \<Rightarrow> bool" where
  "ginv s \<longleftrightarrow> (case s of (p, gs) \<Rightarrow>
     distinct (pl_idle p) \<and> (\<forall>i \<in> set (pl_idle p). pl_heap p i \<noteq> None) \<and>
     (\<forall>k < length gs. \<forall>i. held (fst (gs ! k)) = Some i \<longrightarrow> i \<notin> set (pl_idle p) \<and> pl_heap p i \<noteq> None) \<and>
     (\<forall>k < length gs. \<forall>l < length gs. \<forall>i. k \<noteq> l \<longrightarrow>
        held (fst (gs ! k)) = Some i \<longrightarrow> held (fst (gs ! l)) \<noteq> Some i))"

lemma pstep_cases:
  assumes "pstep a (p, gs) = Some s'"
  obtains e k c js p' c' js' where "a = (e, k)" "k < length gs" "gs ! k = (c, js)"
    "gstep e (k = 0) p (c, js) = Some (p', c', js')" "s' = (p', gs[k := (c', js')])"
proof -
  obtain e k where "a = (e, k)" by (cases a)
  with assms that show ?thesis
    by (cases "gs ! k") (auto simp: pstep_def split: if_splits option.splits prod.splits)
qed

lemma ginv_step:
  assumes "ginv (p, gs)" "k < length gs" "gs ! k = (c, js)" "moves p c p' c'"
    "\<And>i. pl_heap p i \<noteq> None \<Longrightarrow> pl_heap p' i \<noteq> None"
  shows "ginv (p', gs[k := (c', js')])"
proof -
  let ?gs = "gs[k := (c', js')]"
  have I: "distinct (pl_idle p)" "\<And>i. i \<in> set (pl_idle p) \<Longrightarrow> pl_heap p i \<noteq> None"
    "\<And>l i. l < length gs \<Longrightarrow> held (fst (gs ! l)) = Some i \<Longrightarrow> i \<notin> set (pl_idle p) \<and> pl_heap p i \<noteq> None"
    "\<And>l m i. l < length gs \<Longrightarrow> m < length gs \<Longrightarrow> l \<noteq> m \<Longrightarrow> held (fst (gs ! l)) = Some i \<Longrightarrow>
       held (fst (gs ! m)) \<noteq> Some i"
    using assms(1) unfolding ginv_def by auto
  have c: "held c = Some i \<Longrightarrow> i \<notin> set (pl_idle p) \<and> pl_heap p i \<noteq> None" for i
    using I(3) [OF assms(2)] assms(3) by simp
  have other: "held (fst (gs ! l)) = Some i \<Longrightarrow> held c \<noteq> Some i" if "l < length gs" "l \<noteq> k" for l i
    using I(4) [OF that(1) assms(2) that(2)] assms(3) by simp
  \<comment> \<open>the idle list\<close>
  have 1: "distinct (pl_idle p')" "\<And>i. i \<in> set (pl_idle p') \<Longrightarrow> pl_heap p' i \<noteq> None"
    using assms(4,5) I(1,2) c unfolding moves_def by (auto dest: notin_set_remove1)
  \<comment> \<open>the holders\<close>
  have 2: "i \<notin> set (pl_idle p') \<and> pl_heap p' i \<noteq> None" if "held c' = Some i" for i
    using that assms(4,5) I(1) I(2) [of i] c unfolding moves_def by (auto dest: notin_set_remove1)
  have 3: "i \<notin> set (pl_idle p') \<and> pl_heap p' i \<noteq> None"
    if "l < length gs" "l \<noteq> k" "held (fst (gs ! l)) = Some i" for l i
    using I(3) [OF that(1,3)] other [OF that] assms(4,5) unfolding moves_def by (auto dest: notin_set_remove1)
  have 4: "held (fst (gs ! l)) \<noteq> Some i" if "l < length gs" "l \<noteq> k" "held c' = Some i" for l i
    using that I(2) I(3) [OF that(1)] other [OF that(1,2)] assms(4) unfolding moves_def by fastforce
  show ?thesis
    unfolding ginv_def prod.case
  proof (intro conjI allI impI ballI)
    fix l i assume "l < length ?gs" "held (fst (?gs ! l)) = Some i"
    then have "i \<notin> set (pl_idle p') \<and> pl_heap p' i \<noteq> None"
      using 2 3 by (cases "l = k") auto
    then show "i \<notin> set (pl_idle p')" "pl_heap p' i \<noteq> None" by simp_all
  next
    fix l m i assume "l < length ?gs" "m < length ?gs" "l \<noteq> m" "held (fst (?gs ! l)) = Some i"
    then have *: "l < length gs" "m < length gs" "l \<noteq> m" "held (fst (?gs ! l)) = Some i" by simp_all
    consider "l = k" | "m = k" | "l \<noteq> k" "m \<noteq> k" by blast
    then show "held (fst (?gs ! m)) \<noteq> Some i"
    proof cases
      case 1
      with * assms(2) 4 [of m i] show ?thesis by simp
    next
      case 2
      with * assms(2) 4 [of l i] show ?thesis by auto
    next
      case 3
      with * I(4) [of l m i] show ?thesis by simp
    qed
  qed (use 1 in auto)
qed

lemma reach_ginv: "reach c pr s \<Longrightarrow> ginv s"
proof (induction rule: reach.induct)
  case reach_start
  show ?case
    by (auto simp: ginv_def started_def Let_def NewProcessPool_def nth_Cons' split: if_splits)
next
  case (reach_step s a s')
  obtain p gs where s: "s = (p, gs)" by (cases s)
  from reach_step(2) [unfolded s] show ?case
  proof (cases rule: pstep_cases)
    case (1 e k c js p' c' js')
    with ginv_step [OF reach_step(3) [unfolded s] 1(2,3) gstep_moves [OF 1(4)] gstep_heap [OF 1(4)]]
    show ?thesis by simp
  qed
qed

section \<open>How far the pool can overshoot its maximum\<close>

text \<open>A goroutine that passed the check of \<open>createProcess\<close> and has not registered its process.\<close>

definition creating :: "instr \<Rightarrow> bool" where
  "creating c \<longleftrightarrow> (case c of CreateBegin m \<Rightarrow> True | Spawn m \<Rightarrow> True | Register q m \<Rightarrow> True | _ \<Rightarrow> False)"

lemma creating_simps [simp]:
  "creating (CreateBegin m)" "creating (Spawn m)" "creating (Register q m)"
  "\<not> creating Ready" "\<not> creating Halted" "\<not> creating (GetIdle t)" "\<not> creating (Lookup t i)"
  "\<not> creating (Claim t i)" "\<not> creating (Begin t i)" "\<not> creating (Send t i)" "\<not> creating (Await t i)"
  "\<not> creating (Update i)" "\<not> creating (StoreStats i)" "\<not> creating (Decide i)" "\<not> creating (Return i)" "\<not> creating ReturnStats"
  "\<not> creating (Recycle i)" "\<not> creating (Unidle i)" "\<not> creating (RecycleBegin i)" "\<not> creating (RecycleStop i)"
  "\<not> creating (Forget i)" "\<not> creating (RecycleEnd i)" "\<not> creating (CreateCheck m)"
  "\<not> creating (CreateAbort m)" "\<not> creating (Count q m)" "\<not> creating (ToIdle i m)"
  by (simp_all add: creating_def)

lemma creating_created [simp]: "\<not> creating (created m)" "\<not> creating (create_failed m)"
  by (cases m; simp)+

text \<open>How a step changes the number of processes.\<close>

definition grows :: "pool \<Rightarrow> instr \<Rightarrow> pool \<Rightarrow> instr \<Rightarrow> bool" where
  "grows p c p' c' \<longleftrightarrow>
     length (pl_processes p') \<le> length (pl_processes p) \<and> (creating c' \<longrightarrow> creating c)
   \<or> \<not> creating c \<and> pl_processes p' = pl_processes p \<and>
       int (length (pl_processes p)) < pc_MaxProcesses (pl_config p)
   \<or> creating c \<and> \<not> creating c' \<and> length (pl_processes p') \<le> Suc (length (pl_processes p))"

lemma istep_grows: "istep e p c = Some (p', c') \<Longrightarrow> grows p c p' c' \<and> pl_config p' = pl_config p"
  by (cases c) (auto simp: grows_def pool_sections create_allowed_def List.insert_def elim!: on_process_cases
      split: list.splits sum.splits if_splits prod.splits option.splits)

lemma next_job_creating: "next_job e mon p js = Some (c', js') \<Longrightarrow> \<not> creating c'"
  by (auto simp: next_job_def split: list.splits if_splits job.splits)

lemma gstep_grows:
  "gstep e mon p (c, js) = Some (p', c', js') \<Longrightarrow> grows p c p' c' \<and> pl_config p' = pl_config p"
  by (erule gstep_cases) (auto simp: grows_def recycle_end_def dest: istep_grows next_job_creating)

definition creators :: "goroutine list \<Rightarrow> nat" where
  "creators gs = length (filter (\<lambda>g. creating (fst g)) gs)"

lemma length_filter_update:
  "k < length xs \<Longrightarrow> length (filter P (xs[k := y])) + (if P (xs ! k) then 1 else 0) =
     length (filter P xs) + (if P y then 1 else 0)"
proof (induction xs arbitrary: k)
  case (Cons x xs)
  then show ?case by (cases k) auto
qed simp

lemma creators_le: "creators gs \<le> length gs"
  by (simp add: creators_def)

definition bound_inv :: "int \<Rightarrow> nat \<Rightarrow> pstate \<Rightarrow> bool" where
  "bound_inv mx n s \<longleftrightarrow> (case s of (p, gs) \<Rightarrow> pc_MaxProcesses (pl_config p) = mx \<and> length gs = n \<and>
     int (length (pl_processes p) + creators gs) \<le> mx + int n - 1)"

lemma bound_step:
  assumes "bound_inv mx n (p, gs)" "k < length gs" "gs ! k = (c, js)" "grows p c p' c'"
    "pl_config p' = pl_config p"
  shows "bound_inv mx n (p', gs[k := (c', js')])"
proof -
  let ?gs = "gs[k := (c', js')]"
  have n: "creators ?gs + (if creating c then 1 else 0) = creators gs + (if creating c' then 1 else 0)"
    using length_filter_update [OF assms(2), of "\<lambda>g. creating (fst g)" "(c', js')"] assms(3)
    by (simp add: creators_def)
  have "creators ?gs \<le> n" using creators_le [of ?gs] assms(1) by (simp add: bound_inv_def)
  with n assms(1,4,5) show ?thesis
    unfolding bound_inv_def grows_def prod.case by (auto split: if_splits)
qed

lemma reach_bound:
  "reach c pr s \<Longrightarrow>
     bound_inv (pc_MaxProcesses (pl_config (fst (started c pr)))) (length (snd (started c pr))) s"
proof (induction rule: reach.induct)
  case reach_start
  show ?case
    by (auto simp: bound_inv_def started_def Let_def NewProcessPool_def creators_def)
next
  case (reach_step s a s')
  obtain p gs where s: "s = (p, gs)" by (cases s)
  from reach_step(2) [unfolded s] show ?case
  proof (cases rule: pstep_cases)
    case (1 e k c js p' c' js')
    with bound_step [OF reach_step(3) [unfolded s] 1(2,3)] gstep_grows [OF 1(4)]
    show ?thesis by simp
  qed
qed

end
