(* ===== verification/PoolThreadClaims.thy ===== *)
theory PoolThreadClaims
  imports PoolClaims PoolThreads
begin

text \<open>
  The properties of the interleaved goroutines of the pool, with concrete schedules as
  witnesses.
\<close>

section \<open>Schedules for the witnesses\<close>

definition demo_child :: "char \<Rightarrow> pool \<Rightarrow> process" where
  "demo_child c p = (case spawn_process (demo_spawns c 0) p of Inr q \<Rightarrow> q)"

lemma demo_child [simp]: "spawn_process (demo_spawns c 0) p = Inr (demo_child c p)"
  by (simp add: demo_child_def spawn_process_def demo_spawns_def NewPythonProcess_def Let_def Start_def)

lemma demo_child_simps [simp]:
  "p_id (demo_child c p) = [c]" "ps_State (p_stats (demo_child c p)) = ProcessStateIdle"
  "ps_LastTaskTime (p_stats (demo_child c p)) = zero_time"
  "ps_TasksProcessed (p_stats (demo_child c p)) = 0"
  "p_protocol (demo_child c p) = pl_protocol p"
  using spawn_process_ok [OF demo_child [of c p]] demo_spawn_id [of c 0]
  by (simp_all add: spawn_id_def)
    (simp add: demo_child_def spawn_process_def demo_spawns_def NewPythonProcess_def Let_def Start_def
      setState_def process_config_def)

definition one_process :: PoolConfig where
  "one_process = demo_config\<lparr>pc_MaxProcesses := 1\<rparr>"

definition demo_step :: "char \<Rightarrow> string list \<Rightarrow> step_env" where
  "demo_step c order = \<lparr>te_task = demo_task, te_spawn = demo_spawns c 0, te_exec = demo_exec True [] Deadline,
     te_now = 9 * max_duration, te_stop = we_stop (demo_we True [] Deadline), te_order = order\<rparr>"

lemma demo_step_simps [simp]:
  "te_task (demo_step c order) = demo_task" "te_spawn (demo_step c order) = demo_spawns c 0"
  "te_exec (demo_step c order) = demo_exec True [] Deadline" "te_now (demo_step c order) = 9 * max_duration"
  "te_order (demo_step c order) = order"
  by (simp_all add: demo_step_def)

abbreviation main_step :: "char \<Rightarrow> step_env \<times> nat" where
  "main_step c \<equiv> (demo_step c [''a''], 0)"

abbreviation worker_step :: "char \<Rightarrow> step_env \<times> nat" where
  "worker_step c \<equiv> (demo_step c [], 1)"

lemma demo_started:
  "started one_process demo_protocol =
     (NewProcessPool one_process demo_protocol, [(Ready, [CreateFirst]), (Ready, [])])"
  by (simp add: started_def Let_def NewProcessPool_def one_process_def demo_config_def)

text \<open>The pool has one worker, one process at most and one process at least.\<close>

definition new1 :: pool where
  "new1 = NewProcessPool one_process demo_protocol"

lemma new1_simps [simp]:
  "pl_processes new1 = []" "pl_idle new1 = []" "pl_heap new1 = Map.empty" "pl_protocol new1 = demo_protocol"
  "pc_MinProcesses (pl_config new1) = 1" "pc_MaxProcesses (pl_config new1) = 1"
  "pc_MaxTasksPerProcess (pl_config new1) = 1" "pc_MaxIdleTime (pl_config new1) = 5 * minute"
  "po_ProcessStats (pl_stats new1) = Map.empty"
  by (simp_all add: new1_def NewProcessPool_def Let_def one_process_def demo_config_def default_duration_def)

text \<open>The main goroutine has created the first process.\<close>

definition ready1 :: pool where
  "ready1 = idle_append ''a'' (create_count (demo_child CHR ''a'' (create_begin new1))
     (create_register (demo_child CHR ''a'' (create_begin new1))
       (upd_process ''a'' (demo_child CHR ''a'' (create_begin new1)) (create_begin new1))))"

lemma run_ready1:
  "run (replicate 7 (main_step CHR ''a'')) (new1, [(Ready, [CreateFirst]), (Ready, [])]) =
     Some (ready1, [(Ready, []), (Ready, [])])"
  by (simp add: numeral_eq_Suc pstep_def gstep_def next_job_def ready1_def create_allowed_def
      create_begin_def)

lemma ready1_simps [simp]:
  "pl_processes ready1 = [''a'']" "pl_idle ready1 = [''a'']" "pl_config ready1 = pl_config new1"
  "pl_heap ready1 = [''a'' \<mapsto> demo_child CHR ''a'' (create_begin new1)]"
  "po_ProcessStats (pl_stats ready1) = [''a'' \<mapsto> p_stats (demo_child CHR ''a'' (create_begin new1))]"
  by (simp_all add: ready1_def pool_sections)

text \<open>The worker has taken it and waits for the result of its first task.\<close>

definition awaiting :: process where
  "awaiting = write_stdin ''1'' (mark_busy (9 * max_duration) demo_task (demo_child CHR ''a'' (create_begin new1)))"

definition busy1 :: pool where
  "busy1 = upd_process ''a'' awaiting (upd_process ''a''
     (mark_busy (9 * max_duration) demo_task (demo_child CHR ''a'' (create_begin new1)))
     (claim_stats (ready1\<lparr>pl_idle := []\<rparr>)))"

lemma run_busy1:
  "run (replicate 6 (worker_step CHR ''a'')) (ready1, [(Ready, []), (Ready, [])]) =
     Some (busy1, [(Ready, []), (Await demo_task ''a'', [])])"
  by (simp add: numeral_eq_Suc pstep_def gstep_def next_job_def busy1_def awaiting_def on_process_def
      claim_stats_def send_task_def demo_exec_def demo_protocol_def demo_task_def create_begin_def)

lemma busy1_simps [simp]:
  "pl_processes busy1 = [''a'']" "pl_idle busy1 = []" "pl_config busy1 = pl_config new1"
  "pl_heap busy1 = [''a'' \<mapsto> awaiting]"
  "po_ProcessStats (pl_stats busy1) = [''a'' \<mapsto> p_stats (demo_child CHR ''a'' (create_begin new1))]"
  by (simp_all add: busy1_def claim_stats_def)

lemma reach_busy1:
  "reach one_process demo_protocol (busy1, [(Ready, []), (Await demo_task ''a'', [])])"
proof -
  have "run (replicate 7 (main_step CHR ''a'') @ replicate 6 (worker_step CHR ''a'')) (started one_process demo_protocol) =
      Some (busy1, [(Ready, []), (Await demo_task ''a'', [])])"
    using run_ready1 run_busy1 by (simp add: run_append demo_started new1_def)
  with reach_start run_reach show ?thesis by blast
qed

section \<open>Exclusive execution\<close>

text \<open>C6: No process serves two goroutines: in every state that any interleaving of the
  workers and the monitor reaches, a process that a goroutine took from the idle list, or has
  just created, is held by no other goroutine and is not in the idle list, and the idle list has
  no duplicates; in particular no two workers run a task on the same process.\<close>

theorem exclusive_execution:
  assumes "reach c pr (p, gs)" and "k < length gs" and "l < length gs"
    and "held (fst (gs ! k)) = Some i" and "held (fst (gs ! l)) = Some i"
  shows "k = l \<and> i \<notin> set (pl_idle p) \<and> distinct (pl_idle p)"
  using reach_ginv [OF assms(1)] assms(2-5) unfolding ginv_def prod.case by blast

theorem exclusive_execution_witness: "''a'' \<notin> set (pl_idle busy1) \<and> distinct (pl_idle busy1)"
  using exclusive_execution [OF reach_busy1, of 1 1 "''a''"] by simp

section \<open>Bounds\<close>

text \<open>C29: However the goroutines interleave, the pool never holds more than twice
  \<open>MaxProcesses\<close> processes.\<close>

theorem overshoot_bound:
  assumes "reach c pr (p, gs)"
  shows "int (length (pl_processes p)) \<le> 2 * pc_MaxProcesses (pl_config p)"
proof -
  have n: "length (snd (started c pr)) = Suc (nat (pc_MaxProcesses (pl_config (fst (started c pr)))))"
    by (simp add: started_def Let_def)
  have "1 \<le> pc_MaxProcesses (pl_config (fst (started c pr)))"
    by (simp add: started_def Let_def NewProcessPool_def)
  with reach_bound [OF assms] n show ?thesis by (simp add: bound_inv_def)
qed

theorem overshoot_bound_witness: "length (pl_processes busy1) \<le> 2"
  using overshoot_bound [OF reach_busy1] by simp

text \<open>The maximum is not kept: the check and the registration of a new process are separate
  critical sections, and a reachable state holds two processes although \<open>MaxProcesses\<close> is 1.
  The main goroutine and a worker both pass the check before either registers its process.\<close>

theorem max_processes_exceeded:
  "\<exists>p gs. reach one_process demo_protocol (p, gs) \<and> pc_MaxProcesses (pl_config p) = 1 \<and>
     length (pl_processes p) = 2"
proof -
  let ?s = "replicate 3 (main_step CHR ''a'') @ replicate 6 (worker_step CHR ''b'') @ replicate 2 (main_step CHR ''a'')"
  have "\<exists>p gs. run ?s (new1, [(Ready, [CreateFirst]), (Ready, [])]) = Some (p, gs) \<and>
      pc_MaxProcesses (pl_config p) = 1 \<and> length (pl_processes p) = 2"
    by (simp add: numeral_eq_Suc pstep_def gstep_def next_job_def create_allowed_def create_begin_def
        create_register_def)
  then show ?thesis using run_reach [OF reach_start] by (metis demo_started new1_def)
qed

text \<open>C34: The monitor can recycle a process in the middle of a task: a reachable state has a
  worker that waits for the result of a process which the monitor has stopped and removed from
  the map, although neither its number of tasks nor its age nor its state asked for it. The
  statistics the monitor reads are those of the creation, where no task was ever run.\<close>

theorem recycled_while_running:
  "\<exists>p gs i q. reach one_process demo_protocol (p, gs) \<and> fst (gs ! 1) = Await demo_task i \<and>
     pl_heap p i = Some q \<and> p_state q = ProcessStateStopped \<and> i \<notin> set (pl_processes p) \<and>
     ps_TasksProcessed (p_stats q) = 0"
proof -
  have should: "shouldRecycleProcess (9 * max_duration) ''a'' busy1"
    by (simp add: shouldRecycleProcess_def)
  have "runnable awaiting"
    using spawn_process_ok(2) [OF demo_child [of "CHR ''a''" "create_begin new1"]] by (simp add: awaiting_def)
  moreover obtain r acts q where s: "Stop (we_stop (demo_we True [] Deadline)) True awaiting = (r, acts, q)"
    by (metis prod_cases3)
  ultimately have q: "p_state q = ProcessStateStopped" "ps_TasksProcessed (p_stats q) = 0"
    using Stop_stopped [of awaiting] Stop_tasks [of _ _ awaiting] by (auto simp: awaiting_def)
  have "\<exists>p gs. run (replicate 7 (main_step CHR ''a'')) (busy1, [(Ready, []), (Await demo_task ''a'', [])]) = Some (p, gs) \<and>
      fst (gs ! 1) = Await demo_task ''a'' \<and> pl_heap p ''a'' = Some q \<and> pl_processes p = []"
    using should s
    by (simp add: numeral_eq_Suc pstep_def gstep_def next_job_def recycle_unidle_def recycle_begin_def
        recycle_stop_def recycle_forget_def demo_step_def)
  then obtain p gs where run: "run (replicate 7 (main_step CHR ''a'')) (busy1, [(Ready, []), (Await demo_task ''a'', [])]) = Some (p, gs)"
    and end_state: "fst (gs ! 1) = Await demo_task ''a''" "pl_heap p ''a'' = Some q" "pl_processes p = []" by blast
  from run_reach [OF reach_busy1 run] end_state q show ?thesis by fastforce
qed

end
