(* ===== verification/Worker.thy ===== *)
theory Worker
  imports SqsProps Protocol PoolTypes
begin

text \<open>
  The worker (\<open>internal/worker/worker.go\<close> and \<open>factory.go\<close>): it receives messages from a
  broker, decodes each to a task, runs the task in a goroutine on the pool, and acknowledges the
  message. The broker is an interface: its \<open>ReceiveMessages\<close> and \<open>AcknowledgeMessage\<close> are
  arguments of the definitions (type \<open>'b\<close> is the broker's state, \<open>'e\<close> what a call observes).
  What the pool answers to a task is an input: the text of an error, or a result.

  A goroutine runs \<open>executeTask\<close>; \<open>wstep\<close> interleaves its critical sections with the receiving
  loop. The counter \<open>TasksFailed\<close> is incremented outside the mutex when the pool reports an
  error; that increment is a read and a write there.
\<close>

section \<open>State\<close>

datatype TaskState =
    TaskStatePending
  | TaskStateRunning
  | TaskStateSuccess
  | TaskStateError
  | TaskStateRetry

record TaskInfo =
  ti_ID :: string
  ti_Name :: string
  ti_State :: "TaskState option"
  ti_Args :: "gval list option"
  ti_Kwargs :: "gmap option"
  ti_Queue :: string
  ti_MessageGroupID :: string
  ti_Retries :: int
  ti_MaxRetries :: int
  ti_ReceivedAt :: time
  ti_StartedAt :: time
  ti_CompletedAt :: time
  ti_Result :: gval
  ti_Error :: string
  ti_Traceback :: string
  ti_ProcessID :: string

text \<open>The zero value, which a lookup of a missing key yields; its state is the empty string, which is
  no state (\<open>None\<close>).\<close>

definition zero_info :: TaskInfo where
  "zero_info = \<lparr>ti_ID = '''', ti_Name = '''', ti_State = None, ti_Args = None, ti_Kwargs = None,
     ti_Queue = '''', ti_MessageGroupID = '''', ti_Retries = 0, ti_MaxRetries = 0,
     ti_ReceivedAt = zero_time, ti_StartedAt = zero_time, ti_CompletedAt = zero_time,
     ti_Result = GNil, ti_Error = '''', ti_Traceback = '''', ti_ProcessID = ''''\<rparr>"

record RetryBackoff =
  rb_InitialInterval :: duration
  rb_MaxInterval :: duration
  rb_Multiplier :: f64
  rb_RandomizationFactor :: f64

record WorkerConfig =
  wc_Concurrency :: int
  wc_QueuePrefetch :: int
  wc_TaskTimeout :: duration
  wc_ShutdownTimeout :: duration
  wc_RetryBackoff :: RetryBackoff
  wc_HeartbeatInterval :: duration

record WorkerStats =
  ws_StartTime :: time
  ws_TasksReceived :: int
  ws_TasksSucceeded :: int
  ws_TasksFailed :: int
  ws_TasksRetried :: int
  ws_ActiveTasks :: int
  ws_PoolStats :: PoolStats

record worker =
  w_protocol :: protocol
  w_config :: WorkerConfig
  w_stats :: WorkerStats
  w_taskInfos :: "string \<rightharpoonup> TaskInfo"
  w_shutdown :: bool
  w_done :: bool

definition zero_pool_stats :: PoolStats where
  "zero_pool_stats = \<lparr>po_TotalProcesses = 0, po_IdleProcesses = 0, po_BusyProcesses = 0,
     po_StartingProcesses = 0, po_StoppingProcesses = 0, po_TotalTasksProcessed = 0,
     po_ProcessStats = Map.empty\<rparr>"

definition NewDefaultWorker :: "protocol \<Rightarrow> WorkerConfig \<Rightarrow> worker" where
  "NewDefaultWorker pr config =
     \<lparr>w_protocol = pr, w_config = config,
      w_stats = \<lparr>ws_StartTime = zero_time, ws_TasksReceived = 0, ws_TasksSucceeded = 0,
        ws_TasksFailed = 0, ws_TasksRetried = 0, ws_ActiveTasks = 0, ws_PoolStats = zero_pool_stats\<rparr>,
      w_taskInfos = Map.empty, w_shutdown = False, w_done = False\<rparr>"

definition CreateWorker :: "protocol \<Rightarrow> WorkerConfig \<Rightarrow> worker" where
  "CreateWorker pr config = NewDefaultWorker pr config"

definition worker_Stats :: "PoolStats \<Rightarrow> worker \<Rightarrow> WorkerStats \<times> worker" where
  "worker_Stats poolStats w =
     (let w = w\<lparr>w_stats := (w_stats w)\<lparr>ws_ActiveTasks := po_BusyProcesses poolStats,
                                      ws_PoolStats := poolStats\<rparr>\<rparr>
      in (w_stats w, w))"

definition GetTaskInfo :: "string \<Rightarrow> worker \<Rightarrow> string + TaskInfo" where
  "GetTaskInfo i w = (case w_taskInfos w i of None \<Rightarrow> Inl (''task not found: '' @ i) | Some ti \<Rightarrow> Inr ti)"

text \<open>Closing the shutdown channel; closing it twice panics (\<open>None\<close>). The rest of \<open>Stop\<close> waits for
  \<open>w_done\<close> or its context.\<close>

definition worker_Stop :: "worker \<Rightarrow> worker option" where
  "worker_Stop w = (if w_shutdown w then None else Some (w\<lparr>w_shutdown := True\<rparr>))"

datatype stop_wait = StoppedInTime | StopTimeout

definition worker_Stop_wait :: "bool \<Rightarrow> worker \<Rightarrow> stop_wait option" where
  "worker_Stop_wait ctx_done w =
     (if w_done w then Some StoppedInTime else if ctx_done then Some StopTimeout else None)"

section \<open>Receiving and dispatching\<close>

definition upd_wstats :: "(WorkerStats \<Rightarrow> WorkerStats) \<Rightarrow> worker \<Rightarrow> worker" where
  "upd_wstats f w = w\<lparr>w_stats := f (w_stats w)\<rparr>"

definition upd_info :: "string \<Rightarrow> (TaskInfo \<Rightarrow> TaskInfo) \<Rightarrow> worker \<Rightarrow> worker" where
  "upd_info i f w = w\<lparr>w_taskInfos := (w_taskInfos w)
     (i \<mapsto> f (case w_taskInfos w i of None \<Rightarrow> zero_info | Some ti \<Rightarrow> ti))\<rparr>"

definition new_info :: "time \<Rightarrow> message \<Rightarrow> TaskPayload \<Rightarrow> TaskInfo" where
  "new_info now m p = zero_info
     \<lparr>ti_ID := tp_TaskID p, ti_Name := tp_TaskName p, ti_State := Some TaskStatePending,
      ti_Args := tp_Args p, ti_Kwargs := tp_Kwargs p, ti_Queue := tp_Queue p,
      ti_MessageGroupID := m_MessageGroupID m, ti_Retries := tp_Retries p, ti_ReceivedAt := now\<rparr>"

text \<open>The body of the loop over the messages: \<open>None\<close> when the message does not decode, else the
  payload for which a goroutine is started.\<close>

definition dispatch :: "time \<Rightarrow> message \<Rightarrow> worker \<Rightarrow> TaskPayload option \<times> worker" where
  "dispatch now m w =
     (case pr_DecodeTask (w_protocol w) (m_Body m) of
        Inl err \<Rightarrow> (None, w)
      | Inr p \<Rightarrow>
          let w = w\<lparr>w_taskInfos := (w_taskInfos w)(tp_TaskID p \<mapsto> new_info now m p)\<rparr>;
              w = upd_wstats (\<lambda>s. s\<lparr>ws_TasksReceived := ws_TasksReceived s + 1\<rparr>) w
          in (Some p, w))"

fun dispatch_all :: "time \<Rightarrow> message list \<Rightarrow> worker \<Rightarrow> (TaskPayload \<times> message) list \<times> worker" where
  "dispatch_all now [] w = ([], w)"
| "dispatch_all now (m # ms) w =
     (case dispatch now m w of
        (None, w) \<Rightarrow> dispatch_all now ms w
      | (Some p, w) \<Rightarrow> (case dispatch_all now ms w of (ts, w) \<Rightarrow> ((p, m) # ts, w)))"

text \<open>One call of \<open>processTasks\<close>, its goroutines not run: the error of the receive, or the tasks started.\<close>

definition processTasks ::
    "('e \<Rightarrow> int \<Rightarrow> 'b \<Rightarrow> ('err + message list) \<times> 'b) \<Rightarrow> 'e \<Rightarrow> time \<Rightarrow> worker \<times> 'b \<Rightarrow>
     ('err + (TaskPayload \<times> message) list) \<times> worker \<times> 'b" where
  "processTasks receive e now wb =
     (case wb of (w, b) \<Rightarrow>
        (case receive e (wc_QueuePrefetch (w_config w)) b of
           (Inl err, b) \<Rightarrow> (Inl err, w, b)
         | (Inr ms, b) \<Rightarrow> (case dispatch_all now ms w of (ts, w) \<Rightarrow> (Inr ts, w, b))))"

section \<open>Executing\<close>

definition start_task :: "time \<Rightarrow> TaskPayload \<Rightarrow> worker \<Rightarrow> worker" where
  "start_task now p = upd_info (tp_TaskID p)
     (\<lambda>ti. ti\<lparr>ti_State := Some TaskStateRunning, ti_StartedAt := now\<rparr>)"

definition fail_task :: "time \<Rightarrow> string \<Rightarrow> TaskPayload \<Rightarrow> worker \<Rightarrow> worker" where
  "fail_task now err p = upd_info (tp_TaskID p)
     (\<lambda>ti. ti\<lparr>ti_State := Some TaskStateError, ti_Error := err, ti_CompletedAt := now\<rparr>)"

definition set_failed :: "int \<Rightarrow> worker \<Rightarrow> worker" where
  "set_failed n = upd_wstats (\<lambda>s. s\<lparr>ws_TasksFailed := n\<rparr>)"

definition finish_task :: "time \<Rightarrow> ResultPayload \<Rightarrow> TaskPayload \<Rightarrow> worker \<Rightarrow> worker" where
  "finish_task now r p w =
     (if rp_Status r = ''success''
      then upd_wstats (\<lambda>s. s\<lparr>ws_TasksSucceeded := ws_TasksSucceeded s + 1\<rparr>)
             (upd_info (tp_TaskID p) (\<lambda>ti. ti\<lparr>ti_CompletedAt := now, ti_Result := rp_Result r,
                ti_State := Some TaskStateSuccess\<rparr>) w)
      else upd_wstats (\<lambda>s. s\<lparr>ws_TasksFailed := ws_TasksFailed s + 1\<rparr>)
             (upd_info (tp_TaskID p) (\<lambda>ti. ti\<lparr>ti_CompletedAt := now, ti_Result := rp_Result r,
                ti_State := Some TaskStateError, ti_Error := rp_Error r,
                ti_Traceback := rp_Traceback r\<rparr>) w))"

text \<open>\<open>executeTask\<close> run without interruption. An error of the acknowledgement is only logged.\<close>

definition executeTask ::
    "('e \<Rightarrow> message \<Rightarrow> 'b \<Rightarrow> 'err option \<times> 'b) \<Rightarrow> 'e \<Rightarrow> time \<Rightarrow> time \<Rightarrow> string + ResultPayload \<Rightarrow>
     TaskPayload \<Rightarrow> message \<Rightarrow> worker \<times> 'b \<Rightarrow> worker \<times> 'b" where
  "executeTask ack e t1 t2 res p m wb =
     (case wb of (w, b) \<Rightarrow>
        let w = start_task t1 p w;
            w = (case res of
                   Inl err \<Rightarrow> (let w = fail_task t2 err p w
                               in set_failed (ws_TasksFailed (w_stats w) + 1) w)
                 | Inr r \<Rightarrow> finish_task t2 r p w)
        in (w, snd (ack e m b)))"

section \<open>The worker with its goroutines\<close>

datatype phase = Starting | Executing | Failed | FailedRead int | Acking

type_synonym task_goroutine = "TaskPayload \<times> message \<times> phase"

text \<open>The context the worker was started with: the receiving loop checks it, and every call of the
  broker, by the loop and by the goroutines, gets it. What a call observes may depend on the context
  it got, so an action carries it as a function of the context.\<close>

datatype ctx = CtxLive | CtxCanceled

type_synonym 'e under_ctx = "ctx \<Rightarrow> 'e"

text \<open>\<open>y_polling\<close>: the loop has checked its context and its shutdown channel and is inside
  \<open>ReceiveMessages\<close>, with no message left. \<open>y_received\<close>, \<open>y_dropped\<close>, \<open>y_acked\<close> and \<open>y_refused\<close> only record what
  happened: a message is in \<open>y_acked\<close> when \<open>AcknowledgeMessage\<close> returned no error for it, in
  \<open>y_refused\<close> when it returned an error, which is only logged.\<close>

record 'b sys =
  y_worker :: worker
  y_broker :: 'b
  y_pending :: "message list"
  y_jobs :: "task_goroutine list"
  y_cancelled :: bool
  y_polling :: bool
  y_received :: "message list"
  y_dropped :: "message list"
  y_acked :: "message list"
  y_refused :: "message list"

datatype 'e action =
    BeginPoll
  | EndPoll "'e under_ctx"
  | Dispatch time
  | BeginTask nat time
  | EndTask nat time "string + ResultPayload"
  | ReadFailed nat
  | StoreFailed nat
  | Acknowledge nat "'e under_ctx"
  | Shutdown
  | Cancel
  | ExitLoop

definition loop_ctx :: "'b sys \<Rightarrow> ctx" where
  [worker_defs]: "loop_ctx s = (if y_cancelled s then CtxCanceled else CtxLive)"

definition set_job :: "nat \<Rightarrow> task_goroutine \<Rightarrow> worker \<Rightarrow> 'b sys \<Rightarrow> 'b sys" where
  [worker_defs]: "set_job k j w s = s\<lparr>y_worker := w, y_jobs := (y_jobs s)[k := j]\<rparr>"

definition end_job :: "nat \<Rightarrow> 'b sys \<Rightarrow> 'b sys" where
  [worker_defs]: "end_job k s = s\<lparr>y_jobs := take k (y_jobs s) @ drop (Suc k) (y_jobs s)\<rparr>"

definition job_step ::
    "nat \<Rightarrow> 'b sys \<Rightarrow> (TaskPayload \<Rightarrow> message \<Rightarrow> phase \<Rightarrow> 'b sys option) \<Rightarrow> 'b sys option" where
  "job_step k s f = (if k < length (y_jobs s) then (case y_jobs s ! k of (p, m, ph) \<Rightarrow> f p m ph) else None)"

text \<open>The critical sections. The loop checks (\<open>BeginPoll\<close>), then receives (\<open>EndPoll\<close>): a signal or a
  shutdown may come in between. The receive itself is one step.\<close>

definition wstep ::
    "('e \<Rightarrow> int \<Rightarrow> 'b \<Rightarrow> ('err + message list) \<times> 'b) \<Rightarrow> ('e \<Rightarrow> message \<Rightarrow> 'b \<Rightarrow> 'err option \<times> 'b) \<Rightarrow>
     'e action \<Rightarrow> 'b sys \<Rightarrow> 'b sys option" where
  "wstep receive ack a s =
     (let w = y_worker s in
      case a of
        BeginPoll \<Rightarrow>
          if w_shutdown w \<or> y_cancelled s \<or> w_done w \<or> y_polling s \<or> y_pending s \<noteq> [] then None
          else Some (s\<lparr>y_polling := True\<rparr>)
      | EndPoll e \<Rightarrow>
          if \<not> y_polling s \<or> y_pending s \<noteq> [] then None
          else (case receive (e (loop_ctx s)) (wc_QueuePrefetch (w_config w)) (y_broker s) of
                  (Inl err, b) \<Rightarrow> Some (s\<lparr>y_polling := False, y_broker := b\<rparr>)
                | (Inr ms, b) \<Rightarrow>
                    Some (s\<lparr>y_polling := False, y_broker := b, y_pending := ms,
                            y_received := y_received s @ ms\<rparr>))
      | Dispatch now \<Rightarrow>
          (case y_pending s of
             [] \<Rightarrow> None
           | m # ms \<Rightarrow>
               (case dispatch now m w of
                  (None, w) \<Rightarrow> Some (s\<lparr>y_worker := w, y_pending := ms, y_dropped := y_dropped s @ [m]\<rparr>)
                | (Some p, w) \<Rightarrow>
                    Some (s\<lparr>y_worker := w, y_pending := ms, y_jobs := y_jobs s @ [(p, m, Starting)]\<rparr>)))
      | BeginTask k now \<Rightarrow> job_step k s (\<lambda>p m ph.
          if ph = Starting then Some (set_job k (p, m, Executing) (start_task now p w) s) else None)
      | EndTask k now res \<Rightarrow> job_step k s (\<lambda>p m ph.
          if ph \<noteq> Executing then None
          else case res of
            Inl err \<Rightarrow> Some (set_job k (p, m, Failed) (fail_task now err p w) s)
          | Inr r \<Rightarrow> Some (set_job k (p, m, Acking) (finish_task now r p w) s))
      | ReadFailed k \<Rightarrow> job_step k s (\<lambda>p m ph.
          if ph = Failed then Some (set_job k (p, m, FailedRead (ws_TasksFailed (w_stats w))) w s) else None)
      | StoreFailed k \<Rightarrow> job_step k s (\<lambda>p m ph.
          case ph of FailedRead n \<Rightarrow> Some (set_job k (p, m, Acking) (set_failed (n + 1) w) s) | _ \<Rightarrow> None)
      | Acknowledge k e \<Rightarrow> job_step k s (\<lambda>p m ph.
          if ph = Acking
          then (case ack (e (loop_ctx s)) m (y_broker s) of
                  (None, b) \<Rightarrow> Some (end_job k (s\<lparr>y_broker := b, y_acked := y_acked s @ [m]\<rparr>))
                | (Some err, b) \<Rightarrow> Some (end_job k (s\<lparr>y_broker := b, y_refused := y_refused s @ [m]\<rparr>)))
          else None)
      | Shutdown \<Rightarrow> map_option (\<lambda>w. s\<lparr>y_worker := w\<rparr>) (worker_Stop w)
      | Cancel \<Rightarrow> Some (s\<lparr>y_cancelled := True\<rparr>)
      | ExitLoop \<Rightarrow>
          if (w_shutdown w \<or> y_cancelled s) \<and> \<not> w_done w \<and> \<not> y_polling s \<and> y_pending s = []
          then Some (s\<lparr>y_worker := w\<lparr>w_done := True\<rparr>\<rparr>)
          else None)"

definition boot :: "protocol \<Rightarrow> WorkerConfig \<Rightarrow> 'b \<Rightarrow> 'b sys" where
  "boot pr c b = \<lparr>y_worker = CreateWorker pr c, y_broker = b, y_pending = [], y_jobs = [],
     y_cancelled = False, y_polling = False, y_received = [], y_dropped = [], y_acked = [], y_refused = []\<rparr>"

fun wrun ::
    "('e \<Rightarrow> int \<Rightarrow> 'b \<Rightarrow> ('err + message list) \<times> 'b) \<Rightarrow> ('e \<Rightarrow> message \<Rightarrow> 'b \<Rightarrow> 'err option \<times> 'b) \<Rightarrow>
     'e action list \<Rightarrow> 'b sys \<Rightarrow> 'b sys option" where
  "wrun receive ack [] s = Some s"
| "wrun receive ack (a # as) s =
     (case wstep receive ack a s of None \<Rightarrow> None | Some s' \<Rightarrow> wrun receive ack as s')"

end
