(* ===== verification/WorkerLemmas.thy ===== *)
theory WorkerLemmas
  imports Worker "HOL-Library.Multiset"
begin

text \<open>
  The worker with its goroutines as a transition system: what a step does, and the invariants
  on messages, counters and groups. The lemmas about groups are proved for every broker that
  keeps the contract \<open>group_broker\<close>.
\<close>

section \<open>Frames\<close>

lemma upd_wstats_frame [simp]:
  "w_taskInfos (upd_wstats f w) = w_taskInfos w" "w_config (upd_wstats f w) = w_config w"
  "w_protocol (upd_wstats f w) = w_protocol w" "w_shutdown (upd_wstats f w) = w_shutdown w"
  "w_done (upd_wstats f w) = w_done w" "w_stats (upd_wstats f w) = f (w_stats w)"
  by (simp_all add: upd_wstats_def)

lemma upd_info_frame [simp]:
  "w_stats (upd_info i f w) = w_stats w" "w_config (upd_info i f w) = w_config w"
  "w_protocol (upd_info i f w) = w_protocol w" "w_shutdown (upd_info i f w) = w_shutdown w"
  "w_done (upd_info i f w) = w_done w"
  "w_taskInfos (upd_info i f w) j = (if j = i
     then Some (f (case w_taskInfos w i of None \<Rightarrow> zero_info | Some ti \<Rightarrow> ti)) else w_taskInfos w j)"
  by (simp_all add: upd_info_def)

lemmas section_defs = start_task_def fail_task_def finish_task_def set_failed_def

lemma sections_frame [simp]:
  "w_config (start_task t p w) = w_config w" "w_config (fail_task t er p w) = w_config w"
  "w_config (finish_task t r p w) = w_config w" "w_config (set_failed n w) = w_config w"
  "w_protocol (start_task t p w) = w_protocol w" "w_protocol (fail_task t er p w) = w_protocol w"
  "w_protocol (finish_task t r p w) = w_protocol w" "w_protocol (set_failed n w) = w_protocol w"
  "w_stats (start_task t p w) = w_stats w" "w_stats (fail_task t er p w) = w_stats w"
  by (simp_all add: section_defs)

lemma dispatch_cases:
  obtains (dropped) err where "pr_DecodeTask (w_protocol w) (m_Body m) = Inl err" "dispatch now m w = (None, w)"
  | (started) p where "pr_DecodeTask (w_protocol w) (m_Body m) = Inr p"
      "dispatch now m w = (Some p, upd_wstats (\<lambda>s. s\<lparr>ws_TasksReceived := ws_TasksReceived s + 1\<rparr>)
         (w\<lparr>w_taskInfos := (w_taskInfos w)(tp_TaskID p \<mapsto> new_info now m p)\<rparr>))"
  by (cases "pr_DecodeTask (w_protocol w) (m_Body m)") (simp_all add: dispatch_def)

section \<open>The steps\<close>

lemma job_step_cases:
  assumes "job_step k s f = Some s'"
  obtains p m ph where "k < length (y_jobs s)" "y_jobs s ! k = (p, m, ph)" "f p m ph = Some s'"
  using assms by (cases "y_jobs s ! k") (auto simp: job_step_def split: if_splits)

lemma wstep_cases [consumes 1]:
  assumes "wstep receive ack a s = Some s'"
  obtains
    (polling) "a = BeginPoll" "\<not> w_shutdown (y_worker s)" "\<not> y_cancelled s" "\<not> y_polling s" "y_pending s = []"
      "s' = s\<lparr>y_polling := True\<rparr>"
  | (failed) e err b where "a = EndPoll e" "y_polling s"
      "receive (e (loop_ctx s)) (wc_QueuePrefetch (w_config (y_worker s))) (y_broker s) = (Inl err, b)"
      "s' = s\<lparr>y_polling := False, y_broker := b\<rparr>"
  | (polled) e ms b where "a = EndPoll e" "y_polling s" "y_pending s = []"
      "receive (e (loop_ctx s)) (wc_QueuePrefetch (w_config (y_worker s))) (y_broker s) = (Inr ms, b)"
      "s' = s\<lparr>y_polling := False, y_broker := b, y_pending := ms, y_received := y_received s @ ms\<rparr>"
  | (dropped) now m ms err where "a = Dispatch now" "y_pending s = m # ms"
      "pr_DecodeTask (w_protocol (y_worker s)) (m_Body m) = Inl err"
      "s' = s\<lparr>y_pending := ms, y_dropped := y_dropped s @ [m]\<rparr>"
  | (started) now m ms p where "a = Dispatch now" "y_pending s = m # ms"
      "pr_DecodeTask (w_protocol (y_worker s)) (m_Body m) = Inr p"
      "s' = s\<lparr>y_worker := upd_wstats (\<lambda>s. s\<lparr>ws_TasksReceived := ws_TasksReceived s + 1\<rparr>)
         ((y_worker s)\<lparr>w_taskInfos := (w_taskInfos (y_worker s))(tp_TaskID p \<mapsto> new_info now m p)\<rparr>),
         y_pending := ms, y_jobs := y_jobs s @ [(p, m, Starting)]\<rparr>"
  | (begun) k now p m where "a = BeginTask k now" "k < length (y_jobs s)" "y_jobs s ! k = (p, m, Starting)"
      "s' = set_job k (p, m, Executing) (start_task now p (y_worker s)) s"
  | (pool_error) k now err p m where "a = EndTask k now (Inl err)" "k < length (y_jobs s)" "y_jobs s ! k = (p, m, Executing)"
      "s' = set_job k (p, m, Failed) (fail_task now err p (y_worker s)) s"
  | (result) k now r p m where "a = EndTask k now (Inr r)" "k < length (y_jobs s)" "y_jobs s ! k = (p, m, Executing)"
      "s' = set_job k (p, m, Acking) (finish_task now r p (y_worker s)) s"
  | (read) k p m where "a = ReadFailed k" "k < length (y_jobs s)" "y_jobs s ! k = (p, m, Failed)"
      "s' = set_job k (p, m, FailedRead (ws_TasksFailed (w_stats (y_worker s)))) (y_worker s) s"
  | (stored) k n p m where "a = StoreFailed k" "k < length (y_jobs s)" "y_jobs s ! k = (p, m, FailedRead n)"
      "s' = set_job k (p, m, Acking) (set_failed (n + 1) (y_worker s)) s"
  | (acked) k e p m b where "a = Acknowledge k e" "k < length (y_jobs s)" "y_jobs s ! k = (p, m, Acking)"
      "ack (e (loop_ctx s)) m (y_broker s) = (None, b)"
      "s' = s\<lparr>y_broker := b, y_jobs := take k (y_jobs s) @ drop (Suc k) (y_jobs s), y_acked := y_acked s @ [m]\<rparr>"
  | (refused) k e p m err b where "a = Acknowledge k e" "k < length (y_jobs s)" "y_jobs s ! k = (p, m, Acking)"
      "ack (e (loop_ctx s)) m (y_broker s) = (Some err, b)"
      "s' = s\<lparr>y_broker := b, y_jobs := take k (y_jobs s) @ drop (Suc k) (y_jobs s), y_refused := y_refused s @ [m]\<rparr>"
  | (shut) "a = Shutdown" "\<not> w_shutdown (y_worker s)" "s' = s\<lparr>y_worker := (y_worker s)\<lparr>w_shutdown := True\<rparr>\<rparr>"
  | (cancelled) "a = Cancel" "s' = s\<lparr>y_cancelled := True\<rparr>"
  | (ended) "a = ExitLoop" "w_shutdown (y_worker s) \<or> y_cancelled s" "\<not> y_polling s" "y_pending s = []" "s' = s\<lparr>y_worker := (y_worker s)\<lparr>w_done := True\<rparr>\<rparr>"
proof (cases a)
  case BeginPoll
  with assms show ?thesis by (auto simp: wstep_def Let_def split: if_splits intro: polling)
next
  case (EndPoll e)
  with assms show ?thesis
    by (auto simp: wstep_def Let_def split: if_splits prod.splits sum.splits intro: failed polled)
next
  case (Dispatch now)
  show ?thesis
  proof (cases "y_pending s")
    case Nil
    with Dispatch assms show ?thesis by (simp add: wstep_def)
  next
    case (Cons m ms)
    show ?thesis
    proof (cases rule: dispatch_cases [of "y_worker s" m now])
      case (dropped err)
      with Dispatch Cons assms that(4) show ?thesis by (auto simp: wstep_def)
    next
      case (started p)
      with Dispatch Cons assms that(5) show ?thesis by (auto simp: wstep_def)
    qed
  qed
next
  case (BeginTask k now)
  with assms obtain p m ph where k: "k < length (y_jobs s)" "y_jobs s ! k = (p, m, ph)" "ph = Starting"
    "s' = set_job k (p, m, Executing) (start_task now p (y_worker s)) s"
    by (auto simp: wstep_def Let_def elim!: job_step_cases split: if_splits)
  show ?thesis by (rule begun [OF BeginTask k(1) k(2) [unfolded k(3)] k(4)])
next
  case (EndTask k now res)
  show ?thesis
  proof (cases res)
    case (Inl err)
    with assms EndTask obtain p m ph where k: "k < length (y_jobs s)" "y_jobs s ! k = (p, m, ph)" "ph = Executing"
      "s' = set_job k (p, m, Failed) (fail_task now err p (y_worker s)) s"
      by (auto simp: wstep_def Let_def elim!: job_step_cases split: if_splits)
    show ?thesis by (rule pool_error [OF EndTask [unfolded Inl] k(1) k(2) [unfolded k(3)] k(4)])
  next
    case (Inr r)
    with assms EndTask obtain p m ph where k: "k < length (y_jobs s)" "y_jobs s ! k = (p, m, ph)" "ph = Executing"
      "s' = set_job k (p, m, Acking) (finish_task now r p (y_worker s)) s"
      by (auto simp: wstep_def Let_def elim!: job_step_cases split: if_splits)
    show ?thesis by (rule result [OF EndTask [unfolded Inr] k(1) k(2) [unfolded k(3)] k(4)])
  qed
next
  case (ReadFailed k)
  with assms obtain p m ph where k: "k < length (y_jobs s)" "y_jobs s ! k = (p, m, ph)" "ph = Failed"
    "s' = set_job k (p, m, FailedRead (ws_TasksFailed (w_stats (y_worker s)))) (y_worker s) s"
    by (auto simp: wstep_def Let_def elim!: job_step_cases split: if_splits)
  show ?thesis by (rule read [OF ReadFailed k(1) k(2) [unfolded k(3)] k(4)])
next
  case (StoreFailed k)
  with assms obtain p m ph n where k: "k < length (y_jobs s)" "y_jobs s ! k = (p, m, ph)" "ph = FailedRead n"
    "s' = set_job k (p, m, Acking) (set_failed (n + 1) (y_worker s)) s"
    by (auto simp: wstep_def Let_def elim!: job_step_cases split: phase.splits)
  show ?thesis by (rule stored [OF StoreFailed k(1) k(2) [unfolded k(3)] k(4)])
next
  case (Acknowledge k e)
  with assms obtain p m where k: "k < length (y_jobs s)" "y_jobs s ! k = (p, m, Acking)"
    by (auto simp: wstep_def Let_def elim!: job_step_cases split: if_splits)
  obtain r b where r: "ack (e (loop_ctx s)) m (y_broker s) = (r, b)" by fastforce
  show ?thesis
  proof (cases r)
    case None
    with assms Acknowledge k r show ?thesis
      by (intro acked [OF Acknowledge k, of b]) (auto simp: wstep_def job_step_def end_job_def Let_def)
  next
    case (Some err)
    with assms Acknowledge k r show ?thesis
      by (intro refused [OF Acknowledge k, of err b]) (auto simp: wstep_def job_step_def end_job_def Let_def)
  qed
next
  case Shutdown
  with assms have "\<not> w_shutdown (y_worker s)" "s' = s\<lparr>y_worker := (y_worker s)\<lparr>w_shutdown := True\<rparr>\<rparr>"
    by (auto simp: wstep_def Let_def worker_Stop_def split: if_splits)
  with Shutdown show ?thesis by (rule shut)
next
  case Cancel
  with assms have "s' = s\<lparr>y_cancelled := True\<rparr>" by (simp add: wstep_def)
  with Cancel show ?thesis by (rule cancelled)
next
  case ExitLoop
  with assms have "w_shutdown (y_worker s) \<or> y_cancelled s" "\<not> y_polling s" "y_pending s = []" "s' = s\<lparr>y_worker := (y_worker s)\<lparr>w_done := True\<rparr>\<rparr>"
    by (auto simp: wstep_def Let_def split: if_splits)
  with ExitLoop show ?thesis by (rule ended)
qed

lemma wrun_induct [consumes 2, case_names step]:
  assumes "wrun receive ack as s = Some s'" "P s"
    "\<And>a s s'. wstep receive ack a s = Some s' \<Longrightarrow> P s \<Longrightarrow> P s'"
  shows "P s'"
  using assms(1,2)
  by (induction as arbitrary: s) (auto split: option.splits intro: assms(3))

section \<open>No message is lost between receiving and acknowledging\<close>

text \<open>The messages whose goroutine is gone.\<close>

definition gone :: "'b sys \<Rightarrow> message list" where
  "gone s = y_acked s @ y_refused s"

abbreviation job_message :: "task_goroutine \<Rightarrow> message" where
  "job_message j \<equiv> fst (snd j)"

definition conserved :: "'b sys \<Rightarrow> bool" where
  "conserved s \<longleftrightarrow> mset (y_received s) =
     mset (y_pending s) + mset (y_dropped s) + mset (map job_message (y_jobs s)) + mset (gone s)"

lemma mset_map_update:
  "k < length xs \<Longrightarrow> f y = f (xs ! k) \<Longrightarrow> mset (map f (xs[k := y])) = mset (map f xs)"
  by (metis list_update_id map_update)

lemma mset_map_delete:
  "k < length xs \<Longrightarrow> mset (map f xs) = mset (map f (take k xs @ drop (Suc k) xs)) + {#f (xs ! k)#}"
  by (subst id_take_nth_drop [of k xs]) simp_all

lemma wstep_conserved:
  assumes "wstep receive ack a s = Some s'" "conserved s"
  shows "conserved s'"
  using assms(1)
proof (cases rule: wstep_cases)
  case (acked k e p m)
  with assms(2) mset_map_delete [of k "y_jobs s" job_message] show ?thesis
    by (simp add: conserved_def gone_def)
next
  case (refused k e p m)
  with assms(2) mset_map_delete [of k "y_jobs s" job_message] show ?thesis
    by (simp add: conserved_def gone_def)
qed (use assms(2) in \<open>auto simp: conserved_def gone_def set_job_def mset_map_update simp del: mset_map\<close>)

section \<open>Counters\<close>

text \<open>The goroutines whose outcome is counted: those that acknowledge, and those that are gone.\<close>

definition counted :: "'b sys \<Rightarrow> int" where
  "counted s = int (length (filter (\<lambda>j. snd (snd j) = Acking) (y_jobs s)) + length (gone s))"

definition stats_ok :: "'b sys \<Rightarrow> bool" where
  "stats_ok s \<longleftrightarrow> (let st = w_stats (y_worker s) in
     ws_TasksReceived st = int (length (y_jobs s) + length (gone s)) \<and>
     ws_TasksSucceeded st + ws_TasksFailed st \<le> counted s \<and>
     (\<forall>j \<in> set (y_jobs s). \<forall>n. snd (snd j) = FailedRead n \<longrightarrow> n + ws_TasksSucceeded st \<le> counted s) \<and>
     ws_TasksRetried st = 0)"

lemma counted_update:
  assumes "k < length (y_jobs s)" "y_jobs s ! k = (p, m, ph)" "ph \<noteq> Acking"
  shows "counted (set_job k (p', m', ph') w s) = counted s + (if ph' = Acking then 1 else 0)"
proof -
  have *: "length (filter P (xs[k := y])) + (if P (xs ! k) then 1 else 0) =
      length (filter P xs) + (if P y then 1 else 0)" if "k < length xs" for P k y and xs :: "'x list"
    using that
  proof (induction xs arbitrary: k)
    case (Cons x xs)
    then show ?case by (cases k) auto
  qed simp
  from * [OF assms(1), of "\<lambda>j. snd (snd j) = Acking" "(p', m', ph')"] assms(2,3) show ?thesis
    by (simp add: counted_def set_job_def gone_def)
qed

lemma set_job_stats:
  assumes "stats_ok s" "k < length (y_jobs s)" "y_jobs s ! k = (p, m, ph)" "ph \<noteq> Acking"
    "ws_TasksReceived (w_stats w) = ws_TasksReceived (w_stats (y_worker s))"
    "ws_TasksRetried (w_stats w) = ws_TasksRetried (w_stats (y_worker s))"
    "ws_TasksSucceeded (w_stats w) \<le> ws_TasksSucceeded (w_stats (y_worker s)) + (if ph' = Acking then 1 else 0)"
    "ws_TasksSucceeded (w_stats w) + ws_TasksFailed (w_stats w) \<le> counted s + (if ph' = Acking then 1 else 0)"
    "\<And>n. ph' = FailedRead n \<Longrightarrow> n + ws_TasksSucceeded (w_stats w) \<le> counted s"
  shows "stats_ok (set_job k (p, m, ph') w s)"
proof -
  have c: "counted (set_job k (p, m, ph') w s) = counted s + (if ph' = Acking then 1 else 0)"
    by (rule counted_update [OF assms(2-4)])
  have "n + ws_TasksSucceeded (w_stats w) \<le> counted s + (if ph' = Acking then 1 else 0)"
    if "j \<in> set ((y_jobs s)[k := (p, m, ph')])" "snd (snd j) = FailedRead n" for j n
  proof -
    from that(1) have "j = (p, m, ph') \<or> j \<in> set (y_jobs s)"
      using set_update_subset_insert by fastforce
    then show ?thesis
    proof
      assume "j = (p, m, ph')"
      with assms(9) [of n] that(2) show ?thesis by simp
    next
      assume "j \<in> set (y_jobs s)"
      with assms(1) that(2) have "n + ws_TasksSucceeded (w_stats (y_worker s)) \<le> counted s"
        by (auto simp: stats_ok_def Let_def)
      with assms(7) show ?thesis by linarith
    qed
  qed
  with assms(1,5,6,8) show ?thesis
    unfolding stats_ok_def Let_def c by (simp add: set_job_def gone_def)
qed

text \<open>The end of a goroutine, whatever the acknowledgement answers.\<close>

lemma gone_stats:
  assumes ok: "stats_ok s" and k: "k < length (y_jobs s)" "y_jobs s ! k = (p, m, Acking)"
    and s': "y_worker s' = y_worker s" "y_jobs s' = take k (y_jobs s) @ drop (Suc k) (y_jobs s)"
      "length (gone s') = Suc (length (gone s))"
  shows "stats_ok s'"
proof -
  let ?js = "take k (y_jobs s) @ drop (Suc k) (y_jobs s)"
  have "length (filter (\<lambda>j. snd (snd j) = Acking) (y_jobs s)) = Suc (length (filter (\<lambda>j. snd (snd j) = Acking) ?js))"
    using k by (subst id_take_nth_drop [of k "y_jobs s"]) simp_all
  then have "counted s' = counted s" using s' by (simp add: counted_def)
  moreover have "set ?js \<subseteq> set (y_jobs s)" by (auto dest: in_set_takeD in_set_dropD)
  moreover have "int (length ?js + length (gone s')) = int (length (y_jobs s) + length (gone s))"
    using k(1) s'(3) by simp
  ultimately show ?thesis
    using ok unfolding stats_ok_def Let_def s'(1,2) by (simp only:) blast
qed

lemma wstep_stats:
  assumes "wstep receive ack a s = Some s'" and ok: "stats_ok s"
  shows "stats_ok s'"
  using assms(1)
proof (cases rule: wstep_cases)
  case (begun k now p m)
  show ?thesis unfolding begun(4)
    by (rule set_job_stats [OF ok begun(2,3)]) (use ok in \<open>simp_all add: stats_ok_def Let_def\<close>)
next
  case (pool_error k now err p m)
  show ?thesis unfolding pool_error(4)
    by (rule set_job_stats [OF ok pool_error(2,3)]) (use ok in \<open>simp_all add: stats_ok_def Let_def\<close>)
next
  case (result k now r p m)
  show ?thesis unfolding result(4)
    by (rule set_job_stats [OF ok result(2,3)]) (use ok in \<open>simp_all add: stats_ok_def Let_def finish_task_def\<close>)
next
  case (read k p m)
  show ?thesis unfolding read(4)
    by (rule set_job_stats [OF ok read(2,3)]) (use ok in \<open>simp_all add: stats_ok_def Let_def\<close>)
next
  case (stored k n p m)
  have "(p, m, FailedRead n) \<in> set (y_jobs s)" using stored(2,3) nth_mem by metis
  with ok have "n + ws_TasksSucceeded (w_stats (y_worker s)) \<le> counted s"
    by (fastforce simp: stats_ok_def Let_def)
  then show ?thesis unfolding stored(4)
    by (intro set_job_stats [OF ok stored(2,3)]) (simp_all add: set_failed_def)
next
  case (acked k e p m b)
  then show ?thesis by (intro gone_stats [OF ok acked(2,3)]) (simp_all add: gone_def)
next
  case (refused k e p m err b)
  then show ?thesis by (intro gone_stats [OF ok refused(2,3)]) (simp_all add: gone_def)
next
  case (started now m ms p)
  have "counted s' = counted s" using started(4) by (simp add: counted_def gone_def)
  then show ?thesis using ok unfolding stats_ok_def Let_def by (auto simp: started(4) gone_def)
qed (use ok in \<open>simp_all add: stats_ok_def Let_def counted_def gone_def\<close>)

section \<open>The life of a task\<close>

fun task_ids :: "protocol \<Rightarrow> message list \<Rightarrow> string list" where
  "task_ids pr [] = []"
| "task_ids pr (m # ms) =
     (case pr_DecodeTask pr (m_Body m) of Inl _ \<Rightarrow> task_ids pr ms | Inr p \<Rightarrow> tp_TaskID p # task_ids pr ms)"

lemma task_ids_append [simp]: "task_ids pr (xs @ ys) = task_ids pr xs @ task_ids pr ys"
  by (induction xs) (auto split: sum.split)

lemma mset_task_ids: "mset xs = mset ys \<Longrightarrow> mset (task_ids pr xs) = mset (task_ids pr ys)"
proof -
  have "mset (task_ids pr zs) =
      \<Sum>\<^sub># (image_mset (\<lambda>m. mset (task_ids pr [m])) (mset zs))" for zs
    by (induction zs) (auto split: sum.split)
  then show "mset xs = mset ys \<Longrightarrow> mset (task_ids pr xs) = mset (task_ids pr ys)" by simp
qed

text \<open>The tasks that were started, with the phase of their goroutine; one that is gone has
  passed the last phase.\<close>

definition tasks :: "'b sys \<Rightarrow> (string \<times> phase) list" where
  "tasks s = map (\<lambda>(p, m, ph). (tp_TaskID p, ph)) (y_jobs s) @
     map (\<lambda>i. (i, Acking)) (task_ids (w_protocol (y_worker s)) (gone s))"

fun phase_state :: "phase \<Rightarrow> TaskState \<Rightarrow> bool" where
  "phase_state Starting st = (st = TaskStatePending)"
| "phase_state Executing st = (st = TaskStateRunning)"
| "phase_state Acking st = (st = TaskStateSuccess \<or> st = TaskStateError)"
| "phase_state _ st = (st = TaskStateError)"

definition recorded :: "worker \<Rightarrow> string \<times> phase \<Rightarrow> bool" where
  "recorded w t \<longleftrightarrow> (\<exists>ti st. w_taskInfos w (fst t) = Some ti \<and> ti_State ti = Some st \<and> phase_state (snd t) st)"

definition life_ok :: "'b sys \<Rightarrow> bool" where
  "life_ok s \<longleftrightarrow>
     (\<forall>(p, m, ph) \<in> set (y_jobs s). pr_DecodeTask (w_protocol (y_worker s)) (m_Body m) = Inr p) \<and>
     mset (task_ids (w_protocol (y_worker s)) (y_received s)) =
       mset (map fst (tasks s)) + mset (task_ids (w_protocol (y_worker s)) (y_pending s)) \<and>
     (\<forall>t \<in> set (tasks s). recorded (y_worker s) t)"

lemma wstep_received: "wstep receive ack a s = Some s' \<Longrightarrow> \<exists>ms. y_received s' = y_received s @ ms"
  by (erule wstep_cases) (auto simp: set_job_def)

lemma wstep_protocol: "wstep receive ack a s = Some s' \<Longrightarrow> w_protocol (y_worker s') = w_protocol (y_worker s)"
  by (erule wstep_cases) (auto simp: set_job_def)

lemma recorded_other:
  "(\<And>j. j \<noteq> i \<Longrightarrow> w_taskInfos w' j = w_taskInfos w j) \<Longrightarrow> fst t \<noteq> i \<Longrightarrow> recorded w' t = recorded w t"
  by (simp add: recorded_def)

text \<open>A section of goroutine \<open>k\<close> changes only the record of its own task.\<close>

lemma life_ok_set_job:
  assumes "life_ok s" "distinct (map fst (tasks s))" "k < length (y_jobs s)" "y_jobs s ! k = (p, m, ph)"
    "w_protocol w = w_protocol (y_worker s)"
    "\<And>j. j \<noteq> tp_TaskID p \<Longrightarrow> w_taskInfos w j = w_taskInfos (y_worker s) j"
    "recorded w (tp_TaskID p, ph')"
  shows "life_ok (set_job k (p, m, ph') w s)"
proof -
  let ?s = "set_job k (p, m, ph') w s"
  let ?f = "\<lambda>(p, m, ph). (tp_TaskID p, ph :: phase)"
  have k: "k < length (tasks s)" "tasks s ! k = (tp_TaskID p, ph)"
    using assms(3,4) by (simp_all add: tasks_def nth_append)
  have t: "tasks ?s = (tasks s)[k := (tp_TaskID p, ph')]"
    using assms(3,5) by (simp add: tasks_def gone_def set_job_def map_update list_update_append)
  then have "map fst (tasks ?s) = map fst (tasks s)"
    using k by (simp add: map_update list_update_same_conv)
  moreover have "recorded w x" if "x \<in> set (tasks ?s)" for x
  proof -
    from that t obtain l where l: "l < length (tasks s)" "x = (tasks s)[k := (tp_TaskID p, ph')] ! l"
      by (metis in_set_conv_nth length_list_update)
    show ?thesis
    proof (cases "l = k")
      case True
      with l k assms(7) show ?thesis by simp
    next
      case False
      then have x: "x = tasks s ! l" using l by simp
      have "map fst (tasks s) ! l \<noteq> map fst (tasks s) ! k"
        using nth_eq_iff_index_eq [OF assms(2), of l k] l(1) k(1) False by simp
      with x l(1) k have "fst x \<noteq> tp_TaskID p" by simp
      moreover have "recorded (y_worker s) x"
        using assms(1) x l(1) unfolding life_ok_def by simp
      ultimately show ?thesis using recorded_other [of "tp_TaskID p" w "y_worker s" x] assms(6) by blast
    qed
  qed
  moreover have "set (y_jobs ?s) \<subseteq> insert (p, m, ph') (set (y_jobs s))"
    by (simp add: set_job_def set_update_subset_insert)
  moreover have "pr_DecodeTask (w_protocol (y_worker s)) (m_Body m) = Inr p"
    using assms(1,3,4) nth_mem [OF assms(3)] by (auto simp: life_ok_def)
  ultimately show ?thesis
    using assms(1,5) unfolding life_ok_def by (auto simp: set_job_def)
qed

lemma life_ok_distinct:
  assumes "life_ok s" "distinct (task_ids (w_protocol (y_worker s)) (y_received s))"
  shows "distinct (map fst (tasks s) @ task_ids (w_protocol (y_worker s)) (y_pending s))"
proof -
  have "mset (map fst (tasks s) @ task_ids (w_protocol (y_worker s)) (y_pending s)) =
      mset (task_ids (w_protocol (y_worker s)) (y_received s))"
    using assms(1) by (simp add: life_ok_def)
  with assms(2) show ?thesis by (metis mset_eq_imp_distinct_iff)
qed

lemma gone_life:
  assumes "life_ok s" "k < length (y_jobs s)" "y_jobs s ! k = (p, m, Acking)"
    and s': "y_worker s' = y_worker s" "y_jobs s' = take k (y_jobs s) @ drop (Suc k) (y_jobs s)"
      "mset (gone s') = mset (gone s) + {#m#}" "y_received s' = y_received s" "y_pending s' = y_pending s"
  shows "life_ok s'"
proof -
  let ?f = "\<lambda>(p, m, ph). (tp_TaskID p, ph :: phase)"
  let ?pr = "w_protocol (y_worker s)"
  have dec: "pr_DecodeTask ?pr (m_Body m) = Inr p"
    using assms(1) nth_mem [OF assms(2)] assms(3) by (auto simp: life_ok_def)
  have ids: "mset (task_ids ?pr xs) = mset (task_ids ?pr (m # ys))" if "mset xs = mset ys + {#m#}" for xs ys m
    using that by (intro mset_task_ids) simp
  have "mset (map ?f (y_jobs s)) = mset (map ?f (y_jobs s')) + {#(tp_TaskID p, Acking)#}"
    using mset_map_delete [OF assms(2), of ?f] assms(3) s'(2) by simp
  then have t: "mset (tasks s') = mset (tasks s)"
    using dec arg_cong [OF ids [OF s'(3)], of "image_mset (\<lambda>i. (i, Acking))"] by (simp add: tasks_def s'(1))
  have "set (y_jobs s') \<subseteq> set (y_jobs s)" by (auto simp: s'(2) dest: in_set_takeD in_set_dropD)
  moreover have "set (tasks s') = set (tasks s)" using t by (rule mset_eq_setD)
  moreover have "mset (map fst (tasks s')) = mset (map fst (tasks s))"
    using arg_cong [OF t, of "image_mset fst"] by simp
  ultimately show ?thesis using assms(1) s'(1,4,5) unfolding life_ok_def by (simp only:) blast
qed

lemma wstep_life:
  assumes "wstep receive ack a s = Some s'" "life_ok s"
    "distinct (task_ids (w_protocol (y_worker s)) (y_received s))"
  shows "life_ok s'"
  using assms(1)
proof (cases rule: wstep_cases)
  case (started now m ms p)
  let ?pr = "w_protocol (y_worker s)"
  have new: "tp_TaskID p \<notin> set (map fst (tasks s))"
    using life_ok_distinct [OF assms(2,3)] started(2,3) by auto
  have t: "mset (tasks s') = mset (tasks s) + {#(tp_TaskID p, Starting)#}"
    by (simp add: tasks_def gone_def started(4))
  have "recorded (y_worker s') x" if "x \<in> set (tasks s')" for x
  proof -
    have "x = (tp_TaskID p, Starting) \<or> x \<in> set (tasks s)"
      using that t by (metis mset_eq_setD set_mset_mset set_mset_add_mset_insert add_mset_add_single insert_iff)
    then show ?thesis
    proof
      assume "x = (tp_TaskID p, Starting)"
      then show ?thesis by (simp add: recorded_def started(4) new_info_def)
    next
      assume x: "x \<in> set (tasks s)"
      with new have "fst x \<noteq> tp_TaskID p" by (metis image_eqI set_map)
      moreover have "recorded (y_worker s) x" using assms(2) x by (simp add: life_ok_def)
      ultimately show ?thesis by (simp add: recorded_def started(4))
    qed
  qed
  moreover have "mset (map fst (tasks s')) = mset (map fst (tasks s)) + {#tp_TaskID p#}"
    using arg_cong [OF t, of "image_mset fst"] by simp
  ultimately show ?thesis
    using assms(2) started(2,3) unfolding life_ok_def by (auto simp: started(4))
next
  case (acked k e p m b)
  then show ?thesis by (intro gone_life [OF assms(2) acked(2,3)]) (simp_all add: gone_def)
next
  case (refused k e p m err b)
  then show ?thesis by (intro gone_life [OF assms(2) refused(2,3)]) (simp_all add: gone_def)
next
  case (begun k now p m)
  show ?thesis unfolding begun(4)
    by (rule life_ok_set_job [OF assms(2) _ begun(2,3)])
      (use life_ok_distinct [OF assms(2,3)] in \<open>simp_all add: start_task_def recorded_def\<close>)
next
  case (pool_error k now err p m)
  show ?thesis unfolding pool_error(4)
    by (rule life_ok_set_job [OF assms(2) _ pool_error(2,3)])
      (use life_ok_distinct [OF assms(2,3)] in \<open>simp_all add: fail_task_def recorded_def\<close>)
next
  case (result k now r p m)
  show ?thesis unfolding result(4)
    by (rule life_ok_set_job [OF assms(2) _ result(2,3)])
      (use life_ok_distinct [OF assms(2,3)] in \<open>simp_all add: finish_task_def recorded_def\<close>)
next
  case (read k p m)
  have "recorded (y_worker s) (tp_TaskID p, Failed)"
    using assms(2) read(2,3) nth_mem [OF read(2)] by (force simp: life_ok_def tasks_def)
  then have "recorded (y_worker s) (tp_TaskID p, FailedRead n)" for n by (simp add: recorded_def)
  then show ?thesis unfolding read(4)
    by (intro life_ok_set_job [OF assms(2) _ read(2,3)])
      (use life_ok_distinct [OF assms(2,3)] in simp_all)
next
  case (stored k n p m)
  have "recorded (y_worker s) (tp_TaskID p, FailedRead n)"
    using assms(2) stored(2,3) nth_mem [OF stored(2)] by (force simp: life_ok_def tasks_def)
  then have "recorded (set_failed (n + 1) (y_worker s)) (tp_TaskID p, Acking)"
    by (auto simp: recorded_def set_failed_def)
  then show ?thesis unfolding stored(4)
    by (intro life_ok_set_job [OF assms(2) _ stored(2,3)])
      (use life_ok_distinct [OF assms(2,3)] in \<open>simp_all add: set_failed_def\<close>)
qed (use assms(2) in \<open>simp_all add: life_ok_def tasks_def gone_def recorded_def\<close>)

section \<open>Groups\<close>

text \<open>A group that no running task can free: it is busy, no goroutine has a message of it, and
  the messages of it that wait in the loop do not decode.\<close>

definition blocked :: "('b \<Rightarrow> string \<Rightarrow> bool) \<Rightarrow> string \<Rightarrow> 'b sys \<Rightarrow> bool" where
  "blocked busy g s \<longleftrightarrow> busy (y_broker s) g \<and>
     (\<forall>j \<in> set (y_jobs s). m_MessageGroupID (job_message j) \<noteq> g) \<and>
     (\<forall>m \<in> set (y_pending s). m_MessageGroupID m = g \<longrightarrow> isl (pr_DecodeTask (w_protocol (y_worker s)) (m_Body m)))"

abbreviation of_group :: "string \<Rightarrow> message list \<Rightarrow> message list" where
  "of_group g \<equiv> filter (\<lambda>m. m_MessageGroupID m = g)"

context group_broker begin

lemma wstep_inv:
  assumes "wstep receive ack a s = Some s'" "inv (y_broker s)"
  shows "inv (y_broker s')"
  using assms(1)
proof (cases rule: wstep_cases)
  case (failed e err b)
  with receive_inv [of "y_broker s" "e (loop_ctx s)"] assms(2) show ?thesis by simp (metis snd_conv)
next
  case (polled e ms b)
  with receive_inv [of "y_broker s" "e (loop_ctx s)"] assms(2) show ?thesis by simp (metis snd_conv)
next
  case (acked k e p m b)
  with ack_inv [of "y_broker s" "e (loop_ctx s)" m] assms(2) show ?thesis by simp
next
  case (refused k e p m err b)
  with ack_inv [of "y_broker s" "e (loop_ctx s)" m] assms(2) show ?thesis by simp
qed (use assms(2) in \<open>simp_all add: set_job_def\<close>)

lemma wstep_blocked:
  assumes "wstep receive ack a s = Some s'" "blocked busy g s"
    "\<And>ms m. y_received s' = y_received s @ ms \<Longrightarrow> m \<in> set ms \<Longrightarrow> m_MessageGroupID m = g \<Longrightarrow>
       isl (pr_DecodeTask (w_protocol (y_worker s)) (m_Body m))"
  shows "blocked busy g s'"
  using assms(1)
proof (cases rule: wstep_cases)
  case (failed e err b)
  with receive_keeps_busy [of "y_broker s" g "e (loop_ctx s)"] assms(2) show ?thesis
    by (auto simp: blocked_def) (metis snd_conv)
next
  case (polled e ms b)
  have "busy b g"
    using receive_keeps_busy [of "y_broker s" g "e (loop_ctx s)" "wc_QueuePrefetch (w_config (y_worker s))"] assms(2) polled(4)
    by (simp add: blocked_def)
  with assms(2) assms(3) [of ms] polled(3,5) show ?thesis by (simp add: blocked_def)
next
  case (acked k e p m b)
  have "m_MessageGroupID m \<noteq> g"
    using assms(2) nth_mem [OF acked(2)] acked(3) by (force simp: blocked_def)
  from ack_other [OF this, of "e (loop_ctx s)" "y_broker s"] assms(2) acked(4,5) show ?thesis
    by (auto simp: blocked_def dest: in_set_takeD in_set_dropD)
next
  case (refused k e p m err b)
  have "m_MessageGroupID m \<noteq> g"
    using assms(2) nth_mem [OF refused(2)] refused(3) by (force simp: blocked_def)
  from ack_other [OF this, of "e (loop_ctx s)" "y_broker s"] assms(2) refused(4,5) show ?thesis
    by (auto simp: blocked_def dest: in_set_takeD in_set_dropD)
next
  case (started now m ms p)
  have "m_MessageGroupID m \<noteq> g" using assms(2) started(2,3) by (auto simp: blocked_def)
  with assms(2) started(2,4) show ?thesis by (auto simp: blocked_def)
next
  case (dropped now m ms err)
  with assms(2) show ?thesis by (auto simp: blocked_def)
next
  case (begun k now p m)
  with assms(2) nth_mem [OF begun(2)] show ?thesis
    by (auto simp: blocked_def set_job_def dest!: set_update_subset_insert [THEN subsetD])
next
  case (pool_error k now err p m)
  with assms(2) nth_mem [OF pool_error(2)] show ?thesis
    by (auto simp: blocked_def set_job_def dest!: set_update_subset_insert [THEN subsetD])
next
  case (result k now r p m)
  have "w_protocol (finish_task now r p (y_worker s)) = w_protocol (y_worker s)" by simp
  with result assms(2) nth_mem [OF result(2)] show ?thesis
    by (auto simp: blocked_def set_job_def dest!: set_update_subset_insert [THEN subsetD])
next
  case (read k p m)
  with assms(2) nth_mem [OF read(2)] show ?thesis
    by (auto simp: blocked_def set_job_def dest!: set_update_subset_insert [THEN subsetD])
next
  case (stored k n p m)
  with assms(2) nth_mem [OF stored(2)] show ?thesis
    by (auto simp: blocked_def set_job_def dest!: set_update_subset_insert [THEN subsetD])
qed (use assms(2) in \<open>simp_all add: blocked_def\<close>)

lemma wstep_blocked_acks:
  assumes "wstep receive ack a s = Some s'" "blocked busy g s"
  shows "of_group g (y_acked s') = of_group g (y_acked s) \<and> of_group g (y_refused s') = of_group g (y_refused s)"
  using assms(1)
proof (cases rule: wstep_cases)
  case (acked k e p m b)
  have "m_MessageGroupID m \<noteq> g"
    using assms(2) nth_mem [OF acked(2)] acked(3) by (force simp: blocked_def)
  with acked(5) show ?thesis by simp
next
  case (refused k e p m err b)
  have "m_MessageGroupID m \<noteq> g"
    using assms(2) nth_mem [OF refused(2)] refused(3) by (force simp: blocked_def)
  with refused(5) show ?thesis by simp
qed (auto simp: set_job_def)

text \<open>It stays so as long as the broker hands out no other message of the group that decodes.\<close>

lemma wrun_blocked:
  assumes "wrun receive ack as s = Some s'" "blocked busy g s"
    "\<And>m. m \<in> set (drop (length (y_received s)) (y_received s')) \<Longrightarrow> m_MessageGroupID m = g \<Longrightarrow>
       isl (pr_DecodeTask (w_protocol (y_worker s)) (m_Body m))"
  shows "blocked busy g s' \<and> of_group g (y_acked s') = of_group g (y_acked s) \<and>
    of_group g (y_refused s') = of_group g (y_refused s)"
  using assms
proof (induction "as" arbitrary: s)
  case (Cons a "as")
  then obtain s1 where s1: "wstep receive ack a s = Some s1" "wrun receive ack as s1 = Some s'"
    by (auto split: option.splits)
  obtain ms where ms: "y_received s1 = y_received s @ ms" using wstep_received [OF s1(1)] by blast
  have "\<exists>ns. y_received s' = y_received s1 @ ns"
    using s1(2)
    by (rule wrun_induct [where P = "\<lambda>s'. \<exists>ns. y_received s' = y_received s1 @ ns"])
      (simp, metis wstep_received append.assoc)
  then obtain ns where ns: "y_received s' = y_received s1 @ ns" ..
  have "blocked busy g s1"
    using wstep_blocked [OF s1(1) Cons.prems(2)] Cons.prems(3) ms ns by auto
  moreover have "isl (pr_DecodeTask (w_protocol (y_worker s1)) (m_Body m))"
    if "m \<in> set (drop (length (y_received s1)) (y_received s'))" "m_MessageGroupID m = g" for m
    using that Cons.prems(3) [of m] ms ns wstep_protocol [OF s1(1)] by simp
  ultimately show ?case
    using Cons.IH [OF s1(2)] wstep_blocked_acks [OF s1(1) Cons.prems(2)] by simp
qed simp

end

end
