(* ===== verification/WorkerClaims.thy ===== *)
theory WorkerClaims
  imports SqsClaims WorkerLemmas
begin

text \<open>
  The properties of the worker, each with a witness at a concrete worker on the SQS broker.
\<close>

section \<open>A concrete worker for the witnesses\<close>

text \<open>A protocol that takes every non-empty body for the id of a task.\<close>

definition id_protocol :: protocol where
  "id_protocol = \<lparr>pr_EncodeTask = (\<lambda>_ t. Inr (tp_TaskID t)),
     pr_DecodeTask = (\<lambda>d. if d = '''' then Inl UnmarshalFailed
       else Inr \<lparr>tp_TaskName = ''t'', tp_TaskID = d, tp_Args = None, tp_Kwargs = None, tp_Retries = 0, tp_Queue = ''''\<rparr>),
     pr_EncodeResult = (\<lambda>_ r. Inr (rp_TaskID r)), pr_DecodeResult = (\<lambda>d. Inr (empty_result\<lparr>rp_TaskID := d\<rparr>)),
     pr_EncodePing = (\<lambda>_. Inr ''''), pr_DecodePing = (\<lambda>d. None), pr_EncodePong = (\<lambda>_. Inr ''''),
     pr_DecodePong = (\<lambda>d. None), pr_EncodeStop = (\<lambda>_. Inr ''''), pr_DecodeStop = (\<lambda>d. None)\<rparr>"

definition worker_config :: WorkerConfig where
  "worker_config = \<lparr>wc_Concurrency = 1, wc_QueuePrefetch = 10, wc_TaskTimeout = minute,
     wc_ShutdownTimeout = minute, wc_RetryBackoff = \<lparr>rb_InitialInterval = second, rb_MaxInterval = minute,
     rb_Multiplier = Fin False 1 1, rb_RandomizationFactor = f64_zero\<rparr>, wc_HeartbeatInterval = minute\<rparr>"

text \<open>Two messages of two groups: the bodies are the base64 texts of \<open>a\<close> and \<open>b\<close>.\<close>

definition two_groups :: "sqs_message list" where
  "two_groups = [demo_sqs_message ''1'' ''g'', (demo_sqs_message ''2'' ''h'')\<lparr>s_Body := ''Yg==''\<rparr>]"

definition message_b :: message where
  "message_b = (demo_message ''2'' ''h'')\<lparr>m_Body := ''b''\<rparr>"

definition env2 :: recv_env where
  "env2 = demo_env two_groups [''g'', ''h'']"

lemma decode_b [simp]: "b64_decode ''Yg=='' = Some ''b''"
  by code_simp

lemma convert_b: "convert_message ''h'' ((demo_sqs_message ''2'' ''h'')\<lparr>s_Body := ''Yg==''\<rparr>) = Some message_b"
  by (simp add: convert_message_def demo_sqs_message_def demo_message_def message_b_def map_add_def)

definition broker2 :: broker where
  "broker2 = snd (ReceiveMessages env2 10 demo_broker)"

lemma receive2_eq: "ReceiveMessages env2 10 demo_broker = (Inr [demo_message ''1'' ''g'', message_b], broker2)"
proof -
  have "fst (ReceiveMessages env2 10 demo_broker) = Inr [demo_message ''1'' ''g'', message_b]"
    by (simp add: ReceiveMessages_def getMessagesFromInternalQueues_def go_min_def env2_def two_groups_def
        receiveBatchMessages_def demo_available Let_def convert_b)
  then show ?thesis by (simp add: broker2_def prod_eq_iff)
qed

definition payload :: "string \<Rightarrow> TaskPayload" where
  "payload i = \<lparr>tp_TaskName = ''t'', tp_TaskID = i, tp_Args = None, tp_Kwargs = None, tp_Retries = 0, tp_Queue = ''''\<rparr>"

lemma payload_id [simp]: "tp_TaskID (payload i) = i"
  by (simp add: payload_def)

lemma id_decode [simp]: "pr_DecodeTask id_protocol (c # d) = Inr (payload (c # d))"
  by (simp add: id_protocol_def payload_def)

lemma message_b_simps [simp]: "m_Body message_b = ''b''" "m_MessageGroupID message_b = ''h''"
  by (simp_all add: message_b_def demo_message_def)

lemma boot_simps [simp]:
  "y_broker (boot pr c b) = b" "y_pending (boot pr c b) = []" "y_jobs (boot pr c b) = []"
  "y_received (boot pr c b) = []" "y_acked (boot pr c b) = []" "y_refused (boot pr c b) = []" "y_dropped (boot pr c b) = []"
  "w_protocol (y_worker (boot pr c b)) = pr" "w_config (y_worker (boot pr c b)) = c"
  "w_shutdown (y_worker (boot pr c b)) = False" "w_done (y_worker (boot pr c b)) = False"
  "ws_TasksFailed (w_stats (y_worker (boot pr c b))) = 0" "y_cancelled (boot pr c b) = False" "y_polling (boot pr c b) = False"
  by (simp_all add: boot_def CreateWorker_def NewDefaultWorker_def)

text \<open>The state after one poll and two dispatches: two goroutines.\<close>

definition two_started :: "broker sys" where
  "two_started = (case wrun ReceiveMessages AcknowledgeMessage [BeginPoll, EndPoll (\<lambda>_. env2), Dispatch 1, Dispatch 1]
     (boot id_protocol worker_config demo_broker) of Some s \<Rightarrow> s)"

lemma run_two:
  "wrun ReceiveMessages AcknowledgeMessage [BeginPoll, EndPoll (\<lambda>_. env2), Dispatch 1, Dispatch 1]
     (boot id_protocol worker_config demo_broker) = Some two_started"
  "y_jobs two_started = [(payload ''a'', demo_message ''1'' ''g'', Starting), (payload ''b'', message_b, Starting)]"
  "y_received two_started = [demo_message ''1'' ''g'', message_b]"
  "y_pending two_started = []" "y_acked two_started = []" "y_refused two_started = []" "y_dropped two_started = []"
  "y_polling two_started = False" "y_cancelled two_started = False" "w_done (y_worker two_started) = False"
  "y_broker two_started = broker2" "w_shutdown (y_worker two_started) = False"
  "ws_TasksFailed (w_stats (y_worker two_started)) = 0"
  by (simp_all add: two_started_def wstep_def Let_def receive2_eq worker_config_def dispatch_def)

lemma ack2: "AcknowledgeMessage env2 m b = (None, (log_call (CallDelete (b_queueURL b) (m_ReceiptHandle m)) b)
    \<lparr>b_activeGroups := markGroupAsAvailable 1 (m_MessageGroupID m) (b_activeGroups b)\<rparr>)"
  by (simp add: AcknowledgeMessage_def Let_def env2_def demo_env_def demo_client_def log_call_def)

lemmas step_simps = wstep_def job_step_def set_job_def end_job_def loop_ctx_def Let_def

section \<open>Messages\<close>

text \<open>C5: No message is lost or doubled inside the worker: in every run, each received message
  waits in the loop, was dropped because it does not decode, is with exactly one goroutine, was
  acknowledged once (the broker returned no error), or was refused once: its acknowledgement failed, which is only
  logged, so that its goroutine ends without it.\<close>

theorem message_conservation:
  assumes "wrun receive ack as (boot pr c b) = Some s"
  shows "mset (y_received s) =
    mset (y_pending s) + mset (y_dropped s) + mset (map job_message (y_jobs s)) +
    mset (y_acked s) + mset (y_refused s)"
proof -
  have "conserved s"
    using assms by (rule wrun_induct) (simp add: conserved_def gone_def, rule wstep_conserved)
  then show ?thesis by (simp add: conserved_def gone_def)
qed

theorem message_conservation_witness:
  "mset (y_received two_started) = {#demo_message ''1'' ''g'', message_b#}"
  using message_conservation [OF run_two(1)] by (simp add: run_two)




section \<open>Tasks\<close>

lemma boot_life: "life_ok (boot pr c b)"
  by (simp add: life_ok_def tasks_def gone_def)

lemma wrun_received: "wrun receive ack as s = Some s' \<Longrightarrow> \<exists>ms. y_received s' = y_received s @ ms"
proof (induction "as" arbitrary: s)
  case (Cons a "as")
  then obtain s1 where s1: "wstep receive ack a s = Some s1" "wrun receive ack as s1 = Some s'"
    by (auto split: option.splits)
  from wstep_received [OF s1(1)] Cons.IH [OF s1(2)] show ?case by auto
qed simp

lemma wrun_protocol:
  "wrun receive ack as s = Some s' \<Longrightarrow> w_protocol (y_worker s') = w_protocol (y_worker s)"
  by (erule wrun_induct [where P = "\<lambda>s'. w_protocol (y_worker s') = w_protocol (y_worker s)"])
    (simp_all add: wstep_protocol)

lemma wrun_life:
  assumes "wrun receive ack as s = Some s'" "life_ok s"
    "distinct (task_ids (w_protocol (y_worker s)) (y_received s'))"
  shows "life_ok s'"
  using assms
proof (induction "as" arbitrary: s)
  case (Cons a "as")
  then obtain s1 where s1: "wstep receive ack a s = Some s1" "wrun receive ack as s1 = Some s'"
    by (auto split: option.splits)
  obtain ms ns where ms: "y_received s1 = y_received s @ ms" "y_received s' = y_received s1 @ ns"
    using wstep_received [OF s1(1)] wrun_received [OF s1(2)] by blast
  have "life_ok s1"
    using wstep_life [OF s1(1) Cons.prems(2)] Cons.prems(3) ms by simp
  with Cons.IH [OF s1(2)] Cons.prems(3) wstep_protocol [OF s1(1)] show ?case by simp
qed simp

text \<open>C18: When the received tasks have different ids, what \<open>GetTaskInfo\<close> reports agrees with the
  goroutines: pending before the goroutine starts, running while the pool works on the task, error
  or success afterwards; and a goroutine ends, its message acknowledged or the acknowledgement refused, only when its task has one
  of these two final states.\<close>

theorem task_life:
  assumes "wrun receive ack as (boot pr c b) = Some s" and "distinct (task_ids pr (y_received s))"
    and "(i, ph) \<in> set (tasks s)"
  shows "\<exists>ti st. GetTaskInfo i (y_worker s) = Inr ti \<and> ti_State ti = Some st \<and> phase_state ph st"
proof -
  have "life_ok s" using wrun_life [OF assms(1) boot_life] assms(2) by simp
  with assms(3) show ?thesis by (fastforce simp: life_ok_def recorded_def GetTaskInfo_def)
qed

theorem task_life_witness:
  "\<exists>ti. GetTaskInfo ''b'' (y_worker two_started) = Inr ti \<and> ti_State ti = Some TaskStatePending"
  using task_life [OF run_two(1), of "''b''" Starting] by (simp add: run_two tasks_def)

text \<open>C12: \<open>executeTask\<close> on its own: the task ends in state success exactly when the pool returned
  a result with status \<open>success\<close>, otherwise in state error with the pool's or the result's error
  text; exactly one of the two counters goes up by one; and the message is acknowledged once in every
  case, also when the task failed.\<close>

theorem executeTask_outcome:
  "executeTask ack e t1 t2 res p m (w, b) = (w', b') \<Longrightarrow>
     b' = snd (ack e m b) \<and>
     (\<exists>ti. GetTaskInfo (tp_TaskID p) w' = Inr ti \<and> ti_StartedAt ti = t1 \<and> ti_CompletedAt ti = t2 \<and>
        (case res of
           Inl err \<Rightarrow> ti_State ti = Some TaskStateError \<and> ti_Error ti = err
         | Inr r \<Rightarrow> ti_Result ti = rp_Result r \<and>
             (if rp_Status r = ''success'' then ti_State ti = Some TaskStateSuccess
              else ti_State ti = Some TaskStateError \<and> ti_Error ti = rp_Error r \<and> ti_Traceback ti = rp_Traceback r))) \<and>
     w_stats w' = (let st = w_stats w; ok = (case res of Inl _ \<Rightarrow> False | Inr r \<Rightarrow> rp_Status r = ''success'') in
       if ok then st\<lparr>ws_TasksSucceeded := ws_TasksSucceeded st + 1\<rparr>
       else st\<lparr>ws_TasksFailed := ws_TasksFailed st + 1\<rparr>)"
  by (auto simp: executeTask_def section_defs GetTaskInfo_def Let_def split: sum.splits)

theorem executeTask_outcome_witness:
  "\<exists>w' b' ti. executeTask AcknowledgeMessage env2 1 2 (Inl ''timeout'') (payload ''a'') (demo_message ''1'' ''g'')
       (CreateWorker id_protocol worker_config, broker2) = (w', b') \<and>
     GetTaskInfo ''a'' w' = Inr ti \<and> ti_State ti = Some TaskStateError \<and> b' = snd (AcknowledgeMessage env2 (demo_message ''1'' ''g'') broker2)"
proof -
  obtain w' b' where x: "executeTask AcknowledgeMessage env2 1 2 (Inl ''timeout'') (payload ''a'') (demo_message ''1'' ''g'')
      (CreateWorker id_protocol worker_config, broker2) = (w', b')" by fastforce
  from executeTask_outcome [OF this] x show ?thesis by auto
qed

text \<open>A goroutine whose steps are not interrupted has the effect of \<open>executeTask\<close>.\<close>

lemma steps_refine_executeTask:
  assumes "k < length (y_jobs s)" and "y_jobs s ! k = (p, m, Starting)"
  shows "\<exists>s'. wrun receive ack
      ([BeginTask k t1, EndTask k t2 res] @ (if isl res then [ReadFailed k, StoreFailed k] else []) @ [Acknowledge k (\<lambda>_. e)]) s = Some s' \<and>
    (y_worker s', y_broker s') = executeTask ack e t1 t2 res p m (y_worker s, y_broker s) \<and>
    y_jobs s' = take k (y_jobs s) @ drop (Suc k) (y_jobs s)"
proof (cases "ack e m (y_broker s)")
  case (Pair r b)
  with assms show ?thesis
    by (cases res; cases r) (simp_all add: step_simps executeTask_def)
qed

section \<open>Counters\<close>

text \<open>In every run the received tasks are those with a goroutine and those whose goroutine is gone;
  successes and failures together never exceed the tasks that were finished; nothing is ever
  counted as retried.\<close>

theorem worker_counters:
  assumes "wrun receive ack as (boot pr c b) = Some s"
  shows "ws_TasksReceived (w_stats (y_worker s)) = int (length (y_jobs s) + length (gone s)) \<and>
    ws_TasksSucceeded (w_stats (y_worker s)) + ws_TasksFailed (w_stats (y_worker s)) \<le> counted s \<and>
    counted s \<le> ws_TasksReceived (w_stats (y_worker s)) \<and> ws_TasksRetried (w_stats (y_worker s)) = 0"
proof -
  have "stats_ok (boot pr c b)"
    by (simp add: stats_ok_def boot_def CreateWorker_def NewDefaultWorker_def counted_def gone_def)
  then have "stats_ok s" using assms by (intro wrun_induct [of receive ack "as" _ s stats_ok]) (auto intro: wstep_stats)
  moreover have "counted s \<le> int (length (y_jobs s) + length (gone s))"
    by (simp add: counted_def)
  ultimately show ?thesis by (simp add: stats_ok_def Let_def)
qed

theorem worker_counters_witness: "ws_TasksReceived (w_stats (y_worker two_started)) = 2"
  using worker_counters [OF run_two(1)] by (simp add: run_two gone_def)

text \<open>A failure can get lost: both tasks of a run fail in the pool and are acknowledged, and
  the failure counter ends at 1, because it is incremented outside the mutex.\<close>

theorem lost_failure_count:
  "\<exists>as s. wrun ReceiveMessages AcknowledgeMessage as (boot id_protocol worker_config demo_broker) = Some s \<and>
     length (y_acked s) = 2 \<and> y_jobs s = [] \<and> ws_TasksFailed (w_stats (y_worker s)) = 1"
proof -
  let ?as = "[BeginTask 0 1, BeginTask 1 1, EndTask 0 2 (Inl ''x''), EndTask 1 2 (Inl ''x''),
    ReadFailed 0, ReadFailed 1, StoreFailed 0, StoreFailed 1, Acknowledge 0 (\<lambda>_. env2), Acknowledge 0 (\<lambda>_. env2)]"
  have *: "wrun r a (xs @ ys) s = (case wrun r a xs s of None \<Rightarrow> None | Some s' \<Rightarrow> wrun r a ys s')" for r a xs ys s
    by (induction xs arbitrary: s) (auto split: option.split)
  have "\<exists>s. wrun ReceiveMessages AcknowledgeMessage ?as two_started = Some s \<and>
      length (y_acked s) = 2 \<and> y_jobs s = [] \<and> ws_TasksFailed (w_stats (y_worker s)) = 1"
    by (simp add: step_simps run_two set_failed_def ack2)
  then obtain s where "wrun ReceiveMessages AcknowledgeMessage ?as two_started = Some s"
    "length (y_acked s) = 2" "y_jobs s = []" "ws_TasksFailed (w_stats (y_worker s)) = 1" by blast
  moreover from this(1) have "wrun ReceiveMessages AcknowledgeMessage ([BeginPoll, EndPoll (\<lambda>_. env2), Dispatch 1, Dispatch 1] @ ?as)
      (boot id_protocol worker_config demo_broker) = Some s"
    by (simp only: * run_two(1) option.case)
  ultimately show ?thesis by blast
qed

section \<open>Configuration and shutdown\<close>

definition with_config :: "WorkerConfig \<Rightarrow> 'b sys \<Rightarrow> 'b sys" where
  "with_config c s = s\<lparr>y_worker := (y_worker s)\<lparr>w_config := c\<rparr>\<rparr>"

text \<open>Of its configuration the worker reads only \<open>QueuePrefetch\<close>: every step does the same
  under any other concurrency, timeouts, backoff and heartbeat. In particular \<open>Concurrency\<close>
  bounds nothing.\<close>

theorem config_ignored:
  assumes "wc_QueuePrefetch c = wc_QueuePrefetch (w_config (y_worker s))"
  shows "wstep receive ack a (with_config c s) = map_option (with_config c) (wstep receive ack a s)"
proof -
  note defs = step_simps with_config_def
  show ?thesis
  proof (cases a)
    case (EndPoll e)
    with assms show ?thesis by (simp add: defs split: prod.split sum.split)
  next
    case (Dispatch now)
    then show ?thesis by (simp add: defs dispatch_def upd_wstats_def split: list.split sum.split)
  next
    case (EndTask k now res)
    then show ?thesis
      by (simp add: defs section_defs upd_wstats_def upd_info_def split: prod.split sum.split)
  next
    case (StoreFailed k)
    then show ?thesis by (simp add: defs set_failed_def upd_wstats_def split: prod.split phase.split)
  next
    case Shutdown
    then show ?thesis by (simp add: defs worker_Stop_def)
  qed (simp_all add: defs section_defs upd_wstats_def upd_info_def split: prod.split option.split)
qed

theorem config_ignored_witness:
  "map_option y_polling (wstep ReceiveMessages AcknowledgeMessage BeginPoll
     (with_config (worker_config\<lparr>wc_Concurrency := 0\<rparr>) (boot id_protocol worker_config demo_broker))) = Some True"
  using config_ignored [of "worker_config\<lparr>wc_Concurrency := 0\<rparr>" "boot id_protocol worker_config demo_broker"
      ReceiveMessages AcknowledgeMessage BeginPoll]
  by (simp add: with_config_def wstep_def worker_config_def)

text \<open>Stopping does not wait for the running tasks: when no receive is going on and the loop has seen the
  shutdown, \<open>Stop\<close> returns without error, with every goroutine still where it was; a second \<open>Stop\<close>
  panics.\<close>

theorem stop_leaves_tasks:
  assumes "y_pending s = []" and "\<not> y_polling s" and "\<not> w_shutdown (y_worker s)" and "\<not> w_done (y_worker s)"
  shows "\<exists>s'. wrun receive ack [Shutdown, ExitLoop] s = Some s' \<and> y_jobs s' = y_jobs s \<and>
    worker_Stop_wait False (y_worker s') = Some StoppedInTime \<and> worker_Stop (y_worker s') = None"
  using assms by (simp add: wstep_def Let_def worker_Stop_def worker_Stop_wait_def)

theorem stop_leaves_tasks_witness:
  "\<exists>s'. wrun ReceiveMessages AcknowledgeMessage [Shutdown, ExitLoop] two_started = Some s' \<and>
     length (y_jobs s') = 2 \<and> worker_Stop_wait False (y_worker s') = Some StoppedInTime"
  using stop_leaves_tasks [of two_started ReceiveMessages AcknowledgeMessage]
  by (fastforce simp: run_two)

section \<open>The termination signal\<close>

lemma AcknowledgeMessage_refused:
  assumes "\<forall>q r. cl_DeleteMessage (e_client e) q r \<noteq> None"
  obtains err b' where "AcknowledgeMessage e m b = (Some err, b')" "b_activeGroups b' = b_activeGroups b"
    "b_calls b' = b_calls b @ [CallDelete (b_queueURL b) (m_ReceiptHandle m)]"
proof -
  from assms obtain err where "cl_DeleteMessage (e_client e) (b_queueURL b) (m_ReceiptHandle m) = Some err"
    by blast
  then show ?thesis by (intro that [of "DeleteFailed err" "log_call (CallDelete (b_queueURL b) (m_ReceiptHandle m)) b"]) (simp_all add: AcknowledgeMessage_def log_call_def)
qed

text \<open>The SQS client takes a context with every call, and refuses a call whose context is cancelled. The
  law is stated for the deletes of a run; what a delete answers under an open context is free.\<close>

definition context_aware :: "recv_env action list \<Rightarrow> bool" where
  "context_aware as \<longleftrightarrow>
     (\<forall>k e. Acknowledge k e \<in> set as \<longrightarrow> (\<forall>q r. cl_DeleteMessage (e_client (e CtxCanceled)) q r \<noteq> None))"

definition only_deletes :: "broker \<Rightarrow> broker \<Rightarrow> bool" where
  "only_deletes b b' \<longleftrightarrow> (\<exists>ds. b_calls b' = b_calls b @ ds \<and> set ds \<subseteq> range (case_prod CallDelete))"

lemma only_deletes_refl [simp]: "only_deletes b b"
  by (simp add: only_deletes_def)

lemma only_deletes_trans: "only_deletes b b' \<Longrightarrow> only_deletes b' b'' \<Longrightarrow> only_deletes b b''"
  unfolding only_deletes_def by (metis append.assoc set_append Un_least)

text \<open>What holds from the signal on.\<close>

definition after_signal :: "broker sys \<Rightarrow> broker sys \<Rightarrow> bool" where
  "after_signal s s' \<longleftrightarrow> y_cancelled s' \<and> y_acked s' = y_acked s \<and> (y_polling s' \<longrightarrow> y_polling s) \<and>
     (\<forall>g. processing (groups_in (y_broker s)) g \<longrightarrow> processing (groups_in (y_broker s')) g) \<and>
     (\<not> y_polling s \<longrightarrow> y_received s' = y_received s \<and> groups_in (y_broker s') = groups_in (y_broker s) \<and>
        only_deletes (y_broker s) (y_broker s'))"

lemma after_signal_trans: "after_signal s s' \<Longrightarrow> after_signal s' s'' \<Longrightarrow> after_signal s s''"
  unfolding after_signal_def using only_deletes_trans by (metis (no_types))

lemma cancelled_step:
  fixes s :: "broker sys"
  assumes "wstep ReceiveMessages AcknowledgeMessage a s = Some s'" "y_cancelled s" "context_aware [a]"
  shows "after_signal s s'"
  using assms(1)
proof (cases rule: wstep_cases)
  case (failed e err b)
  with sqs.receive_keeps_busy [of "y_broker s" _ "e (loop_ctx s)" "wc_QueuePrefetch (w_config (y_worker s))"] assms(2)
  show ?thesis by (simp add: after_signal_def)
next
  case (polled e ms b)
  with sqs.receive_keeps_busy [of "y_broker s" _ "e (loop_ctx s)" "wc_QueuePrefetch (w_config (y_worker s))"] assms(2)
  show ?thesis by (simp add: after_signal_def)
next
  case (acked k e p m b)
  then have "\<forall>q r. cl_DeleteMessage (e_client (e (loop_ctx s))) q r \<noteq> None"
    using assms(2,3) by (simp add: context_aware_def loop_ctx_def)
  then obtain err b' where "AcknowledgeMessage (e (loop_ctx s)) m (y_broker s) = (Some err, b')"
    by (rule AcknowledgeMessage_refused)
  with acked(4) show ?thesis by simp
next
  case (refused k e p m err b)
  then have "\<forall>q r. cl_DeleteMessage (e_client (e (loop_ctx s))) q r \<noteq> None"
    using assms(2,3) by (simp add: context_aware_def loop_ctx_def)
  then obtain err' b' where "AcknowledgeMessage (e (loop_ctx s)) m (y_broker s) = (Some err', b')"
    "groups_in b' = groups_in (y_broker s)"
    "b_calls b' = b_calls (y_broker s) @ [CallDelete (b_queueURL (y_broker s)) (m_ReceiptHandle m)]"
    by (rule AcknowledgeMessage_refused)
  with refused(4,5) assms(2) show ?thesis by (auto simp: after_signal_def only_deletes_def)
qed (use assms(2) in \<open>simp_all add: set_job_def after_signal_def\<close>)

text \<open>C9: The termination signal cancels the context of the worker, and the acknowledgements of the
  running tasks get this same context. So, when the SQS client refuses deletes with a cancelled context
  (its documented behaviour), no task that was still running when the signal came is
  acknowledged, whatever the goroutines do, and its group stays marked. A receive that was going on may still return; when
  none was, nothing more is received, and SQS gets no call but refused deletes.\<close>

theorem signal_stops_acknowledging:
  fixes s :: "broker sys"
  assumes "y_cancelled s" and "context_aware as"
    and "wrun ReceiveMessages AcknowledgeMessage as s = Some s'"
  shows "y_acked s' = y_acked s \<and>
    (\<forall>g. processing (groups_in (y_broker s)) g \<longrightarrow> processing (groups_in (y_broker s')) g) \<and>
    (\<not> y_polling s \<longrightarrow> y_received s' = y_received s \<and>
       b_activeGroups (y_broker s') = b_activeGroups (y_broker s) \<and>
       (\<exists>ds. b_calls (y_broker s') = b_calls (y_broker s) @ ds \<and> set ds \<subseteq> range (case_prod CallDelete)))"
proof -
  have "after_signal s s'" using assms
  proof (induction as arbitrary: s)
    case Nil
    then show ?case by (simp add: after_signal_def)
  next
    case (Cons a as)
    from Cons.prems(3) obtain t where t: "wstep ReceiveMessages AcknowledgeMessage a s = Some t"
      "wrun ReceiveMessages AcknowledgeMessage as t = Some s'" by (auto split: option.splits)
    from Cons.prems(2) have "context_aware [a]" "context_aware as" by (auto simp: context_aware_def)
    with cancelled_step [OF t(1) Cons.prems(1)] Cons.IH [of t] t(2) show ?case
      by (metis after_signal_def after_signal_trans)
  qed
  then show ?thesis by (simp add: after_signal_def only_deletes_def)
qed

text \<open>A client that deletes under an open context, and refuses under a cancelled one.\<close>

definition aware_env :: "recv_env under_ctx" where
  "aware_env c = (case c of CtxLive \<Rightarrow> env2
     | CtxCanceled \<Rightarrow> env2\<lparr>e_client := (e_client env2)\<lparr>cl_DeleteMessage := \<lambda>_ _. Some ''canceled''\<rparr>\<rparr>)"

lemma aware_env_simps [simp]:
  "cl_DeleteMessage (e_client (aware_env CtxLive)) q r = None"
  "cl_DeleteMessage (e_client (aware_env CtxCanceled)) q r = Some ''canceled''"
  by (simp_all add: aware_env_def env2_def demo_env_def demo_client_def)

theorem signal_stops_acknowledging_witness:
  "\<exists>s'. wrun ReceiveMessages AcknowledgeMessage [BeginTask 0 2, EndTask 0 3 (Inl ''e''), ReadFailed 0,
       StoreFailed 0, Acknowledge 0 aware_env, ExitLoop] (two_started\<lparr>y_cancelled := True\<rparr>) = Some s' \<and>
     y_acked s' = [] \<and> y_refused s' = [demo_message ''1'' ''g''] \<and> b_activeGroups (y_broker s') = groups_in broker2"
proof -
  let ?as = "[BeginTask 0 2, EndTask 0 3 (Inl ''e''), ReadFailed 0, StoreFailed 0, Acknowledge 0 aware_env, ExitLoop]"
  let ?s = "two_started\<lparr>y_cancelled := True\<rparr>"
  have r: "AcknowledgeMessage (aware_env CtxCanceled) m b = (Some (DeleteFailed ''canceled''), log_call (CallDelete (b_queueURL b) (m_ReceiptHandle m)) b)" for m b
    by (simp add: AcknowledgeMessage_def Let_def)
  have "\<exists>s'. wrun ReceiveMessages AcknowledgeMessage ?as ?s = Some s' \<and> y_refused s' = [demo_message ''1'' ''g'']"
    by (simp add: step_simps run_two section_defs r)
  then obtain s' where s': "wrun ReceiveMessages AcknowledgeMessage ?as ?s = Some s'"
    "y_refused s' = [demo_message ''1'' ''g'']" by blast
  have "context_aware ?as" by (auto simp: context_aware_def)
  from signal_stops_acknowledging [OF _ this s'(1)] s' show ?thesis by (simp add: run_two)
qed

end
