(* ===== verification/Json.thy ===== *)
theory Json
  imports GoValue
begin

text \<open>
  The syntax of JSON as Go's \<open>encoding/json\<close> reads and writes it: a lexer that is a state machine
  over the characters, a parser that is a stack machine over the tokens (with Go's limit of
  10000 on the nesting), and the compact printer. String literals and numbers are kept as the
  text they have in the input; \<open>JsonString\<close> and \<open>Float64\<close> give them their values.
\<close>

section \<open>Syntax trees and tokens\<close>

datatype json =
    JNull
  | JBool bool
  | JNum string
  | JStr string
  | JArr "json list"
  | JObj "(string \<times> json) list"

datatype token =
    TNull
  | TTrue
  | TFalse
  | TNumber string
  | TString string
  | TLBracket
  | TRBracket
  | TLBrace
  | TRBrace
  | TColon
  | TComma

section \<open>The lexer\<close>

text \<open>The states of a number: after the sign, a leading zero, integer digits, the point, digits of
  the fraction, the letter e, the sign of the exponent, its digits.\<close>

datatype num_state = NNeg | NZero | NInt | NDot | NFrac | NExp | NExpSign | NExpDigits

definition digit :: "char \<Rightarrow> bool" where
  "digit c \<longleftrightarrow> c \<in> set ''0123456789''"

definition hex_digit :: "char \<Rightarrow> bool" where
  "hex_digit c \<longleftrightarrow> digit c \<or> c \<in> set ''abcdefABCDEF''"

definition json_space :: "char \<Rightarrow> bool" where
  "json_space c \<longleftrightarrow> c \<in> {CHR '' '', CHR 0x09, CHR 0x0A, CHR 0x0D}"

fun num_final :: "num_state \<Rightarrow> bool" where
  "num_final NZero = True"
| "num_final NInt = True"
| "num_final NFrac = True"
| "num_final NExpDigits = True"
| "num_final _ = False"

definition after_int :: "char \<Rightarrow> num_state option" where
  "after_int c = (if c = CHR ''.'' then Some NDot
     else if c = CHR ''e'' \<or> c = CHR ''E'' then Some NExp else None)"

fun num_step :: "num_state \<Rightarrow> char \<Rightarrow> num_state option" where
  "num_step NNeg c = (if c = CHR ''0'' then Some NZero else if digit c then Some NInt else None)"
| "num_step NZero c = after_int c"
| "num_step NInt c = (if digit c then Some NInt else after_int c)"
| "num_step NDot c = (if digit c then Some NFrac else None)"
| "num_step NFrac c = (if digit c then Some NFrac else if c = CHR ''e'' \<or> c = CHR ''E'' then Some NExp else None)"
| "num_step NExp c = (if c = CHR ''+'' \<or> c = CHR ''-'' then Some NExpSign
     else if digit c then Some NExpDigits else None)"
| "num_step NExpSign c = (if digit c then Some NExpDigits else None)"
| "num_step NExpDigits c = (if digit c then Some NExpDigits else None)"

text \<open>The states of the lexer: between tokens; in a string literal, after a backslash in it, and
  with \<open>n\<close> hex digits of a \<open>\u\<close> escape to come; in a number; in a keyword with its rest to come.\<close>

datatype lex_state =
    LStart
  | LStr string
  | LEsc string
  | LHex nat string
  | LNum num_state string
  | LWord string token

definition lex_start :: "char \<Rightarrow> (lex_state \<times> token list) option" where
  "lex_start c =
     (if json_space c then Some (LStart, [])
      else if c = CHR ''['' then Some (LStart, [TLBracket])
      else if c = CHR '']'' then Some (LStart, [TRBracket])
      else if c = CHR ''{'' then Some (LStart, [TLBrace])
      else if c = CHR ''}'' then Some (LStart, [TRBrace])
      else if c = CHR '':'' then Some (LStart, [TColon])
      else if c = CHR '','' then Some (LStart, [TComma])
      else if c = CHR 0x22 then Some (LStr '''', [])
      else if c = CHR ''-'' then Some (LNum NNeg [c], [])
      else if c = CHR ''0'' then Some (LNum NZero [c], [])
      else if digit c then Some (LNum NInt [c], [])
      else if c = CHR ''n'' then Some (LWord ''ull'' TNull, [])
      else if c = CHR ''t'' then Some (LWord ''rue'' TTrue, [])
      else if c = CHR ''f'' then Some (LWord ''alse'' TFalse, [])
      else None)"

text \<open>A character after a number that does not belong to it starts the next token.\<close>

fun lex_step :: "lex_state \<Rightarrow> char \<Rightarrow> (lex_state \<times> token list) option" where
  "lex_step LStart c = lex_start c"
| "lex_step (LStr acc) c =
     (if c = CHR 0x22 then Some (LStart, [TString acc])
      else if c = CHR 0x5C then Some (LEsc (acc @ [c]), [])
      else if of_char c < (32 :: nat) then None
      else Some (LStr (acc @ [c]), []))"
| "lex_step (LEsc acc) c =
     (if c = CHR ''u'' then Some (LHex 4 (acc @ [c]), [])
      else if c = CHR 0x22 \<or> c = CHR 0x5C \<or> c \<in> set ''/bfnrt'' then Some (LStr (acc @ [c]), [])
      else None)"
| "lex_step (LHex n acc) c =
     (if hex_digit c then Some (if n \<le> 1 then LStr (acc @ [c]) else LHex (n - 1) (acc @ [c]), []) else None)"
| "lex_step (LNum st acc) c =
     (case num_step st c of
        Some st' \<Rightarrow> Some (LNum st' (acc @ [c]), [])
      | None \<Rightarrow>
          if num_final st then map_option (\<lambda>(s, ts). (s, TNumber acc # ts)) (lex_start c) else None)"
| "lex_step (LWord w t) c =
     (case w of
        [] \<Rightarrow> None
      | d # ds \<Rightarrow> if c \<noteq> d then None else Some (if ds = [] then (LStart, [t]) else (LWord ds t, [])))"

fun lex_end :: "lex_state \<Rightarrow> token list option" where
  "lex_end LStart = Some []"
| "lex_end (LNum st acc) = (if num_final st then Some [TNumber acc] else None)"
| "lex_end _ = None"

definition prefixed :: "token list \<Rightarrow> token list option \<Rightarrow> token list option" where
  "prefixed ts r = (case r of None \<Rightarrow> None | Some us \<Rightarrow> Some (ts @ us))"

fun lex_from :: "lex_state \<Rightarrow> string \<Rightarrow> token list option" where
  "lex_from st [] = lex_end st"
| "lex_from st (c # cs) =
     (case lex_step st c of
        None \<Rightarrow> None
      | Some (st', ts) \<Rightarrow> prefixed ts (lex_from st' cs))"

section \<open>The parser\<close>

definition max_nesting :: nat where
  "max_nesting = 10000"

text \<open>The containers that are open, the innermost first; an object with the key it is at.\<close>

datatype frame = FArr "json list" | FObj "(string \<times> json) list" string

datatype mode = MValue | MFirst | MKey | MColon | MAfter | MDone json

fun put :: "json \<Rightarrow> frame list \<Rightarrow> mode \<times> frame list" where
  "put v [] = (MDone v, [])"
| "put v (FArr vs # fs) = (MAfter, FArr (vs @ [v]) # fs)"
| "put v (FObj ms k # fs) = (MAfter, FObj (ms @ [(k, v)]) k # fs)"

definition open_frame :: "frame \<Rightarrow> frame list \<Rightarrow> (mode \<times> frame list) option" where
  "open_frame f fs = (if length fs < max_nesting then Some (MFirst, f # fs) else None)"

definition parse_value :: "token \<Rightarrow> frame list \<Rightarrow> (mode \<times> frame list) option" where
  "parse_value t fs =
     (case t of
        TNull \<Rightarrow> Some (put JNull fs)
      | TTrue \<Rightarrow> Some (put (JBool True) fs)
      | TFalse \<Rightarrow> Some (put (JBool False) fs)
      | TNumber s \<Rightarrow> Some (put (JNum s) fs)
      | TString s \<Rightarrow> Some (put (JStr s) fs)
      | TLBracket \<Rightarrow> open_frame (FArr []) fs
      | TLBrace \<Rightarrow> open_frame (FObj [] '''') fs
      | _ \<Rightarrow> None)"

text \<open>In mode \<open>MFirst\<close> the innermost container has just been opened.\<close>

definition parse_step :: "mode \<times> frame list \<Rightarrow> token \<Rightarrow> (mode \<times> frame list) option" where
  "parse_step s t =
     (case s of
        (MValue, fs) \<Rightarrow> parse_value t fs
      | (MFirst, FArr vs # fs) \<Rightarrow>
          (if t = TRBracket then Some (put (JArr vs) fs) else parse_value t (FArr vs # fs))
      | (MFirst, FObj ms k # fs) \<Rightarrow>
          (case t of TRBrace \<Rightarrow> Some (put (JObj ms) fs) | TString k' \<Rightarrow> Some (MColon, FObj ms k' # fs) | _ \<Rightarrow> None)
      | (MKey, FObj ms k # fs) \<Rightarrow>
          (case t of TString k' \<Rightarrow> Some (MColon, FObj ms k' # fs) | _ \<Rightarrow> None)
      | (MColon, fs) \<Rightarrow> (if t = TColon then Some (MValue, fs) else None)
      | (MAfter, FArr vs # fs) \<Rightarrow>
          (if t = TComma then Some (MValue, FArr vs # fs)
           else if t = TRBracket then Some (put (JArr vs) fs) else None)
      | (MAfter, FObj ms k # fs) \<Rightarrow>
          (if t = TComma then Some (MKey, FObj ms k # fs)
           else if t = TRBrace then Some (put (JObj ms) fs) else None)
      | _ \<Rightarrow> None)"

fun parse_from :: "mode \<times> frame list \<Rightarrow> token list \<Rightarrow> json option" where
  "parse_from s [] = (case s of (MDone v, []) \<Rightarrow> Some v | _ \<Rightarrow> None)"
| "parse_from s (t # ts) = (case parse_step s t of None \<Rightarrow> None | Some s' \<Rightarrow> parse_from s' ts)"

definition json_parse :: "string \<Rightarrow> json option" where
  "json_parse s = (case lex_from LStart s of None \<Rightarrow> None | Some ts \<Rightarrow> parse_from (MValue, []) ts)"

section \<open>The printer\<close>

fun commas :: "string list \<Rightarrow> string" where
  "commas [] = ''''"
| "commas [s] = s"
| "commas (s # ss) = s @ '','' @ commas ss"

definition quoted :: "string \<Rightarrow> string" where
  "quoted s = CHR 0x22 # s @ [CHR 0x22]"

fun json_print :: "json \<Rightarrow> string" where
  "json_print JNull = ''null''"
| "json_print (JBool b) = (if b then ''true'' else ''false'')"
| "json_print (JNum s) = s"
| "json_print (JStr s) = quoted s"
| "json_print (JArr vs) = ''['' @ commas (map json_print vs) @ '']''"
| "json_print (JObj ms) = ''{'' @ commas (map (\<lambda>(k, v). quoted k @ '':'' @ json_print v) ms) @ ''}''"

section \<open>Printing and parsing\<close>

text \<open>Texts of numbers and string literals that the lexer takes as a whole.\<close>

fun num_run :: "num_state \<Rightarrow> string \<Rightarrow> bool" where
  "num_run st [] = num_final st"
| "num_run st (c # cs) = (case num_step st c of None \<Rightarrow> False | Some st' \<Rightarrow> num_run st' cs)"

fun valid_number :: "string \<Rightarrow> bool" where
  "valid_number [] = False"
| "valid_number (c # cs) =
     (if c = CHR ''-'' then num_run NNeg cs else if c = CHR ''0'' then num_run NZero cs
      else digit c \<and> num_run NInt cs)"

fun valid_raw :: "lex_state \<Rightarrow> string \<Rightarrow> bool" where
  "valid_raw st [] = (case st of LStr _ \<Rightarrow> True | _ \<Rightarrow> False)"
| "valid_raw st (c # cs) =
     (case lex_step st c of Some (st', []) \<Rightarrow> st' \<noteq> LStart \<and> valid_raw st' cs | _ \<Rightarrow> False)"

fun wf_json :: "json \<Rightarrow> bool" where
  "wf_json (JNum s) = valid_number s"
| "wf_json (JStr s) = valid_raw (LStr '''') s"
| "wf_json (JArr vs) = (\<forall>v \<in> set vs. wf_json v)"
| "wf_json (JObj ms) = (\<forall>p \<in> set ms. valid_raw (LStr '''') (fst p) \<and> wf_json (snd p))"
| "wf_json _ = True"

fun depth :: "json \<Rightarrow> nat" where
  "depth (JArr vs) = Suc (foldr max (map depth vs) 0)"
| "depth (JObj ms) = Suc (foldr max (map (\<lambda>p. depth (snd p)) ms) 0)"
| "depth _ = 0"

fun comma_sep :: "token list list \<Rightarrow> token list" where
  "comma_sep [] = []"
| "comma_sep [ts] = ts"
| "comma_sep (ts # tss) = ts @ TComma # comma_sep tss"

fun tokens :: "json \<Rightarrow> token list" where
  "tokens JNull = [TNull]"
| "tokens (JBool b) = [if b then TTrue else TFalse]"
| "tokens (JNum s) = [TNumber s]"
| "tokens (JStr s) = [TString s]"
| "tokens (JArr vs) = TLBracket # comma_sep (map tokens vs) @ [TRBracket]"
| "tokens (JObj ms) = TLBrace # comma_sep (map (\<lambda>(k, v). TString k # TColon # tokens v) ms) @ [TRBrace]"

lemma prefixed_simps [simp]:
  "prefixed [] r = r" "prefixed ts (prefixed us r) = prefixed (ts @ us) r"
  "prefixed ts (Some us) = Some (ts @ us)" "prefixed ts None = None"
  by (simp_all add: prefixed_def split: option.split)

text \<open>What may follow a value: nothing, a comma or a closing bracket.\<close>

definition ends_value :: "string \<Rightarrow> bool" where
  "ends_value rest \<longleftrightarrow> rest = [] \<or> hd rest \<in> {CHR '','', CHR '']'', CHR ''}''}"

lemma ends_value_simps [simp]:
  "ends_value []" "ends_value (CHR '','' # s)" "ends_value (CHR '']'' # s)" "ends_value (CHR ''}'' # s)"
  by (simp_all add: ends_value_def)

lemma lex_start_punct [simp]:
  "lex_start CHR ''['' = Some (LStart, [TLBracket])" "lex_start CHR '']'' = Some (LStart, [TRBracket])"
  "lex_start CHR ''{'' = Some (LStart, [TLBrace])" "lex_start CHR ''}'' = Some (LStart, [TRBrace])"
  "lex_start CHR '':'' = Some (LStart, [TColon])" "lex_start CHR '','' = Some (LStart, [TComma])"
  "lex_start CHR 0x22 = Some (LStr '''', [])"
  "lex_start CHR ''n'' = Some (LWord ''ull'' TNull, [])" "lex_start CHR ''t'' = Some (LWord ''rue'' TTrue, [])"
  "lex_start CHR ''f'' = Some (LWord ''alse'' TFalse, [])"
  by (simp_all add: lex_start_def json_space_def digit_def)

fun lex_acc :: "lex_state \<Rightarrow> string" where
  "lex_acc (LStr acc) = acc"
| "lex_acc (LEsc acc) = acc"
| "lex_acc (LHex n acc) = acc"
| "lex_acc _ = ''''"

lemma lex_raw:
  "valid_raw st r \<Longrightarrow> st \<noteq> LStart \<Longrightarrow> (\<And>n acc. st \<noteq> LNum n acc) \<Longrightarrow> (\<And>w t. st \<noteq> LWord w t) \<Longrightarrow>
     lex_from st (r @ CHR 0x22 # rest) = prefixed [TString (lex_acc st @ r)] (lex_from LStart rest)"
proof (induction r arbitrary: st)
  case Nil
  then show ?case by (cases st) (auto simp: )
next
  case (Cons c r)
  then obtain st' where st': "lex_step st c = Some (st', [])" "valid_raw st' r" "st' \<noteq> LStart"
    by (auto split: option.splits prod.splits list.splits)
  then have acc: "lex_acc st' = lex_acc st @ [c]" "\<And>n acc. st' \<noteq> LNum n acc" "\<And>w t. st' \<noteq> LWord w t"
    using Cons.prems(2-4) by (cases st; auto split: if_splits)+
  from Cons.IH [OF st'(2,3) acc(2,3)] st'(1) acc(1) show ?case by simp
qed

lemma lex_quoted:
  "valid_raw (LStr '''') r \<Longrightarrow>
     lex_from LStart (quoted r @ rest) = prefixed [TString r] (lex_from LStart rest)"
  using lex_raw [of "LStr ''''" r rest] by (simp add: quoted_def )

lemma ends_value_num:
  assumes "ends_value (c # rest)"
  shows "num_step st c = None"
  using assms by (cases st) (auto simp: ends_value_def after_int_def digit_def)

lemma lex_num:
  "num_run st cs \<Longrightarrow> ends_value rest \<Longrightarrow>
     lex_from (LNum st acc) (cs @ rest) = prefixed [TNumber (acc @ cs)] (lex_from LStart rest)"
proof (induction cs arbitrary: st acc)
  case Nil
  show ?case
  proof (cases rest)
    case Nil
    with \<open>num_run st []\<close> show ?thesis by simp
  next
    case (Cons c rest')
    with \<open>num_run st []\<close> ends_value_num [of c rest' st] \<open>ends_value rest\<close> show ?thesis
      by (cases "lex_start c") (auto simp:)
  qed
next
  case (Cons c cs)
  then obtain st' where "num_step st c = Some st'" "num_run st' cs" by (auto split: option.splits)
  with Cons.IH [OF this(2) Cons.prems(2), of "acc @ [c]"] show ?case
    by simp
qed

lemma lex_number:
  assumes "valid_number s" "ends_value rest"
  shows "lex_from LStart (s @ rest) = prefixed [TNumber s] (lex_from LStart rest)"
proof (cases s)
  case (Cons c cs)
  have d: "digit c \<Longrightarrow> \<not> json_space c \<and> c \<notin> set ''[]{}:,-'' \<and> c \<noteq> CHR 0x22"
    by (auto simp: digit_def json_space_def)
  show ?thesis
  proof (cases "c = CHR ''-'' \<or> c = CHR ''0''")
    case True
    with assms Cons lex_num [of _ cs rest "[c]"] show ?thesis
      by (auto simp: lex_start_def json_space_def )
  next
    case False
    with assms Cons d lex_num [of NInt cs rest "[c]"] show ?thesis
      by (auto simp: lex_start_def )
  qed
qed (use assms in simp)

lemma lex_punct [simp]:
  "lex_from LStart (CHR ''['' # s) = prefixed [TLBracket] (lex_from LStart s)"
  "lex_from LStart (CHR '']'' # s) = prefixed [TRBracket] (lex_from LStart s)"
  "lex_from LStart (CHR ''{'' # s) = prefixed [TLBrace] (lex_from LStart s)"
  "lex_from LStart (CHR ''}'' # s) = prefixed [TRBrace] (lex_from LStart s)"
  "lex_from LStart (CHR '':'' # s) = prefixed [TColon] (lex_from LStart s)"
  "lex_from LStart (CHR '','' # s) = prefixed [TComma] (lex_from LStart s)"
  by (simp_all add:)

lemma commas_Cons: "ss \<noteq> [] \<Longrightarrow> commas (s # ss) = s @ CHR '','' # commas ss"
  by (cases ss) simp_all

lemma comma_sep_Cons: "tss \<noteq> [] \<Longrightarrow> comma_sep (ts # tss) = ts @ TComma # comma_sep tss"
  by (cases tss) simp_all

text \<open>A list of texts that the lexer reads one by one is read with its commas.\<close>

lemma lex_commas:
  "(\<And>x rest. x \<in> set xs \<Longrightarrow> ends_value rest \<Longrightarrow>
      lex_from LStart (f x @ rest) = prefixed (g x) (lex_from LStart rest)) \<Longrightarrow>
   ends_value rest \<Longrightarrow>
   lex_from LStart (commas (map f xs) @ rest) = prefixed (comma_sep (map g xs)) (lex_from LStart rest)"
proof (induction xs)
  case (Cons x xs)
  show ?case
  proof (cases "xs = []")
    case True
    with Cons.prems show ?thesis by simp
  next
    case False
    with Cons.prems(1) [of x "CHR '','' # commas (map f xs) @ rest"] Cons.IH Cons.prems
    show ?thesis by (simp add: commas_Cons comma_sep_Cons)
  qed
qed (simp)

lemma lex_print:
  "wf_json j \<Longrightarrow> ends_value rest \<Longrightarrow>
     lex_from LStart (json_print j @ rest) = prefixed (tokens j) (lex_from LStart rest)"
proof (induction j arbitrary: rest)
  case (JArr vs)
  from lex_commas [of vs json_print tokens "CHR '']'' # rest"] JArr.IH JArr.prems show ?case
    by simp
next
  case (JObj ms)
  have "lex_from LStart ((case p of (k, v) \<Rightarrow> quoted k @ '':'' @ json_print v) @ rest) =
      prefixed (case p of (k, v) \<Rightarrow> TString k # TColon # tokens v) (lex_from LStart rest)"
    if "p \<in> set ms" "ends_value rest" for p rest
  proof -
    obtain k v where p: "p = (k, v)" by (cases p)
    with that JObj.prems have "valid_raw (LStr '''') k" "wf_json v" by auto
    with p that JObj.IH [OF that(1), of v rest] show ?thesis
      by (simp add: lex_quoted)
  qed
  from lex_commas [of ms "\<lambda>(k, v). quoted k @ '':'' @ json_print v" "\<lambda>(k, v). TString k # TColon # tokens v"
      "CHR ''}'' # rest", OF this] show ?case
    by simp
next
  case (JBool b)
  show ?case by (cases b) (simp_all add:)
qed (simp_all add: lex_number lex_quoted)

lemma open_frame_ok: "length fs < max_nesting \<Longrightarrow> open_frame f fs = Some (MFirst, f # fs)"
  by (simp add: open_frame_def)

text \<open>The modes in which a value may come.\<close>

definition value_mode :: "mode \<Rightarrow> frame list \<Rightarrow> bool" where
  "value_mode m fs \<longleftrightarrow> m = MValue \<or> m = MFirst \<and> (\<exists>vs gs. fs = FArr vs # gs)"

lemma value_mode_step:
  "value_mode m fs \<Longrightarrow> t \<noteq> TRBracket \<Longrightarrow> parse_step (m, fs) t = parse_value t fs"
  by (auto simp: value_mode_def parse_step_def)

lemma parse_elements:
  assumes "\<And>v m fs ts. v \<in> set vs \<Longrightarrow> value_mode m fs \<Longrightarrow> length fs = n \<Longrightarrow>
      parse_from (m, fs) (tokens v @ ts) = parse_from (put v fs) ts"
    "vs \<noteq> []" "value_mode m (FArr us # fs)" "Suc (length fs) = n"
  shows "parse_from (m, FArr us # fs) (comma_sep (map tokens vs) @ TRBracket # ts) =
    parse_from (put (JArr (us @ vs)) fs) ts"
  using assms
proof (induction vs arbitrary: us m)
  case (Cons v vs)
  show ?case
  proof (cases "vs = []")
    case True
    with Cons.prems show ?thesis by (simp add: parse_step_def)
  next
    case False
    have "value_mode MValue (FArr (us @ [v]) # fs)" by (simp add: value_mode_def)
    with Cons.IH [of MValue "us @ [v]"] Cons.prems False show ?thesis
      by (simp add: comma_sep_Cons parse_step_def)
  qed
qed simp

lemma parse_members:
  assumes "\<And>p fs ts. p \<in> set ms \<Longrightarrow> length fs = n \<Longrightarrow>
      parse_from (MValue, fs) (tokens (snd p) @ ts) = parse_from (put (snd p) fs) ts"
    "ms \<noteq> []" "m = MFirst \<or> m = MKey" "Suc (length fs) = n"
  shows "parse_from (m, FObj us k # fs)
      (comma_sep (map (\<lambda>(k, v). TString k # TColon # tokens v) ms) @ TRBrace # ts) =
    parse_from (put (JObj (us @ ms)) fs) ts"
  using assms
proof (induction ms arbitrary: us m k)
  case (Cons p ms)
  obtain k' v where p: "p = (k', v)" by (cases p)
  have key: "parse_step (m, FObj us k # fs) (TString k') = Some (MColon, FObj us k' # fs)"
    using Cons.prems(3) by (auto simp: parse_step_def)
  have val: "parse_from (MValue, FObj us k' # fs) (tokens v @ ts) = parse_from (put v (FObj us k' # fs)) ts" for ts
    using Cons.prems(1) [of p] p Cons.prems(4) by simp
  show ?case
  proof (cases "ms = []")
    case True
    with p key val show ?thesis by (simp add: parse_step_def)
  next
    case False
    with Cons.IH [of MKey "us @ [p]" k'] Cons.prems p key val show ?thesis
      by (simp add: comma_sep_Cons parse_step_def)
  qed
qed simp

lemma depth_le: "v \<in> set vs \<Longrightarrow> f v \<le> foldr max (map f vs) (0 :: nat)"
  by (induction vs) auto

lemma parse_tokens:
  "value_mode m fs \<Longrightarrow> length fs + depth j \<le> max_nesting \<Longrightarrow>
     parse_from (m, fs) (tokens j @ ts) = parse_from (put j fs) ts"
proof (induction j arbitrary: m fs ts)
  case (JArr vs)
  have "length fs < max_nesting" using JArr.prems(2) by simp
  then have first: "parse_step (m, fs) TLBracket = Some (MFirst, FArr [] # fs)"
    using JArr.prems(1) by (simp add: value_mode_step parse_value_def open_frame_ok)
  show ?case
  proof (cases "vs = []")
    case True
    with first show ?thesis by (simp add: parse_step_def)
  next
    case False
    have "parse_from (m', gs) (tokens v @ us) = parse_from (put v gs) us"
      if "v \<in> set vs" "value_mode m' gs" "length gs = Suc (length fs)" for v m' gs us
      using that JArr.IH [of v m' gs us] depth_le [of v vs depth] JArr.prems(2) by simp
    from parse_elements [of vs "Suc (length fs)" MFirst "[]" fs ts, OF this] False first
    show ?thesis by (simp add: value_mode_def)
  qed
next
  case (JObj ms)
  have "length fs < max_nesting" using JObj.prems(2) by simp
  then have first: "parse_step (m, fs) TLBrace = Some (MFirst, FObj [] '''' # fs)"
    using JObj.prems(1) by (simp add: value_mode_step parse_value_def open_frame_ok)
  show ?case
  proof (cases "ms = []")
    case True
    with first show ?thesis by (simp add: parse_step_def)
  next
    case False
    have "parse_from (MValue, gs) (tokens (snd p) @ us) = parse_from (put (snd p) gs) us"
      if "p \<in> set ms" "length gs = Suc (length fs)" for p gs us
    proof -
      have "snd p \<in> Basic_BNFs.snds p" by (cases p) simp
      with that JObj.IH [of p "snd p" MValue gs us] depth_le [of p ms "\<lambda>p. depth (snd p)"] JObj.prems(2)
      show ?thesis by (simp add: value_mode_def)
    qed
    from parse_members [of ms "Suc (length fs)" MFirst fs "[]" "[]" ts, OF this] False first
    show ?thesis by simp
  qed
qed (simp_all add: value_mode_step parse_value_def)

text \<open>Parsing the printed text of a tree gives the tree back.\<close>

lemma json_parse_print:
  assumes "wf_json j" "depth j \<le> max_nesting"
  shows "json_parse (json_print j) = Some j"
  using lex_print [OF assms(1), of "[]"] parse_tokens [of MValue "[]" j "[]"] assms(2)
  by (simp add: json_parse_def value_mode_def)

end
