(* ===== verification/JsonString.thy ===== *)
theory JsonString
  imports Json Base64
begin

text \<open>
  The text of JSON string literals and the byte strings they stand for, as \<open>encoding/json\<close>
  converts between them: UTF-8 sequences are validated (an invalid byte becomes U+FFFD),
  the encoder also escapes \<open><\<close>, \<open>>\<close>, \<open>&\<close>, U+2028 and U+2029, the decoder joins surrogate
  pairs and replaces lone surrogates.
\<close>

section \<open>UTF-8\<close>

definition continuation :: "char \<Rightarrow> bool" where
  "continuation c \<longleftrightarrow> 128 \<le> byte c \<and> byte c \<le> 191"

text \<open>The length of the well-formed sequence at the head; 0 when there is none.\<close>

definition utf8_len :: "string \<Rightarrow> nat" where
  "utf8_len s =
     (case s of
        [] \<Rightarrow> 0
      | a # t \<Rightarrow>
          if byte a < 128 then 1
          else if 194 \<le> byte a \<and> byte a \<le> 223 then
            (case t of b # _ \<Rightarrow> if continuation b then 2 else 0 | _ \<Rightarrow> 0)
          else if 224 \<le> byte a \<and> byte a \<le> 239 then
            (case t of
               b # c # _ \<Rightarrow>
                 if (if byte a = 224 then 160 else 128) \<le> byte b \<and>
                    byte b \<le> (if byte a = 237 then 159 else 191) \<and> continuation c then 3 else 0
             | _ \<Rightarrow> 0)
          else if 240 \<le> byte a \<and> byte a \<le> 244 then
            (case t of
               b # c # d # _ \<Rightarrow>
                 if (if byte a = 240 then 144 else 128) \<le> byte b \<and>
                    byte b \<le> (if byte a = 244 then 143 else 191) \<and> continuation c \<and> continuation d then 4 else 0
             | _ \<Rightarrow> 0)
          else 0)"

definition utf8_of :: "nat \<Rightarrow> bytes" where
  "utf8_of n =
     (if n < 128 then [chr n]
      else if n < 2048 then [chr (192 + n div 64), chr (128 + n mod 64)]
      else if n < 65536 then [chr (224 + n div 4096), chr (128 + n div 64 mod 64), chr (128 + n mod 64)]
      else [chr (240 + n div 262144), chr (128 + n div 4096 mod 64), chr (128 + n div 64 mod 64),
            chr (128 + n mod 64)])"

definition replacement :: bytes where
  "replacement = [CHR 0xEF, CHR 0xBF, CHR 0xBD]"

function utf8_valid :: "string \<Rightarrow> bool" where
  "utf8_valid [] = True"
| "utf8_valid (c # cs) = (case utf8_len (c # cs) of 0 \<Rightarrow> False | Suc n \<Rightarrow> utf8_valid (drop n cs))"
  by pat_completeness auto
termination by (relation "measure length") auto

section \<open>Encoding\<close>

abbreviation backslash :: char where
  "backslash \<equiv> CHR 0x5C"

definition hex_char :: "nat \<Rightarrow> char" where
  "hex_char n = ''0123456789abcdef'' ! n"

definition quote_ascii :: "char \<Rightarrow> string" where
  "quote_ascii c =
     (if c = CHR 0x22 \<or> c = backslash then [backslash, c]
      else if c = CHR 0x08 then [backslash, CHR ''b'']
      else if c = CHR 0x0C then [backslash, CHR ''f'']
      else if c = CHR 0x0A then [backslash, CHR ''n'']
      else if c = CHR 0x0D then [backslash, CHR ''r'']
      else if c = CHR 0x09 then [backslash, CHR ''t'']
      else if byte c < 32 \<or> c = CHR ''<'' \<or> c = CHR ''>'' \<or> c = CHR ''&''
      then [backslash, CHR ''u'', CHR ''0'', CHR ''0'', hex_char (byte c div 16), hex_char (byte c mod 16)]
      else [c])"

definition quote_rune :: "string \<Rightarrow> string" where
  "quote_rune s =
     (if s = [CHR 0xE2, CHR 0x80, CHR 0xA8] then backslash # ''u2028''
      else if s = [CHR 0xE2, CHR 0x80, CHR 0xA9] then backslash # ''u2029'' else s)"

function quote :: "string \<Rightarrow> string" where
  "quote [] = ''''"
| "quote (c # cs) =
     (if byte c < 128 then quote_ascii c @ quote cs
      else case utf8_len (c # cs) of
        0 \<Rightarrow> (backslash # ''ufffd'') @ quote cs
      | Suc n \<Rightarrow> quote_rune (c # take n cs) @ quote (drop n cs))"
  by pat_completeness auto
termination by (relation "measure length") auto

section \<open>Decoding\<close>

definition hex_val :: "char \<Rightarrow> nat option" where
  "hex_val c =
     (if 48 \<le> byte c \<and> byte c \<le> 57 then Some (byte c - 48)
      else if 97 \<le> byte c \<and> byte c \<le> 102 then Some (byte c - 87)
      else if 65 \<le> byte c \<and> byte c \<le> 70 then Some (byte c - 55) else None)"

text \<open>The number of four hex digits, and the rest.\<close>

definition hex4 :: "string \<Rightarrow> (nat \<times> string) option" where
  "hex4 s =
     (case s of
        a # b # c # d # r \<Rightarrow>
          (case (hex_val a, hex_val b, hex_val c, hex_val d) of
             (Some w, Some x, Some y, Some z) \<Rightarrow> Some (((w * 16 + x) * 16 + y) * 16 + z, r)
           | _ \<Rightarrow> None)
      | _ \<Rightarrow> None)"

text \<open>What follows \<open>\u\<close>: the bytes it stands for, and the rest. In a literal that the lexer accepted every
  escape is one of the known ones and \<open>\u\<close> has its four digits; anything else, which cannot come, is
  read as U+FFFD.\<close>

definition unescape_u :: "string \<Rightarrow> bytes \<times> string" where
  "unescape_u s =
     (case hex4 s of
        None \<Rightarrow> (replacement, [])
      | Some (u, r) \<Rightarrow>
          if 55296 \<le> u \<and> u < 57344 then
            (case r of
               b # e # r' \<Rightarrow>
                 (if b = backslash \<and> e = CHR ''u'' then
                    (case hex4 r' of
                       Some (v, r'') \<Rightarrow>
                         if u < 56320 \<and> 56320 \<le> v \<and> v < 57344
                         then (utf8_of (65536 + (u - 55296) * 1024 + (v - 56320)), r'') else (replacement, r)
                     | None \<Rightarrow> (replacement, r))
                  else (replacement, r))
             | _ \<Rightarrow> (replacement, r))
          else (utf8_of u, r))"

definition unescape :: "string \<Rightarrow> bytes \<times> string" where
  "unescape s =
     (case s of
        [] \<Rightarrow> ([], [])
      | c # r \<Rightarrow>
          if c = CHR ''u'' then unescape_u r
          else (if c = CHR ''b'' then [CHR 0x08] else if c = CHR ''f'' then [CHR 0x0C]
                else if c = CHR ''n'' then [CHR 0x0A] else if c = CHR ''r'' then [CHR 0x0D]
                else if c = CHR ''t'' then [CHR 0x09]
                else if c = CHR 0x22 \<or> c = backslash \<or> c = CHR ''/'' then [c] else replacement, r))"

lemma hex4_length: "hex4 s = Some (u, r) \<Longrightarrow> length r < length s"
  by (auto simp: hex4_def split: list.splits option.splits)

lemma unescape_length: "length (snd (unescape s)) \<le> length s"
  by (auto simp: unescape_def unescape_u_def split: list.splits option.splits dest!: hex4_length)

function unquote :: "string \<Rightarrow> bytes" where
  "unquote [] = []"
| "unquote (c # cs) =
     (if c = backslash then fst (unescape cs) @ unquote (snd (unescape cs))
      else if byte c < 128 then c # unquote cs
      else case utf8_len (c # cs) of
        0 \<Rightarrow> replacement @ unquote cs
      | Suc n \<Rightarrow> c # take n cs @ unquote (drop n cs))"
  by pat_completeness auto
termination
  by (relation "measure length") (auto simp: le_imp_less_Suc unescape_length)

section \<open>Round trip\<close>

lemma below_16: "(n :: nat) < 16 \<Longrightarrow> n \<in> {0, 1, 2, 3, 4, 5, 6, 7, 8, 9, 10, 11, 12, 13, 14, 15}"
  by (simp add: numeral_eq_Suc less_Suc_eq)

lemma hex_val_char [simp]: "n < 16 \<Longrightarrow> hex_val (hex_char n) = Some n"
proof -
  assume "n < 16"
  then have "n \<in> {0, 1, 2, 3, 4, 5, 6, 7, 8, 9, 10, 11, 12, 13, 14, 15}" by (rule below_16)
  then show ?thesis by (auto simp: hex_val_def hex_char_def)
qed

lemma hex_digit_char [simp]: "n < 16 \<Longrightarrow> hex_digit (hex_char n)"
proof -
  assume "n < 16"
  then have "n \<in> {0, 1, 2, 3, 4, 5, 6, 7, 8, 9, 10, 11, 12, 13, 14, 15}" by (rule below_16)
  then show ?thesis by (auto simp: hex_digit_def digit_def hex_char_def)
qed

lemma utf8_len_take:
  "utf8_len (c # cs) = Suc n \<Longrightarrow> utf8_len (c # take n cs @ r) = Suc n \<and> length (take n cs) = n"
  by (auto simp: utf8_len_def split: if_splits list.splits)

lemma backslash_ascii: "byte backslash < 128"
  by simp

lemma unquote_ascii:
  assumes "byte c < 128"
  shows "unquote (quote_ascii c @ r) = c # unquote r"
proof -
  have "byte c div 16 < 16" "byte c mod 16 < 16" "hex_val CHR ''0'' = Some 0"
    using assms by (auto simp: hex_val_def)
  with assms show ?thesis
    by (auto simp: quote_ascii_def unescape_def unescape_u_def hex4_def utf8_of_def)
qed

lemma high_chars:
  "CHR 0xE2 = chr 226" "CHR 0x80 = chr 128" "CHR 0xA8 = chr 168" "CHR 0xA9 = chr 169"
  by code_simp+

lemma unquote_rune:
  assumes "128 \<le> byte c" "utf8_len (c # cs) = Suc n"
  shows "unquote (quote_rune (c # take n cs) @ r) = c # take n cs @ unquote r"
proof (cases "quote_rune (c # take n cs) = c # take n cs")
  case True
  have "c \<noteq> backslash" using assms(1) by auto
  with True assms(1) utf8_len_take [OF assms(2), of r] show ?thesis by simp
next
  case False
  then have "c # take n cs = [CHR 0xE2, CHR 0x80, CHR 0xA8] \<and> quote_rune (c # take n cs) = backslash # ''u2028''
      \<or> c # take n cs = [CHR 0xE2, CHR 0x80, CHR 0xA9] \<and> quote_rune (c # take n cs) = backslash # ''u2029''"
    by (auto simp: quote_rune_def split: if_splits)
  moreover have "unescape (''u2028'' @ r) = ([CHR 0xE2, CHR 0x80, CHR 0xA8], r)"
    "unescape (''u2029'' @ r) = ([CHR 0xE2, CHR 0x80, CHR 0xA9], r)"
    by (simp_all add: unescape_def unescape_u_def hex4_def hex_val_def utf8_of_def) (simp_all flip: high_chars)
  ultimately show ?thesis by auto
qed

lemma unquote_quote: "utf8_valid s \<Longrightarrow> unquote (quote s) = s"
proof (induction s rule: quote.induct)
  case (2 c cs)
  show ?case
  proof (cases "byte c < 128")
    case True
    with 2 show ?thesis by (simp add: unquote_ascii utf8_len_def)
  next
    case False
    with 2 unquote_rune [of c cs] show ?thesis by (auto split: nat.splits)
  qed
qed simp

lemma raw_ascii:
  assumes "byte c < 128"
  shows "valid_raw (LStr acc) (quote_ascii c @ r) = valid_raw (LStr (acc @ quote_ascii c)) r"
proof -
  have "byte c div 16 < 16" "byte c mod 16 < 16" "hex_digit CHR ''0''"
    using assms by (auto simp: hex_digit_def digit_def)
  with assms show ?thesis by (auto simp: quote_ascii_def)
qed

lemma raw_high: "\<forall>c \<in> set s. 128 \<le> byte c \<Longrightarrow> valid_raw (LStr acc) (s @ r) = valid_raw (LStr (acc @ s)) r"
proof (induction s arbitrary: acc)
  case (Cons c s)
  then have "c \<noteq> CHR 0x22" "c \<noteq> backslash" "\<not> byte c < 32" by auto
  with Cons show ?case by simp
qed simp

lemma utf8_len_high: "utf8_len (c # cs) = Suc n \<Longrightarrow> 128 \<le> byte c \<Longrightarrow> \<forall>d \<in> set (c # take n cs). 128 \<le> byte d"
  by (auto simp: utf8_len_def continuation_def split: if_splits list.splits)

lemma valid_raw_quote: "valid_raw (LStr acc) (quote s)"
proof (induction s arbitrary: acc rule: quote.induct)
  case (2 c cs)
  show ?case
  proof (cases "byte c < 128")
    case True
    with 2(1) show ?thesis by (simp add: raw_ascii)
  next
    case False
    have h: "hex_digit CHR ''0''" "hex_digit CHR ''2''" "hex_digit CHR ''8''" "hex_digit CHR ''9''"
      "hex_digit CHR ''f''" "hex_digit CHR ''d''" by (simp_all add: hex_digit_def digit_def)
    show ?thesis
    proof (cases "utf8_len (c # cs)")
      case 0
      with False 2(2) h show ?thesis by simp
    next
      case (Suc n)
      have "valid_raw (LStr acc) (quote_rune (c # take n cs) @ quote (drop n cs))"
      proof (cases "quote_rune (c # take n cs) = c # take n cs")
        case True
        have "\<forall>d \<in> set (c # take n cs). 128 \<le> byte d" using utf8_len_high [OF Suc] False by simp
        from raw_high [OF this, of acc] True 2(3) [OF False Suc] show ?thesis by simp
      next
        case no: False
        then have "quote_rune (c # take n cs) \<in> {backslash # ''u2028'', backslash # ''u2029''}"
          by (auto simp: quote_rune_def split: if_splits)
        with 2(3) [OF False Suc] h show ?thesis by auto
      qed
      with False Suc show ?thesis by simp
    qed
  qed
qed simp

end
