(* ===== verification/Decimal.thy ===== *)
theory Decimal
  imports JsonString
begin

text \<open>
  Decimal texts of integers as \<open>strconv\<close> prints and reads them, and that these texts are
  numbers of JSON.
\<close>

section \<open>Digits\<close>

definition digit_char :: "nat \<Rightarrow> char" where
  "digit_char n = chr (48 + n)"

definition digit_val :: "char \<Rightarrow> nat" where
  "digit_val c = byte c - 48"

function nat_text :: "nat \<Rightarrow> string" where
  "nat_text n = (if n < 10 then [digit_char n] else nat_text (n div 10) @ [digit_char (n mod 10)])"
  by pat_completeness auto
termination by (relation "measure id") auto

declare nat_text.simps [simp del]

definition digits_val :: "string \<Rightarrow> nat" where
  "digits_val s = foldl (\<lambda>n c. n * 10 + digit_val c) 0 s"

lemma digits_bytes: "[48..<58] = map byte ''0123456789''" by simp
lemma digit_iff: "digit c \<longleftrightarrow> 48 \<le> byte c \<and> byte c \<le> 57"
proof -
  have "48 \<le> byte c \<and> byte c \<le> 57 \<longleftrightarrow> byte c \<in> set [48..<58]" unfolding set_upt by auto
  also have "\<dots> \<longleftrightarrow> c \<in> set ''0123456789''"
    unfolding digits_bytes set_map by (rule inj_image_mem_iff [OF inj_of_char])
  finally show ?thesis by (simp only: digit_def)
qed

lemma digit_char_simps [simp]:
  assumes "n < 10"
  shows "digit (digit_char n)" "digit_val (digit_char n) = n"
proof -
  have "byte (chr (48 + n)) = 48 + n" using assms by (simp add: take_bit_nat_eq_self)
  then show "digit (digit_char n)" "digit_val (digit_char n) = n"
    using assms by (simp_all add: digit_iff digit_char_def digit_val_def)
qed

lemma digits_val_append [simp]: "digits_val (s @ [c]) = digits_val s * 10 + digit_val c"
  by (simp add: digits_val_def)

lemma digits_val_Nil [simp]: "digits_val [] = 0"
  by (simp add: digits_val_def)

lemma digits_val_nat_text [simp]: "digits_val (nat_text n) = n"
proof (induction n rule: nat_text.induct)
  case (1 n)
  show ?case
  proof (cases "n < 10")
    case True
    then show ?thesis using digits_val_append [of "[]" "digit_char n"] by (simp add: nat_text.simps)
  next
    case False
    with 1 show ?thesis by (subst nat_text.simps) simp
  qed
qed

lemma nat_text_digits: "\<forall>c \<in> set (nat_text n). digit c"
proof (induction n rule: nat_text.induct)
  case (1 n)
  then show ?case by (subst nat_text.simps) auto
qed

lemma nat_text_not_Nil [simp]: "nat_text n \<noteq> []"
  by (subst nat_text.simps) simp

lemma hd_nat_text: "0 < n \<Longrightarrow> hd (nat_text n) \<noteq> CHR ''0''"
proof (induction n rule: nat_text.induct)
  case (1 n)
  show ?case
  proof (cases "n < 10")
    case True
    have "digit_val (digit_char n) = n" using True by simp
    moreover have "digit_val CHR ''0'' = 0" by (simp add: digit_val_def)
    ultimately have "digit_char n \<noteq> CHR ''0''" using 1(2) by auto
    then show ?thesis using True by (subst nat_text.simps) simp
  next
    case False
    with 1 show ?thesis by (subst nat_text.simps) (simp add: hd_append)
  qed
qed

lemma digits_val_zeros: "digits_val (s @ replicate n CHR ''0'') = digits_val s * 10 ^ n"
proof (induction n)
  case (Suc n)
  have "s @ replicate (Suc n) CHR ''0'' = (s @ replicate n CHR ''0'') @ [CHR ''0'']"
    by (simp add: replicate_append_same)
  then show ?case by (simp only: digits_val_append Suc) (simp add: digit_val_def)
qed simp

lemma digits_val_leading: "digits_val (replicate n CHR ''0'' @ s) = digits_val s"
  by (induction s rule: rev_induct) (induction n, simp_all add: digits_val_def digit_val_def)

section \<open>Integers\<close>

definition int_text :: "int \<Rightarrow> string" where
  "int_text i = (if i < 0 then CHR ''-'' # nat_text (nat (- i)) else nat_text (nat i))"

definition int64_range :: "int \<Rightarrow> bool" where
  "int64_range i \<longleftrightarrow> - (2 ^ 63) \<le> i \<and> i < 2 ^ 63"

definition unsigned_val :: "string \<Rightarrow> nat option" where
  "unsigned_val s = (if s \<noteq> [] \<and> list_all digit s then Some (digits_val s) else None)"

text \<open>\<open>strconv.Atoi\<close>; on the text of a JSON number it agrees with \<open>strconv.ParseInt\<close>.\<close>

definition Atoi :: "string \<Rightarrow> int option" where
  "Atoi s =
     (let neg = (s \<noteq> [] \<and> hd s = CHR ''-'');
          body = (if s \<noteq> [] \<and> (hd s = CHR ''-'' \<or> hd s = CHR ''+'') then tl s else s)
      in case unsigned_val body of
           None \<Rightarrow> None
         | Some n \<Rightarrow> (let i = (if neg then - int n else int n) in if int64_range i then Some i else None))"

lemma nat_text_no_sign: "hd (nat_text n) \<noteq> CHR ''-'' \<and> hd (nat_text n) \<noteq> CHR ''+''"
proof -
  have "digit (hd (nat_text n))" using nat_text_digits hd_in_set [OF nat_text_not_Nil] by blast
  then show ?thesis by (auto simp: digit_def)
qed

lemma unsigned_val_nat_text [simp]: "unsigned_val (nat_text n) = Some n"
  using nat_text_digits by (simp add: unsigned_val_def list_all_iff)

lemma Atoi_int_text: "int64_range i \<Longrightarrow> Atoi (int_text i) = Some i"
  using nat_text_no_sign by (auto simp: Atoi_def int_text_def)

text \<open>The text is a JSON number.\<close>

lemma num_run_digits:
  "list_all digit s \<Longrightarrow> num_run NInt s" "list_all digit s \<Longrightarrow> num_run NFrac s"
  "list_all digit s \<Longrightarrow> num_run NExpDigits s"
  by (induction s) simp_all

lemma num_run_zero: "num_run NZero []"
  by simp

lemma valid_number_nat_text: "valid_number (nat_text n)"
proof (cases "n = 0")
  case True
  then show ?thesis by (simp add: nat_text.simps digit_char_def) code_simp
next
  case False
  obtain c s where s: "nat_text n = c # s" by (cases "nat_text n") simp_all
  with hd_nat_text [of n] False nat_text_digits [of n] nat_text_no_sign [of n] show ?thesis
    by (simp add: num_run_digits list_all_iff)
qed

lemma num_run_NNeg: "valid_number s \<Longrightarrow> s \<noteq> [] \<Longrightarrow> hd s \<noteq> CHR ''-'' \<Longrightarrow> valid_number (CHR ''-'' # s)"
  by (cases s) (auto split: if_splits)

lemma valid_number_int_text: "valid_number (int_text i)"
  using valid_number_nat_text num_run_NNeg nat_text_no_sign by (simp add: int_text_def)

end
