(* ===== verification/Float64.thy ===== *)
theory Float64
  imports Decimal Complex_Main
begin

text \<open>
  The decimal texts of float64 values: \<open>strconv.ParseFloat\<close> rounds a decimal correctly, ties to
  even, and fails on overflow; \<open>encoding/json\<close> writes the shortest digits that read back as
  the number, with an exponent below 1e-6 and from 1e21 on. What is written reads back.
\<close>

section \<open>Rounding a fraction to a float64\<close>

function bit_len :: "nat \<Rightarrow> nat" where
  "bit_len n = (if n = 0 then 0 else Suc (bit_len (n div 2)))"
  by pat_completeness auto
termination by (relation "measure id") auto

declare bit_len.simps [simp del]

text \<open>The fraction \<open>a / b\<close> divided by \<open>2 ^ ex\<close>.\<close>

definition scaled :: "nat \<Rightarrow> nat \<Rightarrow> int \<Rightarrow> nat \<times> nat" where
  "scaled a b ex = (a * 2 ^ nat (- ex), b * 2 ^ nat ex)"

text \<open>The weight of the last bit of a float64 near \<open>a / b\<close>: the quotient has 53 bits, fewer for
  a subnormal number.\<close>

definition f64_exponent :: "nat \<Rightarrow> nat \<Rightarrow> int" where
  "f64_exponent a b =
     (let l = int (bit_len a) - int (bit_len b)
      in max (- 1074) (if fst (scaled a b (l - 53)) < snd (scaled a b (l - 53)) * 2 ^ 53 then l - 53 else l - 52))"

definition round_even :: "nat \<Rightarrow> nat \<Rightarrow> nat" where
  "round_even n d =
     (if d < 2 * (n mod d) \<or> d = 2 * (n mod d) \<and> odd (n div d) then n div d + 1 else n div d)"

text \<open>The normal form of \<open>q * 2 ^ ex\<close>: an odd mantissa.\<close>

function strip_twos :: "nat \<Rightarrow> int \<Rightarrow> nat \<times> int" where
  "strip_twos q ex = (if q = 0 then (0, 0) else if even q then strip_twos (q div 2) (ex + 1) else (q, ex))"
  by pat_completeness auto
termination by (relation "measure fst") auto

declare strip_twos.simps [simp del]

definition f64_of_ratio :: "bool \<Rightarrow> nat \<Rightarrow> nat \<Rightarrow> f64 option" where
  "f64_of_ratio neg a b =
     (if a = 0 then Some (Fin neg 0 0)
      else let ex = f64_exponent a b;
               q = round_even (fst (scaled a b ex)) (snd (scaled a b ex));
               (m, e) = strip_twos q ex
           in if int (bit_len m) + e \<le> 1024 then Some (Fin neg m e) else None)"

fun valid_f64 :: "f64 \<Rightarrow> bool" where
  "valid_f64 (Fin neg m e) =
     (m = 0 \<and> e = 0 \<or> odd m \<and> m < 2 ^ 53 \<and> - 1074 \<le> e \<and> int (bit_len m) + e \<le> 1024)"
| "valid_f64 (Inf _) = True"
| "valid_f64 NaN = True"

definition f64_finite :: "f64 \<Rightarrow> bool" where
  "f64_finite v = (case v of Fin _ _ _ \<Rightarrow> True | _ \<Rightarrow> False)"

section \<open>A float64 is rounded to itself\<close>

lemma bit_len_bounds: "n < 2 ^ bit_len n \<and> (0 < n \<longrightarrow> 2 ^ bit_len n \<le> 2 * n)"
proof (induction n rule: bit_len.induct)
  case (1 n)
  show ?case
  proof (cases "n = 0")
    case True
    then show ?thesis by (simp add: bit_len.simps)
  next
    case False
    have s: "bit_len n = Suc (bit_len (n div 2))" using False by (subst bit_len.simps) simp
    from 1 [OF False] have "n div 2 < 2 ^ bit_len (n div 2)" by simp
    moreover have "2 ^ bit_len (n div 2) \<le> n"
    proof (cases "n div 2 = 0")
      case True
      then show ?thesis using False by (simp add: bit_len.simps)
    qed (use 1 [OF False] in auto)
    ultimately show ?thesis unfolding s power_Suc by linarith
  qed
qed

lemma scaled_real:
  assumes "0 < b" "scaled a b ex = (n, d)"
  shows "real n / real d = real a / real b / 2 powi ex"
  using assms by (cases "0 \<le> ex") (auto simp: scaled_def power_int_def field_simps)

lemma f64_exponent_lower:
  assumes "0 < a" "0 < b" "f64_exponent a b \<noteq> - 1074"
  shows "2 ^ 52 * 2 powi f64_exponent a b \<le> real a / real b"
proof -
  define l where "l = int (bit_len a) - int (bit_len b)"
  define n where "n = fst (scaled a b (l - 53))"
  define d where "d = snd (scaled a b (l - 53))"
  have ratio: "real n / real d = real a / real b / 2 powi (l - 53)"
    using scaled_real [OF assms(2), of a "l - 53" n d] by (simp add: n_def d_def)
  have "0 < d" using assms(2) by (simp add: d_def scaled_def)
  have ex: "f64_exponent a b = (if n < d * 2 ^ 53 then l - 53 else l - 52)"
    using assms(3) by (auto simp: f64_exponent_def l_def n_def d_def Let_def max_def split: if_splits)
  show ?thesis
  proof (cases "n < d * 2 ^ 53")
    case True
    have "2 ^ bit_len a \<le> 2 * a" "b < 2 ^ bit_len b" using bit_len_bounds assms by auto
    then have "real (2 ^ bit_len a) \<le> real (2 * a)" "real b < real (2 ^ bit_len b)"
      by (simp_all only: of_nat_le_iff of_nat_less_iff)
    then have ab: "2 ^ bit_len a \<le> 2 * real a" "real b < 2 ^ bit_len b" by simp_all
    have "2 powi l * real b \<le> 2 powi l * 2 ^ bit_len b" using ab(2) by simp
    also have "\<dots> = 2 ^ bit_len a" by (simp add: l_def power_int_diff)
    also have "\<dots> \<le> 2 * real a" by (rule ab(1))
    finally have "2 powi l / 2 \<le> real a / real b" using assms(2) by (simp add: field_simps)
    moreover have "2 ^ 52 * 2 powi f64_exponent a b = 2 powi l / (2 :: real)"
      using ex True by (simp add: power_int_diff)
    ultimately show ?thesis by (simp only:)
  next
    case False
    then have "real (d * 2 ^ 53) \<le> real n" by (simp only: of_nat_le_iff not_less)
    then have "real d * 2 ^ 53 \<le> real n" by simp
    then have "2 ^ 53 \<le> real n / real d" using \<open>0 < d\<close> by (simp add: field_simps)
    moreover have "0 < (2 :: real) powi (l - 53)" by simp
    ultimately have "2 ^ 53 * 2 powi (l - 53) \<le> real a / real b"
      unfolding ratio by (simp only: pos_le_divide_eq)
    moreover have "2 ^ 52 * 2 powi f64_exponent a b = 2 ^ 53 * (2 :: real) powi (l - 53)"
      using ex False by (simp add: power_int_diff)
    ultimately show ?thesis by (simp only:)
  qed
qed

lemma strip_twos_odd: "odd m \<Longrightarrow> strip_twos (m * 2 ^ k) ex = (m, ex + int k)"
proof (induction k arbitrary: ex)
  case 0
  then show ?case by (subst strip_twos.simps) (auto simp: odd_pos)
next
  case (Suc k)
  have "m * 2 ^ Suc k \<noteq> 0" "even (m * 2 ^ Suc k)" "m * 2 ^ Suc k div 2 = m * 2 ^ k"
    using Suc.prems by (auto simp: odd_pos)
  then have "strip_twos (m * 2 ^ Suc k) ex = strip_twos (m * 2 ^ k) (ex + 1)" by (subst strip_twos.simps) simp
  with Suc show ?case by simp
qed

lemma f64_of_ratio_exact:
  assumes "odd m" "m < 2 ^ 53" "- 1074 \<le> e" "int (bit_len m) + e \<le> 1024"
    "0 < b" "real a / real b = real m * 2 powi e"
  shows "f64_of_ratio neg a b = Some (Fin neg m e)"
proof -
  define ex where "ex = f64_exponent a b"
  obtain n d where nd: "scaled a b ex = (n, d)" by fastforce
  have "0 < m" using assms(1) by (simp add: odd_pos)
  have "0 < real m * 2 powi e" using \<open>0 < m\<close> by simp
  then have a: "0 < a" using assms(5,6) by (cases "a = 0") auto
  have d: "0 < d" using nd assms(5) by (auto simp: scaled_def)
  have le: "ex \<le> e"
  proof (rule ccontr)
    assume "\<not> ex \<le> e"
    then have "ex \<noteq> - 1074" using assms(3) by simp
    then have "2 ^ 52 * 2 powi ex \<le> real m * 2 powi e"
      using f64_exponent_lower [OF a assms(5)] assms(6) by (simp add: ex_def)
    moreover have "2 powi (e + 1) \<le> (2 powi ex :: real)"
      using \<open>\<not> ex \<le> e\<close> by (intro power_int_increasing) auto
    then have "2 ^ 52 * 2 powi (e + 1) \<le> 2 ^ 52 * (2 powi ex :: real)" by (rule mult_left_mono) simp
    ultimately have "2 ^ 52 * 2 powi (e + 1) \<le> real m * 2 powi e" by (rule order_trans [rotated])
    then have "2 ^ 53 \<le> real m" by (simp add: power_int_add)
    then show False using assms(2) by simp
  qed
  define k where "k = nat (e - ex)"
  have "real n / real d = real m * 2 ^ k"
  proof -
    have "real n / real d = real m * 2 powi e / 2 powi ex" using scaled_real [OF assms(5) nd] assms(6) by simp
    also have "\<dots> = real m * 2 powi (e - ex)" by (simp add: power_int_diff)
    also have "2 powi (e - ex) = (2 :: real) ^ k" using le by (simp add: k_def power_int_def)
    finally show ?thesis .
  qed
  then have "real n = real (m * 2 ^ k * d)" using d by (simp add: field_simps)
  then have n: "n = m * 2 ^ k * d" by (simp only: of_nat_eq_iff)
  then have "round_even n d = m * 2 ^ k" using d by (simp add: round_even_def)
  moreover have "strip_twos (m * 2 ^ k) ex = (m, e)"
    using strip_twos_odd [OF assms(1), of k ex] le by (simp add: k_def)
  ultimately show ?thesis using a nd assms(4) by (simp add: f64_of_ratio_def ex_def [symmetric] Let_def)
qed

section \<open>Reading\<close>

text \<open>The digits before and after the point, and the text after the letter e.\<close>

definition num_parts :: "string \<Rightarrow> string \<times> string \<times> string" where
  "num_parts s =
     (let r = dropWhile digit s;
          point = (r \<noteq> [] \<and> hd r = CHR ''.'');
          r' = (if point then dropWhile digit (tl r) else r)
      in (takeWhile digit s, if point then takeWhile digit (tl r) else [], tl r'))"

text \<open>\<open>strconv\<close> stops adding digits to the exponent once it has reached 10000.\<close>

definition exp_digits_val :: "string \<Rightarrow> nat" where
  "exp_digits_val s = foldl (\<lambda>n c. if n < 10000 then n * 10 + digit_val c else n) 0 s"

definition exp_val :: "string \<Rightarrow> int" where
  "exp_val s =
     (if s = [] then 0
      else if hd s = CHR ''-'' then - int (exp_digits_val (tl s))
      else if hd s = CHR ''+'' then int (exp_digits_val (tl s))
      else int (exp_digits_val s))"

definition f64_of_decimal :: "bool \<Rightarrow> nat \<Rightarrow> int \<Rightarrow> f64 option" where
  "f64_of_decimal neg d e =
     (if 0 \<le> e then f64_of_ratio neg (d * 10 ^ nat e) 1 else f64_of_ratio neg d (10 ^ nat (- e)))"

definition unsigned_float :: "bool \<Rightarrow> string \<Rightarrow> f64 option" where
  "unsigned_float neg s =
     (case num_parts s of (i, f, x) \<Rightarrow>
        f64_of_decimal neg (digits_val (i @ f)) (exp_val x - int (length f)))"

text \<open>\<open>strconv.ParseFloat(s, 64)\<close> on the text of a JSON number; None is the range error.\<close>

definition parse_float :: "string \<Rightarrow> f64 option" where
  "parse_float s =
     (if \<not> valid_number s then None
      else if hd s = CHR ''-'' then unsigned_float True (tl s) else unsigned_float False s)"

section \<open>Writing\<close>

text \<open>The exponent of the first decimal digit of \<open>a / b\<close>.\<close>

definition decimal_exponent :: "nat \<Rightarrow> nat \<Rightarrow> int" where
  "decimal_exponent a b =
     (if b \<le> a then int (length (nat_text (a div b))) - 1 else - int (length (nat_text ((b - 1) div a))))"

text \<open>The decimals with \<open>n\<close> digits next to \<open>a / b\<close>, the nearest first: an integer and the exponent
  of its last digit.\<close>

definition decimals :: "nat \<Rightarrow> nat \<Rightarrow> nat \<Rightarrow> (nat \<times> int) list" where
  "decimals a b n =
     (let t = decimal_exponent a b - int n + 1;
          (p, q) = (a * 10 ^ nat (- t), b * 10 ^ nat t);
          lo = p div q; r = p mod q
      in if r = 0 then [(lo, t)]
         else if 2 * r < q \<or> 2 * r = q \<and> even lo then [(lo, t), (lo + 1, t)]
         else [(lo + 1, t), (lo, t)])"

definition strip_zeros :: "string \<Rightarrow> string" where
  "strip_zeros s = rev (dropWhile (\<lambda>c. c = CHR ''0'') (rev s))"

text \<open>The digits \<open>ds\<close>, the first of which has the exponent \<open>x\<close>: the formats f and e, the latter with
  the leading zero of a negative exponent removed, as \<open>encoding/json\<close> does.\<close>

definition fixed_text :: "string \<Rightarrow> int \<Rightarrow> string" where
  "fixed_text ds x =
     (if x < 0 then ''0.'' @ replicate (nat (- x) - 1) CHR ''0'' @ ds
      else if length ds \<le> nat x + 1 then ds @ replicate (nat x + 1 - length ds) CHR ''0''
      else take (nat x + 1) ds @ ''.'' @ drop (nat x + 1) ds)"

definition exp_text :: "string \<Rightarrow> int \<Rightarrow> string" where
  "exp_text ds x =
     [hd ds] @ (if tl ds = [] then [] else ''.'' @ tl ds) @
     (if x < 0 then ''e-'' else ''e+'') @ nat_text (nat \<bar>x\<bar>)"

definition decimal_text :: "nat \<times> int \<Rightarrow> string" where
  "decimal_text p =
     (case p of (c, t) \<Rightarrow>
        let x = t + int (length (nat_text c)) - 1; ds = strip_zeros (nat_text c)
        in if x < - 6 \<or> 21 \<le> x then exp_text ds x else fixed_text ds x)"

text \<open>All digits of \<open>m * 2 ^ e\<close>.\<close>

definition exact_text :: "nat \<Rightarrow> int \<Rightarrow> string" where
  "exact_text m e =
     (if 0 \<le> e then nat_text (m * 2 ^ nat e) else nat_text (m * 5 ^ nat (- e)) @ ''e-'' @ nat_text (nat (- e)))"

definition signed :: "bool \<Rightarrow> string \<Rightarrow> string" where
  "signed neg s = (if neg then CHR ''-'' # s else s)"

text \<open>The shortest decimal that reads back as the number. Seventeen digits always do, so None is
  never the answer; where a text is wanted it stands for all digits of the number.\<close>

fun shortest :: "bool \<Rightarrow> nat \<Rightarrow> int \<Rightarrow> nat list \<Rightarrow> (nat \<times> int) option" where
  "shortest neg m e [] = None"
| "shortest neg m e (n # ns) =
     (let ds = (if 0 \<le> e then decimals (m * 2 ^ nat e) 1 n else decimals m (2 ^ nat (- e)) n)
      in case find (\<lambda>p. parse_float (signed neg (decimal_text p)) = Some (Fin neg m e)) ds of
           Some p \<Rightarrow> Some p
         | None \<Rightarrow> shortest neg m e ns)"

definition finite_text :: "bool \<Rightarrow> nat \<Rightarrow> int \<Rightarrow> string" where
  "finite_text neg m e =
     signed neg (if m = 0 then ''0''
       else case shortest neg m e [1..<18] of Some p \<Rightarrow> decimal_text p | None \<Rightarrow> exact_text m e)"

text \<open>None is the \<open>UnsupportedValueError\<close> for the infinities and NaN.\<close>

definition format_float :: "f64 \<Rightarrow> string option" where
  "format_float v =
     (case v of
        Fin neg m e \<Rightarrow> Some (finite_text neg m e)
      | _ \<Rightarrow> None)"

section \<open>Reading what was written\<close>

lemma takeWhile_digits [simp]:
  "takeWhile digit (nat_text n) = nat_text n" "dropWhile digit (nat_text n) = []"
  "takeWhile digit (nat_text n @ CHR ''e'' # r) = nat_text n"
  "dropWhile digit (nat_text n @ CHR ''e'' # r) = CHR ''e'' # r"
proof -
  have d: "\<And>c. c \<in> set (nat_text n) \<Longrightarrow> digit c" using nat_text_digits by blast
  have e: "\<not> digit CHR ''e''" by (simp add: digit_def)
  show "takeWhile digit (nat_text n) = nat_text n" "dropWhile digit (nat_text n) = []"
    using d by (auto simp: takeWhile_eq_all_conv)
  show "takeWhile digit (nat_text n @ CHR ''e'' # r) = nat_text n"
    "dropWhile digit (nat_text n @ CHR ''e'' # r) = CHR ''e'' # r"
    using d e by (simp_all add: takeWhile_append2 dropWhile_append2)
qed

lemma exp_digits_val_nat_text: "n < 100000 \<Longrightarrow> exp_digits_val (nat_text n) = n"
proof (induction n rule: nat_text.induct)
  case (1 n)
  show ?case
  proof (cases "n < 10")
    case True
    then show ?thesis by (subst nat_text.simps) (simp add: exp_digits_val_def)
  next
    case False
    have "exp_digits_val (nat_text (n div 10)) = n div 10" using 1 False by simp
    moreover have "n div 10 < 10000" using 1(2) by simp
    ultimately show ?thesis using False by (subst nat_text.simps) (simp add: exp_digits_val_def)
  qed
qed

lemma num_parts_exact:
  "num_parts (nat_text n) = (nat_text n, [], [])"
  "num_parts (nat_text n @ CHR ''e'' # r) = (nat_text n, [], r)"
  by (simp_all add: num_parts_def)

lemma power_10_5: "10 ^ n = 2 ^ n * (5 :: real) ^ n"
  by (simp flip: power_mult_distrib)

lemma unsigned_float_exact:
  assumes "odd m" "m < 2 ^ 53" "- 1074 \<le> e" "int (bit_len m) + e \<le> 1024"
  shows "unsigned_float neg (exact_text m e) = Some (Fin neg m e)"
proof (cases "0 \<le> e")
  case True
  have "f64_of_ratio neg (m * 2 ^ nat e) 1 = Some (Fin neg m e)"
    using True by (intro f64_of_ratio_exact assms) (simp_all add: power_int_def)
  with True show ?thesis
    by (simp add: exact_text_def unsigned_float_def num_parts_exact f64_of_decimal_def exp_val_def)
next
  case False
  define k where "k = nat (- e)"
  have k: "0 < k" "k < 100000" "int k = - e" using False assms(3) by (auto simp: k_def)
  have "real (m * 5 ^ k) / real (10 ^ k) = real m * 2 powi e"
    using False by (simp add: power_10_5 power_int_def k_def divide_simps)
  from f64_of_ratio_exact [OF assms _ this] have "f64_of_ratio neg (m * 5 ^ k) (10 ^ k) = Some (Fin neg m e)"
    by simp
  moreover have "exact_text m e = nat_text (m * 5 ^ k) @ CHR ''e'' # CHR ''-'' # nat_text k"
    using False by (simp add: exact_text_def k_def)
  moreover have "exp_val (CHR ''-'' # nat_text k) = - int k"
    using k by (simp add: exp_val_def exp_digits_val_nat_text)
  ultimately show ?thesis
    using k k_def [symmetric] by (simp add: unsigned_float_def num_parts_exact f64_of_decimal_def)
qed

lemma num_run_exp:
  "\<forall>c \<in> set s. digit c \<Longrightarrow> num_run NInt (s @ CHR ''e'' # CHR ''-'' # nat_text k)"
proof (induction s)
  case Nil
  obtain c r where c: "nat_text k = c # r" by (cases "nat_text k") simp_all
  with nat_text_digits [of k] have "digit c" "list_all digit r" by (auto simp: list_all_iff)
  with c show ?case by (simp add: digit_def after_int_def num_run_digits)
qed simp

lemma valid_number_exact:
  assumes "0 < m"
  shows "valid_number (exact_text m e)"
proof (cases "0 \<le> e")
  case False
  define n where "n = m * 5 ^ nat (- e)"
  have "0 < n" using assms by (simp add: n_def)
  obtain c s where s: "nat_text n = c # s" by (cases "nat_text n") simp_all
  with hd_nat_text [OF \<open>0 < n\<close>] nat_text_digits [of n] nat_text_no_sign [of n] num_run_exp [of s]
  show ?thesis using False by (simp add: exact_text_def n_def [symmetric])
qed (simp add: exact_text_def valid_number_nat_text)

lemma hd_exact: "hd (exact_text m e) \<noteq> CHR ''-'' \<and> exact_text m e \<noteq> []"
  using nat_text_no_sign by (auto simp: exact_text_def hd_append)

lemma parse_float_signed:
  "valid_number s \<Longrightarrow> hd s \<noteq> CHR ''-'' \<Longrightarrow> s \<noteq> [] \<Longrightarrow> parse_float (signed neg s) = unsigned_float neg s"
  using num_run_NNeg [of s] by (simp add: parse_float_def signed_def)

lemma shortest_reads_back:
  "shortest neg m e ns = Some p \<Longrightarrow> parse_float (signed neg (decimal_text p)) = Some (Fin neg m e)"
  by (induction ns) (auto simp: Let_def find_Some_iff split: option.splits)

lemma parse_float_zero: "parse_float (signed neg ''0'') = Some (Fin neg 0 0)"
proof -
  have "valid_number ''0''" "unsigned_float neg ''0'' = Some (Fin neg 0 0)"
    by (simp_all add: after_int_def digit_def unsigned_float_def num_parts_def exp_val_def f64_of_decimal_def
        f64_of_ratio_def digits_val_def digit_val_def)
  then show ?thesis using parse_float_signed by simp
qed

lemma parse_finite_text:
  assumes "valid_f64 (Fin neg m e)"
  shows "parse_float (finite_text neg m e) = Some (Fin neg m e)"
proof (cases "m = 0")
  case True
  with assms parse_float_zero show ?thesis by (auto simp: finite_text_def)
next
  case False
  with assms have v: "odd m" "m < 2 ^ 53" "- 1074 \<le> e" "int (bit_len m) + e \<le> 1024" by auto
  from False parse_float_signed [OF valid_number_exact] hd_exact [of m e] unsigned_float_exact [OF v]
  have "parse_float (signed neg (exact_text m e)) = Some (Fin neg m e)" by simp
  with False show ?thesis
    by (cases "shortest neg m e [1..<18]")
      (simp_all only: finite_text_def option.case if_False shortest_reads_back)
qed

lemma parse_format_float: "valid_f64 v \<Longrightarrow> format_float v = Some s \<Longrightarrow> parse_float s = Some v"
  using parse_finite_text by (cases v) (auto simp del: valid_f64.simps simp: format_float_def)

lemma parse_float_valid: "parse_float s = Some v \<Longrightarrow> valid_number s"
  by (simp add: parse_float_def split: if_splits)

lemma valid_format_float: "format_float v = Some s \<Longrightarrow> valid_number s"
proof (cases v)
  case (Fin neg m e)
  assume s: "format_float v = Some s"
  have "valid_number (finite_text neg m e)"
  proof (cases "m = 0")
    case True
    then show ?thesis using parse_float_zero parse_float_valid by (simp add: finite_text_def)
  next
    case False
    then have "valid_number (signed neg (exact_text m e))"
      using valid_number_exact [of m e] num_run_NNeg hd_exact by (simp add: signed_def)
    with False show ?thesis
      using parse_float_valid [OF shortest_reads_back] by (simp add: finite_text_def split: option.split)
  qed
  with s Fin show ?thesis by (simp add: format_float_def)
qed (simp_all add: format_float_def)

lemma format_float_finite: "format_float v = None \<longleftrightarrow> \<not> f64_finite v"
  by (simp add: format_float_def f64_finite_def split: f64.split)

section \<open>Integers as float64 values\<close>

lemma odd_decomposition: "0 < n \<Longrightarrow> \<exists>m k. odd m \<and> n = m * 2 ^ k" for n :: nat
proof (induction n rule: less_induct)
  case (less n)
  show ?case
  proof (cases "even n")
    case True
    then have "0 < n div 2" "n div 2 < n" using less.prems by (auto elim: evenE)
    with less.IH obtain m k where "odd m" "n div 2 = m * 2 ^ k" by blast
    with True have "odd m \<and> n = m * 2 ^ Suc k" by auto
    then show ?thesis by blast
  next
    case False
    then have "odd n \<and> n = n * 2 ^ 0" by simp
    then show ?thesis by blast
  qed
qed

lemma unsigned_float_nat:
  assumes "n \<le> 2 ^ 53"
  shows "\<exists>m k. unsigned_float neg (nat_text n) = Some (Fin neg m (int k)) \<and> m * 2 ^ k = n"
proof (cases "n = 0")
  case True
  then show ?thesis
    by (simp add: unsigned_float_def num_parts_exact exp_val_def f64_of_decimal_def f64_of_ratio_def)
next
  case False
  then obtain m k where m: "odd m" "n = m * 2 ^ k" using odd_decomposition by blast
  have "m \<le> n" using m by simp
  then have "m < 2 ^ 53" using m(1) assms by (cases "m = 2 ^ 53") auto
  have "2 ^ k \<le> n" using m by (cases m) auto
  then have "(2 :: nat) ^ k \<le> 2 ^ 53" using assms by (rule order_trans)
  then have "k \<le> 53" by (simp only: power_increasing_iff)
  have "(2 :: nat) ^ bit_len m \<le> 2 * m" using bit_len_bounds [of m] m(1) by (simp add: odd_pos)
  also have "\<dots> \<le> 2 ^ 54" using \<open>m < 2 ^ 53\<close> by simp
  finally have "bit_len m \<le> 54" by (simp only: power_increasing_iff)
  have "f64_of_ratio neg n 1 = Some (Fin neg m (int k))"
    using m \<open>m < 2 ^ 53\<close> \<open>k \<le> 53\<close> \<open>bit_len m \<le> 54\<close> by (intro f64_of_ratio_exact) simp_all
  with m(2) show ?thesis
    by (auto simp: unsigned_float_def num_parts_exact exp_val_def f64_of_decimal_def)
qed

lemma parse_float_int_text:
  assumes "\<bar>i\<bar> \<le> 2 ^ 53"
  shows "\<exists>v. parse_float (int_text i) = Some v \<and> f64_to_int v = i"
proof -
  define n where "n = nat \<bar>i\<bar>"
  have "n \<le> 2 ^ 53" using assms by (simp add: n_def)
  from unsigned_float_nat [OF this] obtain m k where
    m: "unsigned_float (i < 0) (nat_text n) = Some (Fin (i < 0) m (int k))" "m * 2 ^ k = n" by blast
  have "int_text i = signed (i < 0) (nat_text n)" by (simp add: int_text_def signed_def n_def)
  then have "parse_float (int_text i) = Some (Fin (i < 0) m (int k))"
    using parse_float_signed [OF valid_number_nat_text] nat_text_no_sign m(1) by simp
  moreover have "int m * 2 ^ k = \<bar>i\<bar>" using arg_cong [OF m(2), of int] by (simp add: n_def)
  then have "f64_to_int (Fin (i < 0) m (int k)) = i"
    using assms by (auto simp: f64_to_int_def f64_trunc_def Let_def)
  ultimately show ?thesis by blast
qed

end
