(* ===== verification/JsonValue.thy ===== *)
theory JsonValue
  imports Float64
begin

text \<open>
  JSON trees and dynamic Go values: what \<open>encoding/json\<close> makes of an \<open>interface{}\<close> value, of
  an integer and of a string, how it decodes into them, and the text \<open>fmt\<close> prints for \<open>%v\<close>. Values that
  came from JSON are encoded and decoded back to themselves.
\<close>

section \<open>Encoding\<close>

text \<open>All results of a list, or None.\<close>

fun all_some :: "'a option list \<Rightarrow> 'a list option" where
  "all_some [] = Some []"
| "all_some (None # xs) = None"
| "all_some (Some x # xs) = map_option ((#) x) (all_some xs)"

definition tagged :: "'k \<Rightarrow> 'v option \<Rightarrow> ('k \<times> 'v) option" where
  "tagged k v = map_option (Pair k) v"

text \<open>\<open>json.Marshal\<close> of a dynamic value; None is the error for a float that is not finite. The
  keys of a map are written in their byte order, which is the order they are kept in.\<close>

fun marshal_value :: "gval \<Rightarrow> json option" where
  "marshal_value GNil = Some JNull"
| "marshal_value (GBool b) = Some (JBool b)"
| "marshal_value (GInt i) = Some (JNum (int_text i))"
| "marshal_value (GFloat v) = map_option JNum (format_float v)"
| "marshal_value (GStr s) = Some (JStr (quote s))"
| "marshal_value (GArr vs) = map_option JArr (all_some (map marshal_value vs))"
| "marshal_value (GMap m) =
     map_option JObj (all_some (map (\<lambda>p. tagged (quote (fst p)) (marshal_value (snd p))) m))"

definition marshal_slice :: "gval list option \<Rightarrow> json option" where
  "marshal_slice s = (case s of None \<Rightarrow> Some JNull | Some vs \<Rightarrow> marshal_value (GArr vs))"

definition marshal_map :: "gmap option \<Rightarrow> json option" where
  "marshal_map m = (case m of None \<Rightarrow> Some JNull | Some kvs \<Rightarrow> marshal_value (GMap kvs))"

section \<open>Decoding\<close>

text \<open>\<open>json.Unmarshal\<close> into an empty \<open>interface{}\<close>; None is the error for a number out of range.
  A key that comes twice keeps its last value.\<close>

fun unmarshal_value :: "json \<Rightarrow> gval option" where
  "unmarshal_value JNull = Some GNil"
| "unmarshal_value (JBool b) = Some (GBool b)"
| "unmarshal_value (JNum s) = map_option GFloat (parse_float s)"
| "unmarshal_value (JStr s) = Some (GStr (unquote s))"
| "unmarshal_value (JArr vs) = map_option GArr (all_some (map unmarshal_value vs))"
| "unmarshal_value (JObj ms) =
     map_option (\<lambda>kvs. GMap (fold (\<lambda>(k, v). map_put k v) kvs []))
       (all_some (map (\<lambda>p. tagged (unquote (fst p)) (unmarshal_value (snd p))) ms))"

section \<open>Round trip\<close>

text \<open>The values that decoding yields: no integers, UTF-8 strings, finite numbers, sorted maps.\<close>

fun wf_value :: "gval \<Rightarrow> bool" where
  "wf_value GNil = True"
| "wf_value (GBool _) = True"
| "wf_value (GInt _) = False"
| "wf_value (GFloat v) = (valid_f64 v \<and> f64_finite v)"
| "wf_value (GStr s) = utf8_valid s"
| "wf_value (GArr vs) = (\<forall>v \<in> set vs. wf_value v)"
| "wf_value (GMap m) = (sorted_map m \<and> (\<forall>p \<in> set m. utf8_valid (fst p) \<and> wf_value (snd p)))"

fun value_depth :: "gval \<Rightarrow> nat" where
  "value_depth (GArr vs) = Suc (foldr max (map value_depth vs) 0)"
| "value_depth (GMap m) = Suc (foldr max (map (\<lambda>p. value_depth (snd p)) m) 0)"
| "value_depth _ = 0"

lemma all_some_iff: "all_some xs = Some ys \<longleftrightarrow> xs = map Some ys"
  by (induction xs arbitrary: ys rule: all_some.induct) (auto simp: Cons_eq_map_conv map_eq_Cons_conv)

lemma all_some_map:
  "(\<And>x. x \<in> set xs \<Longrightarrow> f x = Some (g x)) \<Longrightarrow> all_some (map f xs) = Some (map g xs)"
  by (simp add: all_some_iff)

lemma all_some_map_eq: "all_some (map f xs) = Some ys \<longleftrightarrow> list_all2 (\<lambda>x y. f x = Some y) xs ys"
  by (auto simp: all_some_iff list_all2_conv_all_nth list_eq_iff_nth_eq)

lemma all_some_None: "all_some xs = None \<longleftrightarrow> None \<in> set xs"
  by (induction xs rule: all_some.induct) auto

lemma tagged_simps [simp]:
  "tagged k (Some v) = Some (k, v)" "tagged k None = None"
  "tagged k r = None \<longleftrightarrow> r = None" "tagged k r = Some p \<longleftrightarrow> (\<exists>w. r = Some w \<and> p = (k, w))"
  by (auto simp: tagged_def)

lemma snd_in_snds: "snd p \<in> Basic_BNFs.snds p"
  by (cases p) simp

text \<open>What is written is JSON, as deep as the value.\<close>

lemma marshal_json: "marshal_value v = Some j \<Longrightarrow> wf_json j \<and> depth j = value_depth v"
proof (induction v arbitrary: j)
  case (GFloat v)
  then show ?case using valid_format_float by auto
next
  case (GArr vs)
  then obtain js where js: "j = JArr js" "list_all2 (\<lambda>v j. marshal_value v = Some j) vs js"
    by (auto simp: all_some_map_eq)
  from js(2) have all: "list_all2 (\<lambda>v j. wf_json j \<and> depth j = value_depth v) vs js"
    by (rule list.rel_mono_strong) (use GArr.IH in blast)
  then have "map depth js = map value_depth vs" by (induction rule: list_all2_induct) simp_all
  moreover have "\<forall>j \<in> set js. wf_json j" using all by (induction rule: list_all2_induct) simp_all
  ultimately show ?case using js by simp
next
  case (GMap m)
  then obtain ms where ms: "j = JObj ms"
      "list_all2 (\<lambda>p q. \<exists>w. marshal_value (snd p) = Some w \<and> q = (quote (fst p), w)) m ms"
    by (auto simp: all_some_map_eq)
  have "wf_json j \<and> depth j = value_depth (snd p)" if "p \<in> set m" "marshal_value (snd p) = Some j" for p j
    using GMap.IH [OF that(1) snd_in_snds that(2)] .
  then have all: "list_all2 (\<lambda>p q. valid_raw (LStr []) (fst q) \<and> wf_json (snd q) \<and>
      depth (snd q) = value_depth (snd p)) m ms"
    using ms(2) by (auto elim!: list.rel_mono_strong simp: valid_raw_quote)
  then have "map (\<lambda>q. depth (snd q)) ms = map (\<lambda>p. value_depth (snd p)) m"
    by (induction rule: list_all2_induct) simp_all
  moreover have "\<forall>q \<in> set ms. valid_raw (LStr []) (fst q) \<and> wf_json (snd q)"
    using all by (induction rule: list_all2_induct) simp_all
  ultimately show ?case using ms(1) by simp
qed (auto simp: valid_raw_quote valid_number_int_text)

text \<open>A well-formed value is encoded, and decoding gives it back.\<close>

lemma marshal_wf: "wf_value v \<Longrightarrow> \<exists>j. marshal_value v = Some j \<and> unmarshal_value j = Some v"
proof (induction v)
  case (GFloat v)
  then obtain s where s: "format_float v = Some s" using format_float_finite by fastforce
  with GFloat parse_format_float [of v s] show ?case by simp
next
  case (GStr s)
  then show ?case by (simp add: unquote_quote)
next
  case (GArr vs)
  then have "\<forall>v \<in> set vs. \<exists>j. marshal_value v = Some j \<and> unmarshal_value j = Some v" by simp
  then obtain f where f: "\<And>v. v \<in> set vs \<Longrightarrow> marshal_value v = Some (f v) \<and> unmarshal_value (f v) = Some v"
    by metis
  have "all_some (map marshal_value vs) = Some (map f vs)" using f by (simp add: all_some_map)
  moreover have "all_some (map (unmarshal_value \<circ> f) vs) = Some vs"
    using all_some_map [of vs "unmarshal_value \<circ> f" id] f by simp
  ultimately show ?case by simp
next
  case (GMap m)
  have "\<exists>j. marshal_value (snd p) = Some j \<and> unmarshal_value j = Some (snd p)" if "p \<in> set m" for p
    using GMap.IH [OF that snd_in_snds] GMap.prems that by simp
  then obtain f where f: "\<And>p. p \<in> set m \<Longrightarrow> marshal_value (snd p) = Some (f p) \<and>
      unmarshal_value (f p) = Some (snd p)" by metis
  have "all_some (map (\<lambda>p. tagged (quote (fst p)) (marshal_value (snd p))) m) =
      Some (map (\<lambda>p. (quote (fst p), f p)) m)" using f by (simp add: all_some_map)
  moreover have "all_some (map (\<lambda>p. tagged (unquote (fst p)) (unmarshal_value (snd p)))
      (map (\<lambda>p. (quote (fst p), f p)) m)) = Some m"
    using all_some_map [of m "\<lambda>p. tagged (unquote (quote (fst p))) (unmarshal_value (f p))" id] f GMap.prems
    by (simp add: comp_def unquote_quote)
  moreover have "fold (\<lambda>(k, v). map_put k v) m [] = m" using fold_map_put_sorted [of "[]" m] GMap.prems by simp
  ultimately show ?case by (simp add: comp_def)
qed simp_all

end
