(* ===== verification/GoFormat.thy ===== *)
theory GoFormat
  imports JsonValue
begin

text \<open>
  What \<open>fmt.Sprintf("%v", x)\<close> prints for the dynamic values that task arguments are; the protocol puts
  these texts into the headers \<open>argsrepr\<close> and \<open>kwargsrepr\<close>.
\<close>

text \<open>The format e of \<open>strconv\<close>: at least two digits of exponent.\<close>

definition fmt_exp :: "string \<Rightarrow> int \<Rightarrow> string" where
  "fmt_exp ds x =
     [hd ds] @ (if tl ds = [] then [] else ''.'' @ tl ds) @ (if x < 0 then ''e-'' else ''e+'') @
     (if \<bar>x\<bar> < 10 then ''0'' else []) @ nat_text (nat \<bar>x\<bar>)"

text \<open>The format g with the shortest digits: an exponent below 1e-4 and from 1e6 on.\<close>

definition fmt_digits :: "nat \<times> int \<Rightarrow> string" where
  "fmt_digits p =
     (case p of (c, t) \<Rightarrow>
        let x = t + int (length (nat_text c)) - 1; ds = strip_zeros (nat_text c)
        in if x < - 4 \<or> 6 \<le> x then fmt_exp ds x else fixed_text ds x)"

definition fmt_float :: "f64 \<Rightarrow> string" where
  "fmt_float v =
     (case v of
        Fin neg m e \<Rightarrow>
          signed neg (if m = 0 then ''0''
            else case shortest neg m e [1..<18] of Some p \<Rightarrow> fmt_digits p | None \<Rightarrow> exact_text m e)
      | Inf neg \<Rightarrow> (if neg then ''-Inf'' else ''+Inf'')
      | NaN \<Rightarrow> ''NaN'')"

fun spaced :: "string list \<Rightarrow> string" where
  "spaced [] = ''''"
| "spaced [s] = s"
| "spaced (s # ss) = s @ '' '' @ spaced ss"

fun fmt_v :: "gval \<Rightarrow> string" where
  "fmt_v GNil = ''<nil>''"
| "fmt_v (GBool b) = (if b then ''true'' else ''false'')"
| "fmt_v (GInt i) = int_text i"
| "fmt_v (GFloat v) = fmt_float v"
| "fmt_v (GStr s) = s"
| "fmt_v (GArr vs) = ''['' @ spaced (map fmt_v vs) @ '']''"
| "fmt_v (GMap m) = ''map['' @ spaced (map (\<lambda>p. fst p @ '':'' @ fmt_v (snd p)) m) @ '']''"

text \<open>A nil slice and a nil map print like empty ones.\<close>

definition fmt_slice :: "gval list option \<Rightarrow> string" where
  "fmt_slice s = fmt_v (GArr (case s of None \<Rightarrow> [] | Some vs \<Rightarrow> vs))"

definition fmt_map :: "gmap option \<Rightarrow> string" where
  "fmt_map m = fmt_v (GMap (case m of None \<Rightarrow> [] | Some kvs \<Rightarrow> kvs))"

end
