(* ===== verification/TimeText.thy ===== *)
theory TimeText
  imports Decimal "HOL-Library.Monad_Syntax"
begin

text \<open>
  Which texts \<open>time.Time.UnmarshalJSON\<close> accepts between the quotes: those that
  \<open>time.Parse(time.RFC3339, s)\<close> accepts. It takes one or two digits for the hour, and a fraction of the
  seconds after a point or a comma.
\<close>

definition lit :: "char \<Rightarrow> string \<Rightarrow> string option" where
  "lit c s = (case s of d # r \<Rightarrow> if d = c then Some r else None | [] \<Rightarrow> None)"

text \<open>\<open>getnum\<close> of package time: two digits, or one where the layout allows it.\<close>

definition getnum :: "bool \<Rightarrow> string \<Rightarrow> (nat \<times> string) option" where
  "getnum fixed s =
     (case s of
        [] \<Rightarrow> None
      | a # r \<Rightarrow>
          if \<not> digit a then None
          else (case r of
                  b # r' \<Rightarrow>
                    if digit b then Some (digit_val a * 10 + digit_val b, r')
                    else if fixed then None else Some (digit_val a, r)
                | [] \<Rightarrow> if fixed then None else Some (digit_val a, [])))"

definition ranged :: "nat \<Rightarrow> nat \<Rightarrow> (nat \<times> string) option \<Rightarrow> (nat \<times> string) option" where
  "ranged lo hi r = (case r of Some (n, s) \<Rightarrow> if lo \<le> n \<and> n \<le> hi then Some (n, s) else None | None \<Rightarrow> None)"

definition days_in :: "nat \<Rightarrow> nat \<Rightarrow> nat" where
  "days_in month year =
     (if month = 2 then (if year mod 4 = 0 \<and> (year mod 100 \<noteq> 0 \<or> year mod 400 = 0) then 29 else 28)
      else if month \<in> {4, 6, 9, 11} then 30 else 31)"

text \<open>A fraction is skipped when a digit follows the point.\<close>

definition skip_fraction :: "string \<Rightarrow> string" where
  "skip_fraction s =
     (case s of
        p # d # r \<Rightarrow> if (p = CHR ''.'' \<or> p = CHR '','') \<and> digit d then dropWhile digit r else s
      | _ \<Rightarrow> s)"

definition zone_ok :: "string \<Rightarrow> bool" where
  "zone_ok s =
     (s = ''Z'' \<or>
      (case s of
         p # r \<Rightarrow>
           (p = CHR ''+'' \<or> p = CHR ''-'') \<and>
           (case do { (h, r) \<leftarrow> ranged 0 24 (getnum True r); r \<leftarrow> lit CHR '':'' r; ranged 0 60 (getnum True r) } of
              Some (m, r) \<Rightarrow> r = []
            | None \<Rightarrow> False)
       | [] \<Rightarrow> False))"

definition rfc3339_ok :: "string \<Rightarrow> bool" where
  "rfc3339_ok s =
     (case do {
        year \<leftarrow> (if 4 \<le> length s then unsigned_val (take 4 s) else None);
        r \<leftarrow> lit CHR ''-'' (drop 4 s);
        (month, r) \<leftarrow> ranged 1 12 (getnum True r);
        r \<leftarrow> lit CHR ''-'' r;
        (day, r) \<leftarrow> ranged 1 (days_in month year) (getnum True r);
        r \<leftarrow> lit CHR ''T'' r;
        (hour, r) \<leftarrow> ranged 0 23 (getnum False r);
        r \<leftarrow> lit CHR '':'' r;
        (minute, r) \<leftarrow> ranged 0 59 (getnum True r);
        r \<leftarrow> lit CHR '':'' r;
        (sec, r) \<leftarrow> ranged 0 59 (getnum True r);
        Some (zone_ok (skip_fraction r))
      } of Some b \<Rightarrow> b | None \<Rightarrow> False)"


end
