(* ===== verification/Messages.thy ===== *)
theory Messages
  imports GoFormat TimeText Protocol
begin

text \<open>
  The messages between the worker and a Python process (\<open>internal/protocol/message/message.go\<close>):
  their types, constructors and conversions, how \<open>encoding/json\<close> writes and reads the structs by
  their tags, and \<open>ParseMessage\<close>. A \<open>time.Time\<close> is kept as its RFC 3339 text.
\<close>

section \<open>The structs\<close>

record BaseMessage =
  bm_Type :: string
  bm_ID :: string
  bm_Timestamp :: string

record TaskMessage =
  tm_Base :: BaseMessage
  tm_TaskName :: string
  tm_TaskID :: string
  tm_Args :: "gval list option"
  tm_Kwargs :: "gmap option"
  tm_Retries :: int
  tm_Queue :: string

record ResultMessage =
  rm_Base :: BaseMessage
  rm_TaskID :: string
  rm_Status :: string
  rm_Result :: gval
  rm_Error :: string
  rm_Traceback :: string
  rm_Runtime :: f64
  rm_MemoryUsed :: int

record PingMessage =
  pi_Base :: BaseMessage

record PongMessage =
  po_Base :: BaseMessage
  po_PingID :: string

record StopMessage =
  sm_Base :: BaseMessage
  sm_Graceful :: bool

section \<open>Constructors and conversions\<close>

definition NewBaseMessage :: "stamp \<Rightarrow> string \<Rightarrow> BaseMessage" where
  "NewBaseMessage st msgType =
     \<lparr>bm_Type = msgType, bm_ID = st_uuid st, bm_Timestamp = st_now st\<rparr>"

definition NewTaskMessage :: "stamp \<Rightarrow> TaskPayload \<Rightarrow> TaskMessage" where
  "NewTaskMessage st payload =
     \<lparr>tm_Base = NewBaseMessage st InternalTaskMessage, tm_TaskName = tp_TaskName payload,
      tm_TaskID = tp_TaskID payload, tm_Args = tp_Args payload, tm_Kwargs = tp_Kwargs payload,
      tm_Retries = tp_Retries payload, tm_Queue = tp_Queue payload\<rparr>"

definition task_ToPayload :: "TaskMessage \<Rightarrow> TaskPayload" where
  "task_ToPayload m =
     \<lparr>tp_TaskName = tm_TaskName m, tp_TaskID = tm_TaskID m, tp_Args = tm_Args m,
      tp_Kwargs = tm_Kwargs m, tp_Retries = tm_Retries m, tp_Queue = tm_Queue m\<rparr>"

definition NewResultMessage :: "stamp \<Rightarrow> ResultPayload \<Rightarrow> ResultMessage" where
  "NewResultMessage st payload =
     \<lparr>rm_Base = NewBaseMessage st InternalResultMessage, rm_TaskID = rp_TaskID payload,
      rm_Status = rp_Status payload, rm_Result = rp_Result payload, rm_Error = rp_Error payload,
      rm_Traceback = rp_Traceback payload, rm_Runtime = rp_Runtime payload,
      rm_MemoryUsed = rp_MemoryUsed payload\<rparr>"

definition result_ToPayload :: "ResultMessage \<Rightarrow> ResultPayload" where
  "result_ToPayload m =
     \<lparr>rp_TaskID = rm_TaskID m, rp_Status = rm_Status m, rp_Result = rm_Result m, rp_Error = rm_Error m,
      rp_Traceback = rm_Traceback m, rp_Runtime = rm_Runtime m, rp_MemoryUsed = rm_MemoryUsed m\<rparr>"

definition NewPingMessage :: "stamp \<Rightarrow> PingMessage" where
  "NewPingMessage st = \<lparr>pi_Base = NewBaseMessage st InternalPingMessage\<rparr>"

definition NewPongMessage :: "stamp \<Rightarrow> string \<Rightarrow> PongMessage" where
  "NewPongMessage st pingID =
     \<lparr>po_Base = NewBaseMessage st InternalPongMessage, po_PingID = pingID\<rparr>"

definition NewStopMessage :: "stamp \<Rightarrow> bool \<Rightarrow> StopMessage" where
  "NewStopMessage st graceful =
     \<lparr>sm_Base = NewBaseMessage st InternalStopMessage, sm_Graceful = graceful\<rparr>"

lemmas message_defs =
  NewBaseMessage_def NewTaskMessage_def NewResultMessage_def NewPingMessage_def NewPongMessage_def
  NewStopMessage_def task_ToPayload_def result_ToPayload_def

section \<open>Writing a struct\<close>

type_synonym members = "(string \<times> json) list"

definition str_member :: "string \<Rightarrow> string \<Rightarrow> string \<times> json" where
  "str_member k s = (k, JStr (quote s))"

text \<open>The tag \<open>omitempty\<close>.\<close>

definition nonempty :: "bool \<Rightarrow> members \<Rightarrow> members" where
  "nonempty b ms = (if b then ms else [])"

text \<open>The clock's text needs no escapes.\<close>

definition base_members :: "BaseMessage \<Rightarrow> members" where
  "base_members m =
     [str_member ''type'' (bm_Type m), str_member ''id'' (bm_ID m), (''timestamp'', JStr (bm_Timestamp m))]"

definition task_members :: "TaskMessage \<Rightarrow> members option" where
  "task_members m =
     (case (marshal_slice (tm_Args m), marshal_map (tm_Kwargs m)) of
        (Some args, Some kwargs) \<Rightarrow>
          Some (base_members (tm_Base m) @
            [str_member ''task_name'' (tm_TaskName m), str_member ''task_id'' (tm_TaskID m),
             (''args'', args), (''kwargs'', kwargs), (''retries'', JNum (int_text (tm_Retries m))),
             str_member ''queue'' (tm_Queue m)])
      | _ \<Rightarrow> None)"

definition result_members :: "ResultMessage \<Rightarrow> members option" where
  "result_members m =
     (case (marshal_value (rm_Result m), format_float (rm_Runtime m)) of
        (Some result, Some runtime) \<Rightarrow>
          Some (base_members (rm_Base m) @
            [str_member ''task_id'' (rm_TaskID m), str_member ''status'' (rm_Status m)] @
            nonempty (rm_Result m \<noteq> GNil) [(''result'', result)] @
            nonempty (rm_Error m \<noteq> []) [str_member ''error'' (rm_Error m)] @
            nonempty (rm_Traceback m \<noteq> []) [str_member ''traceback'' (rm_Traceback m)] @
            [(''runtime_seconds'', JNum runtime)] @
            nonempty (rm_MemoryUsed m \<noteq> 0) [(''memory_used'', JNum (int_text (rm_MemoryUsed m)))])
      | _ \<Rightarrow> None)"

definition ping_members :: "PingMessage \<Rightarrow> members" where
  "ping_members m = base_members (pi_Base m)"

definition pong_members :: "PongMessage \<Rightarrow> members" where
  "pong_members m = base_members (po_Base m) @ [str_member ''ping_id'' (po_PingID m)]"

definition stop_members :: "StopMessage \<Rightarrow> members" where
  "stop_members m = base_members (sm_Base m) @ [(''graceful'', JBool (sm_Graceful m))]"

definition print_members :: "members \<Rightarrow> bytes" where
  "print_members ms = json_print (JObj ms)"

section \<open>Reading a struct\<close>

text \<open>Case folding of a key: ASCII letters, and the two other characters that fold to one, the long
  s (U+017F) and the Kelvin sign (U+212A).\<close>

definition upper :: "char \<Rightarrow> char" where
  "upper c = (if 97 \<le> byte c \<and> byte c \<le> 122 then chr (byte c - 32) else c)"

function fold_name :: "string \<Rightarrow> string" where
  "fold_name [] = []"
| "fold_name (c # cs) =
     (if c = CHR 0xC5 \<and> take 1 cs = [CHR 0xBF] then CHR ''S'' # fold_name (drop 1 cs)
      else if c = CHR 0xE2 \<and> take 2 cs = [CHR 0x84, CHR 0xAA] then CHR ''K'' # fold_name (drop 2 cs)
      else upper c # fold_name cs)"
  by pat_completeness auto
termination by (relation "measure length") auto

type_synonym 's field = "string \<times> ('s \<Rightarrow> json \<Rightarrow> 's option)"

definition find_field :: "'s field list \<Rightarrow> string \<Rightarrow> ('s \<Rightarrow> json \<Rightarrow> 's option) option" where
  "find_field fs k =
     (case map_of fs k of
        Some f \<Rightarrow> Some f
      | None \<Rightarrow> map_of (map (\<lambda>(n, f). (fold_name n, f)) fs) (fold_name k))"

text \<open>The members are stored in the order they come; unknown keys are skipped. A value of the wrong
  type makes \<open>Unmarshal\<close> return an error, and every caller discards the struct then.\<close>

fun unmarshal_members :: "'s field list \<Rightarrow> 's \<Rightarrow> members \<Rightarrow> 's option" where
  "unmarshal_members fs s [] = Some s"
| "unmarshal_members fs s ((k, j) # ms) =
     (case find_field fs (unquote k) of
        None \<Rightarrow> unmarshal_members fs s ms
      | Some f \<Rightarrow> (case f s j of None \<Rightarrow> None | Some s' \<Rightarrow> unmarshal_members fs s' ms))"

definition Unmarshal :: "'s field list \<Rightarrow> 's \<Rightarrow> bytes \<Rightarrow> 's option" where
  "Unmarshal fs s data =
     (case json_parse data of
        Some (JObj ms) \<Rightarrow> unmarshal_members fs s ms
      | Some JNull \<Rightarrow> Some s
      | _ \<Rightarrow> None)"

text \<open>The fields by their types. A JSON null leaves a string, a number, a bool and a time as they are, and
  sets a slice, a map and an interface to nil. A map that a key sets twice collects both.\<close>

definition set_string :: "(string \<Rightarrow> 's) \<Rightarrow> 's \<Rightarrow> json \<Rightarrow> 's option" where
  "set_string upd s j = (case j of JStr r \<Rightarrow> Some (upd (unquote r)) | JNull \<Rightarrow> Some s | _ \<Rightarrow> None)"

definition set_int :: "(int \<Rightarrow> 's) \<Rightarrow> 's \<Rightarrow> json \<Rightarrow> 's option" where
  "set_int upd s j = (case j of JNum t \<Rightarrow> map_option upd (Atoi t) | JNull \<Rightarrow> Some s | _ \<Rightarrow> None)"

definition set_float :: "(f64 \<Rightarrow> 's) \<Rightarrow> 's \<Rightarrow> json \<Rightarrow> 's option" where
  "set_float upd s j = (case j of JNum t \<Rightarrow> map_option upd (parse_float t) | JNull \<Rightarrow> Some s | _ \<Rightarrow> None)"

definition set_bool :: "(bool \<Rightarrow> 's) \<Rightarrow> 's \<Rightarrow> json \<Rightarrow> 's option" where
  "set_bool upd s j = (case j of JBool b \<Rightarrow> Some (upd b) | JNull \<Rightarrow> Some s | _ \<Rightarrow> None)"

definition set_value :: "(gval \<Rightarrow> 's) \<Rightarrow> json \<Rightarrow> 's option" where
  "set_value upd j = map_option upd (unmarshal_value j)"

definition set_slice :: "(gval list option \<Rightarrow> 's) \<Rightarrow> json \<Rightarrow> 's option" where
  "set_slice upd j =
     (case j of
        JArr vs \<Rightarrow> map_option (\<lambda>xs. upd (Some xs)) (all_some (map unmarshal_value vs))
      | JNull \<Rightarrow> Some (upd None)
      | _ \<Rightarrow> None)"

definition set_map :: "gmap option \<Rightarrow> (gmap option \<Rightarrow> 's) \<Rightarrow> json \<Rightarrow> 's option" where
  "set_map old upd j =
     (case j of
        JObj ms \<Rightarrow>
          map_option (\<lambda>kvs. upd (Some (fold (\<lambda>(k, v). map_put k v) kvs (case old of None \<Rightarrow> [] | Some m \<Rightarrow> m))))
            (all_some (map (\<lambda>p. tagged (unquote (fst p)) (unmarshal_value (snd p))) ms))
      | JNull \<Rightarrow> Some (upd None)
      | _ \<Rightarrow> None)"

lemmas set_defs = set_string_def set_int_def set_float_def set_bool_def set_value_def set_slice_def set_map_def

text \<open>\<open>Time.UnmarshalJSON\<close> gets the text between the quotes as it stands.\<close>

definition set_time :: "(string \<Rightarrow> 's) \<Rightarrow> 's \<Rightarrow> json \<Rightarrow> 's option" where
  "set_time upd s j =
     (case j of JStr r \<Rightarrow> if rfc3339_ok r then Some (upd r) else None | JNull \<Rightarrow> Some s | _ \<Rightarrow> None)"

section \<open>The fields of the messages\<close>

definition base_fields :: "BaseMessage field list" where
  "base_fields =
     [(''type'', \<lambda>m. set_string (\<lambda>v. m\<lparr>bm_Type := v\<rparr>) m),
      (''id'', \<lambda>m. set_string (\<lambda>v. m\<lparr>bm_ID := v\<rparr>) m),
      (''timestamp'', \<lambda>m. set_time (\<lambda>v. m\<lparr>bm_Timestamp := v\<rparr>) m)]"

text \<open>The fields of an embedded struct.\<close>

definition embed :: "('s \<Rightarrow> 'b) \<Rightarrow> ('s \<Rightarrow> 'b \<Rightarrow> 's) \<Rightarrow> 'b field list \<Rightarrow> 's field list" where
  "embed get upd fs = map (\<lambda>(k, f). (k, \<lambda>s j. map_option (upd s) (f (get s) j))) fs"

definition task_fields :: "TaskMessage field list" where
  "task_fields =
     embed tm_Base (\<lambda>m b. m\<lparr>tm_Base := b\<rparr>) base_fields @
     [(''task_name'', \<lambda>m. set_string (\<lambda>v. m\<lparr>tm_TaskName := v\<rparr>) m),
      (''task_id'', \<lambda>m. set_string (\<lambda>v. m\<lparr>tm_TaskID := v\<rparr>) m),
      (''args'', \<lambda>m. set_slice (\<lambda>v. m\<lparr>tm_Args := v\<rparr>)),
      (''kwargs'', \<lambda>m. set_map (tm_Kwargs m) (\<lambda>v. m\<lparr>tm_Kwargs := v\<rparr>)),
      (''retries'', \<lambda>m. set_int (\<lambda>v. m\<lparr>tm_Retries := v\<rparr>) m),
      (''queue'', \<lambda>m. set_string (\<lambda>v. m\<lparr>tm_Queue := v\<rparr>) m)]"

definition result_fields :: "ResultMessage field list" where
  "result_fields =
     embed rm_Base (\<lambda>m b. m\<lparr>rm_Base := b\<rparr>) base_fields @
     [(''task_id'', \<lambda>m. set_string (\<lambda>v. m\<lparr>rm_TaskID := v\<rparr>) m),
      (''status'', \<lambda>m. set_string (\<lambda>v. m\<lparr>rm_Status := v\<rparr>) m),
      (''result'', \<lambda>m. set_value (\<lambda>v. m\<lparr>rm_Result := v\<rparr>)),
      (''error'', \<lambda>m. set_string (\<lambda>v. m\<lparr>rm_Error := v\<rparr>) m),
      (''traceback'', \<lambda>m. set_string (\<lambda>v. m\<lparr>rm_Traceback := v\<rparr>) m),
      (''runtime_seconds'', \<lambda>m. set_float (\<lambda>v. m\<lparr>rm_Runtime := v\<rparr>) m),
      (''memory_used'', \<lambda>m. set_int (\<lambda>v. m\<lparr>rm_MemoryUsed := v\<rparr>) m)]"

definition ping_fields :: "PingMessage field list" where
  "ping_fields = embed pi_Base (\<lambda>m b. m\<lparr>pi_Base := b\<rparr>) base_fields"

definition pong_fields :: "PongMessage field list" where
  "pong_fields =
     embed po_Base (\<lambda>m b. m\<lparr>po_Base := b\<rparr>) base_fields @
     [(''ping_id'', \<lambda>m. set_string (\<lambda>v. m\<lparr>po_PingID := v\<rparr>) m)]"

definition stop_fields :: "StopMessage field list" where
  "stop_fields =
     embed sm_Base (\<lambda>m b. m\<lparr>sm_Base := b\<rparr>) base_fields @
     [(''graceful'', \<lambda>m. set_bool (\<lambda>v. m\<lparr>sm_Graceful := v\<rparr>) m)]"

text \<open>The zero values; the zero time is 1 January of year 1.\<close>

definition zero_base :: BaseMessage where
  "zero_base = \<lparr>bm_Type = [], bm_ID = [], bm_Timestamp = ''0001-01-01T00:00:00Z''\<rparr>"

definition zero_task :: TaskMessage where
  "zero_task = \<lparr>tm_Base = zero_base, tm_TaskName = [], tm_TaskID = [], tm_Args = None, tm_Kwargs = None,
     tm_Retries = 0, tm_Queue = []\<rparr>"

definition zero_result :: ResultMessage where
  "zero_result = \<lparr>rm_Base = zero_base, rm_TaskID = [], rm_Status = [], rm_Result = GNil, rm_Error = [],
     rm_Traceback = [], rm_Runtime = f64_zero, rm_MemoryUsed = 0\<rparr>"

definition zero_ping :: PingMessage where
  "zero_ping = \<lparr>pi_Base = zero_base\<rparr>"

definition zero_pong :: PongMessage where
  "zero_pong = \<lparr>po_Base = zero_base, po_PingID = []\<rparr>"

definition zero_stop :: StopMessage where
  "zero_stop = \<lparr>sm_Base = zero_base, sm_Graceful = False\<rparr>"

section \<open>\<open>ParseMessage\<close>\<close>

datatype parsed =
    PTask TaskMessage
  | PResult ResultMessage
  | PPing PingMessage
  | PPong PongMessage
  | PStop StopMessage

definition or_error :: "'a option \<Rightarrow> protocol_error + 'a" where
  "or_error r = (case r of Some x \<Rightarrow> Inr x | None \<Rightarrow> Inl UnmarshalFailed)"

definition ParseMessage :: "bytes \<Rightarrow> protocol_error + parsed" where
  "ParseMessage data =
     (case Unmarshal base_fields zero_base data of
        None \<Rightarrow> Inl UnmarshalFailed
      | Some base \<Rightarrow>
          if bm_Type base = InternalTaskMessage then
            or_error (map_option PTask (Unmarshal task_fields zero_task data))
          else if bm_Type base = InternalResultMessage then
            or_error (map_option PResult (Unmarshal result_fields zero_result data))
          else if bm_Type base = InternalPingMessage then
            or_error (map_option PPing (Unmarshal ping_fields zero_ping data))
          else if bm_Type base = InternalPongMessage then
            or_error (map_option PPong (Unmarshal pong_fields zero_pong data))
          else if bm_Type base = InternalStopMessage then
            or_error (map_option PStop (Unmarshal stop_fields zero_stop data))
          else Inl (UnknownMessageType (bm_Type base)))"

end
