(* ===== verification/JsonProtocol.thy ===== *)
theory JsonProtocol
  imports Messages
begin

text \<open>
  The JSON implementation of the protocol (\<open>internal/protocol/celery/json.go\<close>): Celery v2 messages from the
  broker, the task payload in them and back, and the messages for the Python processes. A context and the
  wrapping of error texts are left out.
\<close>

section \<open>Celery messages\<close>

definition celery_fields :: "CeleryMessage field list" where
  "celery_fields =
     [(''body'', \<lambda>m. set_string (\<lambda>v. m\<lparr>cm_Body := v\<rparr>) m),
      (''content-encoding'', \<lambda>m. set_string (\<lambda>v. m\<lparr>cm_ContentEncoding := v\<rparr>) m),
      (''content-type'', \<lambda>m. set_string (\<lambda>v. m\<lparr>cm_ContentType := v\<rparr>) m),
      (''headers'', \<lambda>m. set_map (cm_Headers m) (\<lambda>v. m\<lparr>cm_Headers := v\<rparr>)),
      (''properties'', \<lambda>m. set_map (cm_Properties m) (\<lambda>v. m\<lparr>cm_Properties := v\<rparr>))]"

definition zero_celery :: CeleryMessage where
  "zero_celery = \<lparr>cm_Body = [], cm_ContentEncoding = [], cm_ContentType = [], cm_Headers = None,
     cm_Properties = None\<rparr>"

definition ParseCeleryMessage :: "bytes \<Rightarrow> protocol_error + CeleryMessage" where
  "ParseCeleryMessage data = or_error (Unmarshal celery_fields zero_celery data)"

text \<open>A lookup in a map that may be nil.\<close>

definition lookup :: "gmap option \<Rightarrow> string \<Rightarrow> gval option" where
  "lookup m k = (case m of None \<Rightarrow> None | Some kvs \<Rightarrow> map_of kvs k)"

definition header_retries :: "gmap option \<Rightarrow> int" where
  "header_retries h =
     (case lookup h ''retries'' of
        Some (GFloat v) \<Rightarrow> f64_to_int v
      | Some (GInt v) \<Rightarrow> v
      | Some (GStr v) \<Rightarrow> (case Atoi v of Some i \<Rightarrow> i | None \<Rightarrow> 0)
      | _ \<Rightarrow> 0)"

definition routing_queue :: "gmap option \<Rightarrow> string" where
  "routing_queue p =
     (case lookup p ''delivery_info'' of
        Some (GMap info) \<Rightarrow> (case map_of info ''routing_key'' of Some (GStr k) \<Rightarrow> k | _ \<Rightarrow> [])
      | _ \<Rightarrow> [])"

text \<open>The body unmarshals into a slice; a JSON null gives the nil slice, which has no elements.\<close>

definition body_values :: "bytes \<Rightarrow> gval list option" where
  "body_values data =
     (case json_parse data of
        Some (JArr vs) \<Rightarrow> all_some (map unmarshal_value vs)
      | Some JNull \<Rightarrow> Some []
      | _ \<Rightarrow> None)"

definition TaskPayloadFromCeleryMessage :: "CeleryMessage \<Rightarrow> protocol_error + TaskPayload" where
  "TaskPayloadFromCeleryMessage m =
     (case lookup (cm_Headers m) ''task'' of
        Some (GStr taskName) \<Rightarrow>
          (case lookup (cm_Headers m) ''id'' of
             Some (GStr taskID) \<Rightarrow>
               (case b64_decode (cm_Body m) of
                  None \<Rightarrow> Inl BodyNotBase64
                | Some bodyBytes \<Rightarrow>
                    (case body_values bodyBytes of
                       None \<Rightarrow> Inl BodyNotJson
                     | Some (a # k # _) \<Rightarrow>
                         Inr \<lparr>tp_TaskName = taskName, tp_TaskID = taskID,
                           tp_Args = Some (case a of GArr vs \<Rightarrow> vs | _ \<Rightarrow> []),
                           tp_Kwargs = Some (case k of GMap kvs \<Rightarrow> kvs | _ \<Rightarrow> []),
                           tp_Retries = header_retries (cm_Headers m),
                           tp_Queue = routing_queue (cm_Properties m)\<rparr>
                     | Some _ \<Rightarrow> Inl InvalidBodyFormat))
           | _ \<Rightarrow> Inl TaskIDMissing)
      | _ \<Rightarrow> Inl TaskNameMissing)"

text \<open>A map literal of the code.\<close>

definition map_literal :: "(string \<times> gval) list \<Rightarrow> gmap" where
  "map_literal kvs = fold (\<lambda>(k, v). map_put k v) kvs []"

definition body_options :: gval where
  "body_options =
     GMap (map_literal [(''callbacks'', GNil), (''errbacks'', GNil), (''chain'', GNil), (''chord'', GNil)])"

definition marshal_body :: "TaskPayload \<Rightarrow> bytes option" where
  "marshal_body payload =
     (case (marshal_slice (tp_Args payload), marshal_map (tp_Kwargs payload), marshal_value body_options) of
        (Some a, Some k, Some opts) \<Rightarrow> Some (json_print (JArr [a, k, opts]))
      | _ \<Rightarrow> None)"

definition celery_headers :: "TaskPayload \<Rightarrow> gmap" where
  "celery_headers payload =
     map_literal
       [(''task'', GStr (tp_TaskName payload)), (''id'', GStr (tp_TaskID payload)),
        (''retries'', GInt (tp_Retries payload)), (''lang'', GStr ''py''),
        (''root_id'', GStr (tp_TaskID payload)), (''origin'', GStr ''celery-go-worker''),
        (''argsrepr'', GStr (fmt_slice (tp_Args payload))), (''kwargsrepr'', GStr (fmt_map (tp_Kwargs payload)))]"

definition celery_properties :: "TaskPayload \<Rightarrow> gmap" where
  "celery_properties payload =
     (let properties = map_literal
        [(''correlation_id'', GStr (tp_TaskID payload)), (''delivery_mode'', GInt 2),
         (''priority'', GInt 0), (''body_encoding'', GStr ''base64'')]
      in if tp_Queue payload \<noteq> [] then
           map_put ''delivery_info''
             (GMap (map_literal [(''exchange'', GStr []), (''routing_key'', GStr (tp_Queue payload))])) properties
         else properties)"

definition CeleryMessageFromTaskPayload :: "TaskPayload \<Rightarrow> protocol_error + CeleryMessage" where
  "CeleryMessageFromTaskPayload payload =
     (case marshal_body payload of
        None \<Rightarrow> Inl MarshalFailed
      | Some bodyBytes \<Rightarrow>
          Inr \<lparr>cm_Body = b64_encode bodyBytes, cm_ContentEncoding = ''utf-8'',
            cm_ContentType = ''application/json'', cm_Headers = Some (celery_headers payload),
            cm_Properties = Some (celery_properties payload)\<rparr>)"

section \<open>Internal messages\<close>

definition print_or_error :: "members option \<Rightarrow> protocol_error + bytes" where
  "print_or_error r = (case r of None \<Rightarrow> Inl MarshalFailed | Some ms \<Rightarrow> Inr (print_members ms))"

definition EncodeTask :: "stamp \<Rightarrow> TaskPayload \<Rightarrow> protocol_error + bytes" where
  "EncodeTask st payload = print_or_error (task_members (NewTaskMessage st payload))"

text \<open>The anonymous struct with the field \<open>Type\<close>.\<close>

definition decode_type :: "bytes \<Rightarrow> string option" where
  "decode_type data = Unmarshal [(''type'', \<lambda>s. set_string (\<lambda>v. v) s)] [] data"

definition DecodeTask :: "bytes \<Rightarrow> protocol_error + TaskPayload" where
  "DecodeTask data =
     (case ParseCeleryMessage data of
        Inr celeryMsg \<Rightarrow> TaskPayloadFromCeleryMessage celeryMsg
      | Inl _ \<Rightarrow>
          (case decode_type data of
             None \<Rightarrow> Inl UnmarshalFailed
           | Some t \<Rightarrow>
               if t \<noteq> InternalTaskMessage then Inl (WrongMessageType InternalTaskMessage)
               else (case Unmarshal task_fields zero_task data of
                       None \<Rightarrow> Inl UnmarshalFailed
                     | Some taskMsg \<Rightarrow> Inr (task_ToPayload taskMsg))))"

definition EncodeResult :: "stamp \<Rightarrow> ResultPayload \<Rightarrow> protocol_error + bytes" where
  "EncodeResult st payload = print_or_error (result_members (NewResultMessage st payload))"

definition DecodeResult :: "bytes \<Rightarrow> protocol_error + ResultPayload" where
  "DecodeResult data =
     (case decode_type data of
        None \<Rightarrow> Inl UnmarshalFailed
      | Some t \<Rightarrow>
          if t \<noteq> InternalResultMessage then Inl (WrongMessageType InternalResultMessage)
          else (case Unmarshal result_fields zero_result data of
                  None \<Rightarrow> Inl UnmarshalFailed
                | Some resultMsg \<Rightarrow> Inr (result_ToPayload resultMsg)))"

definition EncodePing :: "stamp \<Rightarrow> protocol_error + bytes" where
  "EncodePing st = Inr (print_members (ping_members (NewPingMessage st)))"

definition EncodePong :: "stamp \<Rightarrow> protocol_error + bytes" where
  "EncodePong st = Inr (print_members (pong_members (NewPongMessage st [])))"

definition EncodeStop :: "stamp \<Rightarrow> protocol_error + bytes" where
  "EncodeStop st = Inr (print_members (stop_members (NewStopMessage st True)))"

definition decode_kind :: "string \<Rightarrow> bytes \<Rightarrow> protocol_error option" where
  "decode_kind kind data =
     (case decode_type data of
        None \<Rightarrow> Some UnmarshalFailed
      | Some t \<Rightarrow> if t \<noteq> kind then Some (WrongMessageType kind) else None)"

definition DecodePing :: "bytes \<Rightarrow> protocol_error option" where
  "DecodePing = decode_kind InternalPingMessage"

definition DecodePong :: "bytes \<Rightarrow> protocol_error option" where
  "DecodePong = decode_kind InternalPongMessage"

definition DecodeStop :: "bytes \<Rightarrow> protocol_error option" where
  "DecodeStop = decode_kind InternalStopMessage"

definition JSONProtocol :: protocol where
  "JSONProtocol =
     \<lparr>pr_EncodeTask = EncodeTask, pr_DecodeTask = DecodeTask, pr_EncodeResult = EncodeResult,
      pr_DecodeResult = DecodeResult, pr_EncodePing = EncodePing, pr_DecodePing = DecodePing,
      pr_EncodePong = EncodePong, pr_DecodePong = DecodePong, pr_EncodeStop = EncodeStop,
      pr_DecodeStop = DecodeStop\<rparr>"

end
