(* ===== verification/JsonLemmas.thy ===== *)
theory JsonLemmas
  imports JsonProtocol
begin

text \<open>
  The lemmas behind the properties of the JSON protocol: what a written struct parses to, which
  fields a key selects, and what the structs read from their own members.
\<close>

section \<open>The keys\<close>

text \<open>A key without escapes stands for itself.\<close>

lemma unquote_plain: "list_all (\<lambda>c. c \<noteq> backslash \<and> byte c < 128) s \<Longrightarrow> unquote s = s"
  by (induction s) simp_all

lemma raw_plain:
  "list_all (\<lambda>c. c \<noteq> backslash \<and> c \<noteq> CHR 0x22 \<and> \<not> byte c < 32) s \<Longrightarrow> valid_raw (LStr acc) s"
  by (induction s arbitrary: acc) simp_all

definition struct_keys :: "string list" where
  "struct_keys =
     [''type'', ''id'', ''timestamp'', ''task_name'', ''task_id'', ''args'', ''kwargs'', ''retries'', ''queue'',
      ''status'', ''result'', ''error'', ''traceback'', ''runtime_seconds'', ''memory_used'', ''ping_id'',
      ''graceful'']"

lemma struct_keys_plain:
  "k \<in> set struct_keys \<Longrightarrow> list_all (\<lambda>c. c \<noteq> backslash \<and> byte c < 128) k"
  "k \<in> set struct_keys \<Longrightarrow> list_all (\<lambda>c. c \<noteq> backslash \<and> c \<noteq> CHR 0x22 \<and> \<not> byte c < 32) k"
  by (auto simp: struct_keys_def)

lemmas unquote_key [simp] = unquote_plain [OF struct_keys_plain(1)]
lemmas raw_key [simp] = raw_plain [OF struct_keys_plain(2)]

lemma fold_keys [simp]:
  "fold_name ''type'' = ''TYPE''" "fold_name ''id'' = ''ID''" "fold_name ''timestamp'' = ''TIMESTAMP''"
  "fold_name ''task_name'' = ''TASK_NAME''" "fold_name ''task_id'' = ''TASK_ID''" "fold_name ''args'' = ''ARGS''"
  "fold_name ''kwargs'' = ''KWARGS''" "fold_name ''retries'' = ''RETRIES''" "fold_name ''queue'' = ''QUEUE''"
  "fold_name ''status'' = ''STATUS''" "fold_name ''result'' = ''RESULT''" "fold_name ''error'' = ''ERROR''"
  "fold_name ''traceback'' = ''TRACEBACK''" "fold_name ''runtime_seconds'' = ''RUNTIME_SECONDS''"
  "fold_name ''memory_used'' = ''MEMORY_USED''" "fold_name ''ping_id'' = ''PING_ID''"
  "fold_name ''graceful'' = ''GRACEFUL''" "fold_name ''body'' = ''BODY''"
  "fold_name ''content-encoding'' = ''CONTENT-ENCODING''" "fold_name ''content-type'' = ''CONTENT-TYPE''"
  "fold_name ''headers'' = ''HEADERS''" "fold_name ''properties'' = ''PROPERTIES''"
  by (simp_all add: upper_def char_of_eq_iff)

declare fold_name.simps [simp del]

section \<open>What a written struct parses to\<close>

definition wf_members :: "members \<Rightarrow> bool" where
  "wf_members ms \<longleftrightarrow> (\<forall>(k, j) \<in> set ms. valid_raw (LStr []) k \<and> wf_json j \<and> depth j < max_nesting)"

lemma wf_members_simps [simp]:
  "wf_members []" "wf_members (p # ms) \<longleftrightarrow> (valid_raw (LStr []) (fst p) \<and> wf_json (snd p) \<and>
     depth (snd p) < max_nesting) \<and> wf_members ms"
  "wf_members (ms @ ns) \<longleftrightarrow> wf_members ms \<and> wf_members ns"
  "wf_members (nonempty b ms) \<longleftrightarrow> (b \<longrightarrow> wf_members ms)"
  by (auto simp: wf_members_def nonempty_def)

lemma foldr_max_less: "(\<forall>x \<in> set xs. f x < n) \<Longrightarrow> 0 < n \<Longrightarrow> foldr max (map f xs) (0 :: nat) < n"
  by (induction xs) auto

lemma json_parse_members:
  assumes "wf_members ms"
  shows "json_parse (print_members ms) = Some (JObj ms)"
  unfolding print_members_def
proof (rule json_parse_print)
  show "wf_json (JObj ms)" using assms by (auto simp: wf_members_def)
  have "\<forall>p \<in> set ms. depth (snd p) < max_nesting" using assms by (auto simp: wf_members_def)
  from foldr_max_less [OF this] show "depth (JObj ms) \<le> max_nesting" by (simp add: max_nesting_def)
qed

lemma Unmarshal_members: "wf_members ms \<Longrightarrow> Unmarshal fs s (print_members ms) = unmarshal_members fs s ms"
  by (simp add: Unmarshal_def json_parse_members)

lemma unmarshal_append:
  "unmarshal_members fs s (ms @ ns) =
     (case unmarshal_members fs s ms of None \<Rightarrow> None | Some s' \<Rightarrow> unmarshal_members fs s' ns)"
  by (induction fs s ms rule: unmarshal_members.induct) (auto split: option.split)

text \<open>Members that no field has are skipped.\<close>

lemma unmarshal_skip:
  "\<forall>(k, j) \<in> set ms. find_field fs (unquote k) = None \<Longrightarrow> unmarshal_members fs s ms = Some s"
  by (induction ms) auto

text \<open>A member that its field rejects in every state makes the whole struct fail.\<close>

lemma unmarshal_reject:
  "(k, j) \<in> set ms \<Longrightarrow> find_field fs (unquote k) = Some f \<Longrightarrow> (\<And>s. f s j = None) \<Longrightarrow>
     unmarshal_members fs s ms = None"
  by (induction fs s ms rule: unmarshal_members.induct) (auto split: option.split)

section \<open>The texts of a clock\<close>

text \<open>What is assumed of the clock: RFC 3339 texts of digits and the separators of that format.\<close>

definition clock_ok :: "stamp \<Rightarrow> bool" where
  "clock_ok st \<longleftrightarrow> rfc3339_ok (st_now st) \<and> list_all (\<lambda>c. digit c \<or> c \<in> set ''-+:.TZ'') (st_now st)"

lemma raw_clock: "clock_ok st \<Longrightarrow> valid_raw (LStr acc) (st_now st)"
proof (rule raw_plain)
  assume "clock_ok st"
  then have "list_all (\<lambda>c. digit c \<or> c \<in> set ''-+:.TZ'') (st_now st)" by (simp only: clock_ok_def)
  then show "list_all (\<lambda>c. c \<noteq> backslash \<and> c \<noteq> CHR 0x22 \<and> \<not> byte c < 32) (st_now st)"
  proof (rule list.pred_mono_strong)
    fix c :: char
    assume "digit c \<or> c \<in> set ''-+:.TZ''"
    then show "c \<noteq> backslash \<and> c \<noteq> CHR 0x22 \<and> \<not> byte c < 32" by (auto simp: digit_def)
  qed
qed

lemma wf_str_member [simp]:
  "k \<in> set struct_keys \<Longrightarrow> wf_members [str_member k s]"
  by (simp add: str_member_def valid_raw_quote max_nesting_def)

section \<open>What the structs read from their own members\<close>

lemma set_string_str [simp]: "utf8_valid v \<Longrightarrow> set_string upd s (JStr (quote v)) = Some (upd v)"
  by (simp add: set_string_def unquote_quote)

lemma set_int_text [simp]: "int64_range i \<Longrightarrow> set_int upd s (JNum (int_text i)) = Some (upd i)"
  by (simp add: set_int_def Atoi_int_text)

lemma set_time_clock [simp]: "clock_ok st \<Longrightarrow> set_time upd s (JStr (st_now st)) = Some (upd (st_now st))"
  by (simp add: set_time_def clock_ok_def)

lemma set_float_format [simp]:
  "valid_f64 v \<Longrightarrow> format_float v = Some t \<Longrightarrow> set_float upd s (JNum t) = Some (upd v)"
  by (simp add: set_float_def parse_format_float)

lemma embed_Nil [simp]: "embed get upd [] = []"
  by (simp add: embed_def)

lemma embed_Cons [simp]:
  "embed get upd ((k, f) # fs) = (k, \<lambda>s j. map_option (upd s) (f (get s) j)) # embed get upd fs"
  by (simp add: embed_def)

text \<open>The values a payload may hold to survive the encoding.\<close>

definition stamp_ok :: "stamp \<Rightarrow> bool" where
  "stamp_ok st \<longleftrightarrow> clock_ok st \<and> utf8_valid (st_uuid st)"

lemma internal_utf8 [simp]:
  "utf8_valid InternalTaskMessage" "utf8_valid InternalResultMessage" "utf8_valid InternalPingMessage"
  "utf8_valid InternalPongMessage" "utf8_valid InternalStopMessage" "utf8_valid []"
  by (simp_all add: internal_messages utf8_len_def)

lemma wf_base_members [simp]:
  assumes "clock_ok st"
  shows "wf_members (base_members (NewBaseMessage st t))"
  using assms wf_str_member [of "''type''" t] wf_str_member [of "''id''" "st_uuid st"] raw_clock [OF assms]
  by (simp add: base_members_def NewBaseMessage_def struct_keys_def str_member_def max_nesting_def)

text \<open>A struct with an embedded \<open>BaseMessage\<close> reads the base fields into it.\<close>

lemma base_fields_set [simp]:
  "m\<lparr>bm_Type := t, bm_ID := i, bm_Timestamp := n\<rparr> = \<lparr>bm_Type = t, bm_ID = i, bm_Timestamp = n\<rparr>"
  by (cases m) simp

lemma base_keys [simp]: "unquote ''type'' = ''type''" "unquote ''id'' = ''id''" "unquote ''timestamp'' = ''timestamp''"
  by (simp_all add: struct_keys_def)

lemma base_read:
  assumes "stamp_ok st" "utf8_valid t" "\<And>s b. get (upd s b) = b" "\<And>s b c. upd (upd s b) c = upd s c"
  shows "unmarshal_members (embed get upd base_fields @ fs) s (base_members (NewBaseMessage st t)) =
    Some (upd s (NewBaseMessage st t))"
  using assms
  by (simp add: stamp_ok_def base_members_def str_member_def NewBaseMessage_def base_fields_def find_field_def)

lemma type_read:
  assumes "utf8_valid t" "\<forall>(k, j) \<in> set ms. fold_name (unquote k) \<noteq> ''TYPE''"
  shows "unmarshal_members [(''type'', \<lambda>s. set_string (\<lambda>v. v) s)] s (base_members (NewBaseMessage st t) @ ms) = Some t"
proof -
  let ?fs = "[(''type'', \<lambda>s. set_string (\<lambda>v. v) s)]"
  have none: "find_field ?fs k = None" if "fold_name k \<noteq> ''TYPE''" for k :: string
    using that fold_keys(1) by (auto simp: find_field_def)
  have "unmarshal_members ?fs t ms = Some t"
    by (rule unmarshal_skip) (use assms(2) none in auto)
  with assms(1) show ?thesis
    by (simp add: base_members_def str_member_def NewBaseMessage_def find_field_def)
qed

end
