(* ===== verification/JsonCodec.thy ===== *)
theory JsonCodec
  imports JsonLemmas
begin

text \<open>
  Encoding and decoding every message of the protocol: what each struct reads from its own
  members, and the contract \<open>codec\<close> of an encoder and its decoder, with its interpretations.
\<close>

section \<open>Reading a struct from its own members\<close>

lemma struct_key_eqs [simp]:
  "unquote ''task_name'' = ''task_name''" "unquote ''task_id'' = ''task_id''" "unquote ''args'' = ''args''"
  "unquote ''kwargs'' = ''kwargs''" "unquote ''retries'' = ''retries''" "unquote ''queue'' = ''queue''"
  "unquote ''status'' = ''status''" "unquote ''result'' = ''result''" "unquote ''error'' = ''error''"
  "unquote ''traceback'' = ''traceback''" "unquote ''runtime_seconds'' = ''runtime_seconds''"
  "unquote ''memory_used'' = ''memory_used''" "unquote ''ping_id'' = ''ping_id''"
  "unquote ''graceful'' = ''graceful''"
  by (simp_all add: struct_keys_def)

text \<open>Members that are not read as one of the base fields.\<close>

definition own_members :: "members \<Rightarrow> bool" where
  "own_members ms \<longleftrightarrow> (\<forall>(k, j) \<in> set ms. fold_name (unquote k) \<notin> {''TYPE'', ''ID'', ''TIMESTAMP''})"

lemma own_members_simps [simp]:
  "own_members []" "own_members ((k, j) # ms) \<longleftrightarrow>
     fold_name (unquote k) \<notin> {''TYPE'', ''ID'', ''TIMESTAMP''} \<and> own_members ms"
  "own_members (ms @ ns) \<longleftrightarrow> own_members ms \<and> own_members ns"
  "own_members (nonempty b ms) \<longleftrightarrow> (b \<longrightarrow> own_members ms)"
  by (auto simp: own_members_def nonempty_def)

text \<open>The payloads that survive the encoding.\<close>

definition result_ok :: "ResultPayload \<Rightarrow> bool" where
  "result_ok p \<longleftrightarrow> utf8_valid (rp_TaskID p) \<and> utf8_valid (rp_Status p) \<and> utf8_valid (rp_Error p) \<and>
     utf8_valid (rp_Traceback p) \<and> wf_value (rp_Result p) \<and> value_depth (rp_Result p) < max_nesting \<and>
     valid_f64 (rp_Runtime p) \<and> f64_finite (rp_Runtime p) \<and> int64_range (rp_MemoryUsed p)"

definition task_ok :: "TaskPayload \<Rightarrow> bool" where
  "task_ok p \<longleftrightarrow> utf8_valid (tp_TaskName p) \<and> utf8_valid (tp_TaskID p) \<and> utf8_valid (tp_Queue p) \<and>
     int64_range (tp_Retries p) \<and>
     (\<forall>vs. tp_Args p = Some vs \<longrightarrow> wf_value (GArr vs) \<and> value_depth (GArr vs) < max_nesting) \<and>
     (\<forall>m. tp_Kwargs p = Some m \<longrightarrow> wf_value (GMap m) \<and> value_depth (GMap m) < max_nesting)"

lemma result_keys [simp]:
  "find_field result_fields ''task_id'' = Some (\<lambda>m. set_string (\<lambda>v. m\<lparr>rm_TaskID := v\<rparr>) m)"
  "find_field result_fields ''status'' = Some (\<lambda>m. set_string (\<lambda>v. m\<lparr>rm_Status := v\<rparr>) m)"
  "find_field result_fields ''result'' = Some (\<lambda>m. set_value (\<lambda>v. m\<lparr>rm_Result := v\<rparr>))"
  "find_field result_fields ''error'' = Some (\<lambda>m. set_string (\<lambda>v. m\<lparr>rm_Error := v\<rparr>) m)"
  "find_field result_fields ''traceback'' = Some (\<lambda>m. set_string (\<lambda>v. m\<lparr>rm_Traceback := v\<rparr>) m)"
  "find_field result_fields ''runtime_seconds'' = Some (\<lambda>m. set_float (\<lambda>v. m\<lparr>rm_Runtime := v\<rparr>) m)"
  "find_field result_fields ''memory_used'' = Some (\<lambda>m. set_int (\<lambda>v. m\<lparr>rm_MemoryUsed := v\<rparr>) m)"
  by (simp_all add: find_field_def result_fields_def base_fields_def)

lemma task_keys [simp]:
  "find_field task_fields ''task_name'' = Some (\<lambda>m. set_string (\<lambda>v. m\<lparr>tm_TaskName := v\<rparr>) m)"
  "find_field task_fields ''task_id'' = Some (\<lambda>m. set_string (\<lambda>v. m\<lparr>tm_TaskID := v\<rparr>) m)"
  "find_field task_fields ''args'' = Some (\<lambda>m. set_slice (\<lambda>v. m\<lparr>tm_Args := v\<rparr>))"
  "find_field task_fields ''kwargs'' = Some (\<lambda>m. set_map (tm_Kwargs m) (\<lambda>v. m\<lparr>tm_Kwargs := v\<rparr>))"
  "find_field task_fields ''retries'' = Some (\<lambda>m. set_int (\<lambda>v. m\<lparr>tm_Retries := v\<rparr>) m)"
  "find_field task_fields ''queue'' = Some (\<lambda>m. set_string (\<lambda>v. m\<lparr>tm_Queue := v\<rparr>) m)"
  by (simp_all add: find_field_def task_fields_def base_fields_def)

lemma set_value_read: "unmarshal_value j = Some v \<Longrightarrow> set_value upd j = Some (upd v)"
  by (simp add: set_value_def)

lemma marshal_slice_read:
  assumes "\<And>vs. a = Some vs \<Longrightarrow> wf_value (GArr vs) \<and> value_depth (GArr vs) < max_nesting"
  shows "\<exists>j. marshal_slice a = Some j \<and> wf_json j \<and> depth j < max_nesting \<and>
    (\<forall>upd. set_slice upd j = (Some (upd a) :: 's option))"
proof (cases a)
  case None
  then show ?thesis by (simp add: marshal_slice_def set_slice_def max_nesting_def)
next
  case (Some vs)
  with assms have vs: "wf_value (GArr vs)" "value_depth (GArr vs) < max_nesting" by auto
  from marshal_wf [OF vs(1)] obtain j where j: "marshal_value (GArr vs) = Some j" "unmarshal_value j = Some (GArr vs)"
    by blast
  then obtain js where js: "j = JArr js" by auto
  with j(2) have "all_some (map unmarshal_value js) = Some vs" by auto
  with Some j(1) js marshal_json [OF j(1)] vs(2) show ?thesis by (simp add: marshal_slice_def set_slice_def)
qed

lemma marshal_map_read:
  assumes "\<And>m. a = Some m \<Longrightarrow> wf_value (GMap m) \<and> value_depth (GMap m) < max_nesting"
  shows "\<exists>j. marshal_map a = Some j \<and> wf_json j \<and> depth j < max_nesting \<and>
    (\<forall>upd. set_map None upd j = (Some (upd a) :: 's option))"
proof (cases a)
  case None
  then show ?thesis by (simp add: marshal_map_def set_map_def max_nesting_def)
next
  case (Some m)
  with assms have m: "wf_value (GMap m)" "value_depth (GMap m) < max_nesting" by auto
  from marshal_wf [OF m(1)] obtain j where j: "marshal_value (GMap m) = Some j" "unmarshal_value j = Some (GMap m)"
    by blast
  then obtain ms where ms: "j = JObj ms" by auto
  with j(2) obtain kvs where "all_some (map (\<lambda>p. tagged (unquote (fst p)) (unmarshal_value (snd p))) ms) = Some kvs"
    "fold (\<lambda>(k, v). map_put k v) kvs [] = m" by auto
  with Some j(1) ms marshal_json [OF j(1)] m(2) show ?thesis by (simp add: marshal_map_def set_map_def)
qed

text \<open>A member that is omitted when empty: its field gets its value anyway, if it was empty.\<close>

lemma read_opt_result:
  assumes "unmarshal_value j = Some v" "rm_Result s = GNil"
  shows "unmarshal_members result_fields s (nonempty (v \<noteq> GNil) [(''result'', j)] @ ms) =
    unmarshal_members result_fields (s\<lparr>rm_Result := v\<rparr>) ms"
  using assms by (cases s; cases "v = GNil") (simp_all add: nonempty_def set_value_read)

lemma read_opt_error:
  assumes "utf8_valid v" "rm_Error s = []"
  shows "unmarshal_members result_fields s (nonempty (v \<noteq> []) [(''error'', JStr (quote v))] @ ms) =
    unmarshal_members result_fields (s\<lparr>rm_Error := v\<rparr>) ms"
  using assms by (cases s; cases "v = []") (simp_all add: nonempty_def)

lemma read_opt_traceback:
  assumes "utf8_valid v" "rm_Traceback s = []"
  shows "unmarshal_members result_fields s (nonempty (v \<noteq> []) [(''traceback'', JStr (quote v))] @ ms) =
    unmarshal_members result_fields (s\<lparr>rm_Traceback := v\<rparr>) ms"
  using assms by (cases s; cases "v = []") (simp_all add: nonempty_def)

lemma read_opt_memory:
  assumes "int64_range v" "rm_MemoryUsed s = 0"
  shows "unmarshal_members result_fields s (nonempty (v \<noteq> 0) [(''memory_used'', JNum (int_text v))]) =
    Some (s\<lparr>rm_MemoryUsed := v\<rparr>)"
  using assms by (cases s; cases "v = 0") (simp_all add: nonempty_def)

lemma read_result:
  assumes "stamp_ok st" "result_ok p"
  shows "\<exists>ms. result_members (NewResultMessage st p) = Some (base_members (NewBaseMessage st InternalResultMessage) @ ms) \<and>
    wf_members ms \<and> own_members ms \<and>
    unmarshal_members result_fields zero_result (base_members (NewBaseMessage st InternalResultMessage) @ ms) =
      Some (NewResultMessage st p)"
proof -
  have ok: "utf8_valid (rp_TaskID p)" "utf8_valid (rp_Status p)" "utf8_valid (rp_Error p)"
    "utf8_valid (rp_Traceback p)" "valid_f64 (rp_Runtime p)" "int64_range (rp_MemoryUsed p)"
    using assms(2) by (simp_all add: result_ok_def)
  obtain j where j: "marshal_value (rp_Result p) = Some j" "unmarshal_value j = Some (rp_Result p)"
    using assms(2) marshal_wf by (auto simp: result_ok_def)
  then have wf: "wf_json j" "depth j < max_nesting" using marshal_json assms(2) by (auto simp: result_ok_def)
  obtain t where t: "format_float (rp_Runtime p) = Some t"
    using assms(2) format_float_finite by (fastforce simp: result_ok_def)
  define ms where "ms = [str_member ''task_id'' (rp_TaskID p), str_member ''status'' (rp_Status p)] @
    nonempty (rp_Result p \<noteq> GNil) [(''result'', j)] @
    nonempty (rp_Error p \<noteq> []) [str_member ''error'' (rp_Error p)] @
    nonempty (rp_Traceback p \<noteq> []) [str_member ''traceback'' (rp_Traceback p)] @
    [(''runtime_seconds'', JNum t)] @
    nonempty (rp_MemoryUsed p \<noteq> 0) [(''memory_used'', JNum (int_text (rp_MemoryUsed p)))]"
  have "result_members (NewResultMessage st p) = Some (base_members (NewBaseMessage st InternalResultMessage) @ ms)"
    using j(1) t by (simp add: result_members_def NewResultMessage_def ms_def)
  moreover have "wf_members ms"
    using wf valid_format_float [OF t]
    by (simp add: ms_def struct_keys_def str_member_def valid_raw_quote max_nesting_def valid_number_int_text)
  moreover have "own_members ms"
    by (simp add: ms_def str_member_def)
  moreover have "unmarshal_members result_fields zero_result
      (base_members (NewBaseMessage st InternalResultMessage) @ ms) = Some (NewResultMessage st p)"
  proof -
    define s where "s = zero_result\<lparr>rm_Base := NewBaseMessage st InternalResultMessage\<rparr>"
    have "unmarshal_members result_fields zero_result
        (base_members (NewBaseMessage st InternalResultMessage)) = Some s"
      unfolding result_fields_def s_def using assms(1) by (subst base_read) simp_all
    moreover have "unmarshal_members result_fields s ms = Some (NewResultMessage st p)"
      using ok t read_opt_result [OF j(2)] read_opt_error read_opt_traceback read_opt_memory
      by (simp add: ms_def str_member_def s_def zero_result_def NewResultMessage_def)
    ultimately show ?thesis by (simp add: unmarshal_append)
  qed
  ultimately show ?thesis by blast
qed

lemma read_task:
  assumes "stamp_ok st" "task_ok p"
  shows "\<exists>ms. task_members (NewTaskMessage st p) = Some (base_members (NewBaseMessage st InternalTaskMessage) @ ms) \<and>
    wf_members ms \<and> own_members ms \<and>
    unmarshal_members task_fields zero_task (base_members (NewBaseMessage st InternalTaskMessage) @ ms) =
      Some (NewTaskMessage st p)"
proof -
  have ok: "utf8_valid (tp_TaskName p)" "utf8_valid (tp_TaskID p)" "utf8_valid (tp_Queue p)"
    "int64_range (tp_Retries p)"
    using assms(2) by (simp_all add: task_ok_def)
  obtain a where a: "marshal_slice (tp_Args p) = Some a" "wf_json a" "depth a < max_nesting"
    "\<And>upd. set_slice upd a = (Some (upd (tp_Args p)) :: TaskMessage option)"
    using marshal_slice_read [of "tp_Args p"] assms(2) unfolding task_ok_def by metis
  obtain k where k: "marshal_map (tp_Kwargs p) = Some k" "wf_json k" "depth k < max_nesting"
    "\<And>upd. set_map None upd k = (Some (upd (tp_Kwargs p)) :: TaskMessage option)"
    using marshal_map_read [of "tp_Kwargs p"] assms(2) unfolding task_ok_def by metis
  define ms where "ms = [str_member ''task_name'' (tp_TaskName p), str_member ''task_id'' (tp_TaskID p),
     (''args'', a), (''kwargs'', k), (''retries'', JNum (int_text (tp_Retries p))), str_member ''queue'' (tp_Queue p)]"
  have "task_members (NewTaskMessage st p) = Some (base_members (NewBaseMessage st InternalTaskMessage) @ ms)"
    using a(1) k(1) by (simp add: task_members_def NewTaskMessage_def ms_def)
  moreover have "wf_members ms"
    using a(2,3) k(2,3)
    by (simp add: ms_def struct_keys_def str_member_def valid_raw_quote max_nesting_def valid_number_int_text)
  moreover have "own_members ms"
    by (simp add: ms_def str_member_def)
  moreover have "unmarshal_members task_fields zero_task
      (base_members (NewBaseMessage st InternalTaskMessage) @ ms) = Some (NewTaskMessage st p)"
  proof -
    define s where "s = zero_task\<lparr>tm_Base := NewBaseMessage st InternalTaskMessage\<rparr>"
    have "unmarshal_members task_fields zero_task
        (base_members (NewBaseMessage st InternalTaskMessage)) = Some s"
      unfolding task_fields_def s_def using assms(1) by (subst base_read) simp_all
    moreover have "unmarshal_members task_fields s ms = Some (NewTaskMessage st p)"
      using ok a(4) k(4) by (simp add: ms_def str_member_def s_def zero_task_def NewTaskMessage_def)
    ultimately show ?thesis by (simp add: unmarshal_append)
  qed
  ultimately show ?thesis by blast
qed

text \<open>The other messages have little beside the base.\<close>

lemma read_ping:
  assumes "stamp_ok st"
  shows "wf_members (ping_members (NewPingMessage st))"
    "unmarshal_members ping_fields zero_ping (ping_members (NewPingMessage st)) = Some (NewPingMessage st)"
proof -
  show "wf_members (ping_members (NewPingMessage st))"
    using assms by (simp add: ping_members_def NewPingMessage_def stamp_ok_def)
  show "unmarshal_members ping_fields zero_ping (ping_members (NewPingMessage st)) = Some (NewPingMessage st)"
    using base_read [OF assms, of InternalPingMessage pi_Base "\<lambda>m b. m\<lparr>pi_Base := b\<rparr>" "[]" zero_ping]
    by (simp add: ping_fields_def ping_members_def NewPingMessage_def zero_ping_def)
qed

lemma read_pong:
  assumes "stamp_ok st" "utf8_valid i"
  shows "wf_members (pong_members (NewPongMessage st i))"
    "unmarshal_members pong_fields zero_pong (pong_members (NewPongMessage st i)) = Some (NewPongMessage st i)"
proof -
  show "wf_members (pong_members (NewPongMessage st i))"
    using assms by (simp add: pong_members_def NewPongMessage_def stamp_ok_def struct_keys_def
        str_member_def valid_raw_quote max_nesting_def)
  have "find_field pong_fields ''ping_id'' = Some (\<lambda>m. set_string (\<lambda>v. m\<lparr>po_PingID := v\<rparr>) m)"
    by (simp add: find_field_def pong_fields_def base_fields_def)
  with base_read [OF assms(1), of InternalPongMessage po_Base "\<lambda>m b. m\<lparr>po_Base := b\<rparr>" _ zero_pong] assms(2)
  show "unmarshal_members pong_fields zero_pong (pong_members (NewPongMessage st i)) = Some (NewPongMessage st i)"
    by (simp add: unmarshal_append pong_fields_def pong_members_def NewPongMessage_def zero_pong_def str_member_def)
qed

lemma read_stop:
  assumes "stamp_ok st"
  shows "wf_members (stop_members (NewStopMessage st g))"
    "unmarshal_members stop_fields zero_stop (stop_members (NewStopMessage st g)) = Some (NewStopMessage st g)"
proof -
  show "wf_members (stop_members (NewStopMessage st g))"
    using assms by (simp add: stop_members_def NewStopMessage_def stamp_ok_def struct_keys_def max_nesting_def)
  have "find_field stop_fields ''graceful'' = Some (\<lambda>m. set_bool (\<lambda>v. m\<lparr>sm_Graceful := v\<rparr>) m)"
    by (simp add: find_field_def stop_fields_def base_fields_def)
  with base_read [OF assms(1), of InternalStopMessage sm_Base "\<lambda>m b. m\<lparr>sm_Base := b\<rparr>" _ zero_stop]
  show "unmarshal_members stop_fields zero_stop (stop_members (NewStopMessage st g)) = Some (NewStopMessage st g)"
    by (simp add: unmarshal_append stop_fields_def stop_members_def NewStopMessage_def zero_stop_def set_bool_def)
qed

text \<open>Every reader of the type alone, and the base reader of \<open>ParseMessage\<close>, find the type.\<close>

lemma decode_type_base:
  assumes "wf_members ms" "clock_ok st" "utf8_valid t" "own_members ms"
  shows "decode_type (print_members (base_members (NewBaseMessage st t) @ ms)) = Some t"
proof -
  have "\<forall>(k, j) \<in> set ms. fold_name (unquote k) \<noteq> ''TYPE''" using assms(4) by (auto simp: own_members_def)
  from type_read [OF assms(3) this] assms(1,2) show ?thesis by (simp add: decode_type_def Unmarshal_members)
qed

lemma base_of_members:
  assumes "wf_members ms" "stamp_ok st" "utf8_valid t"
    "own_members ms"
  shows "Unmarshal base_fields zero_base (print_members (base_members (NewBaseMessage st t) @ ms)) =
    Some (NewBaseMessage st t)"
proof -
  have embed_id: "embed id (\<lambda>m b. b) base_fields = base_fields"
    by (simp add: base_fields_def fun_eq_iff option.map_ident)
  have "find_field base_fields k = None" if "fold_name k \<notin> {''TYPE'', ''ID'', ''TIMESTAMP''}" for k
    using that fold_keys(1-3) by (auto simp: find_field_def base_fields_def)
  then have "\<forall>(k, j) \<in> set ms. find_field base_fields (unquote k) = None"
    using assms(4) by (auto simp: own_members_def)
  note skip = unmarshal_skip [OF this]
  have "unmarshal_members base_fields zero_base (base_members (NewBaseMessage st t)) = Some (NewBaseMessage st t)"
    using base_read [OF assms(2,3), of id "\<lambda>m b. b" "[]" zero_base] embed_id by simp
  with skip assms(1,2) show ?thesis by (simp add: Unmarshal_members unmarshal_append stamp_ok_def)
qed

end
