(* ===== verification/JsonCelery.thy ===== *)
theory JsonCelery
  imports JsonCodec
begin

text \<open>
  Task payloads in Celery messages: a message made from a payload yields the payload again, in memory and over
  the JSON text of the message.
\<close>

section \<open>In memory\<close>

text \<open>The arguments survive the encoding of the body; nil and empty ones become empty.\<close>

definition values_ok :: "TaskPayload \<Rightarrow> bool" where
  "values_ok p \<longleftrightarrow>
     (\<forall>vs. tp_Args p = Some vs \<longrightarrow> wf_value (GArr vs) \<and> value_depth (GArr vs) < max_nesting) \<and>
     (\<forall>m. tp_Kwargs p = Some m \<longrightarrow> wf_value (GMap m) \<and> value_depth (GMap m) < max_nesting)"

definition nil_to_empty :: "TaskPayload \<Rightarrow> TaskPayload" where
  "nil_to_empty p = p\<lparr>tp_Args := Some (case tp_Args p of None \<Rightarrow> [] | Some vs \<Rightarrow> vs),
     tp_Kwargs := Some (case tp_Kwargs p of None \<Rightarrow> [] | Some m \<Rightarrow> m)\<rparr>"

lemma map_literal_simps [simp]:
  "map_literal [] = []" "map_literal (kvs @ [(k, v)]) = map_put k v (map_literal kvs)"
  by (simp_all add: map_literal_def)

lemma map_of_fold_put: "map_of (fold (\<lambda>(k, v). map_put k v) kvs m) = map_of m ++ map_of (rev kvs)"
  by (induction kvs arbitrary: m) (auto simp: map_add_def fun_eq_iff split: option.split)

lemma map_of_literal: "map_of (map_literal kvs) = map_of (rev kvs)"
  by (simp add: map_literal_def map_of_fold_put)

lemma body_options_json:
  "\<exists>j. marshal_value body_options = Some j \<and> wf_json j \<and> depth j < max_nesting \<and> unmarshal_value j \<noteq> None"
proof -
  have eq: "body_options = GMap [(''callbacks'', GNil), (''chain'', GNil), (''chord'', GNil), (''errbacks'', GNil)]"
    by (simp add: body_options_def map_literal_def)
  have "wf_value body_options" unfolding eq by (simp add: utf8_len_def)
  moreover have "value_depth body_options = 1" unfolding eq by simp
  ultimately show ?thesis using marshal_wf [of body_options] marshal_json [of body_options]
    by (auto simp: max_nesting_def)
qed

lemma slice_value:
  assumes "\<And>vs. a = Some vs \<Longrightarrow> wf_value (GArr vs) \<and> value_depth (GArr vs) < max_nesting"
  shows "\<exists>j v. marshal_slice a = Some j \<and> wf_json j \<and> depth j < max_nesting \<and> unmarshal_value j = Some v \<and>
    (case v of GArr vs \<Rightarrow> vs | _ \<Rightarrow> []) = (case a of None \<Rightarrow> [] | Some vs \<Rightarrow> vs)"
proof (cases a)
  case (Some vs)
  with assms marshal_wf [of "GArr vs"] obtain j where
    j: "marshal_value (GArr vs) = Some j" "unmarshal_value j = Some (GArr vs)" by blast
  with Some marshal_json [OF j(1)] assms show ?thesis by (auto simp: marshal_slice_def)
qed (simp add: marshal_slice_def max_nesting_def)

lemma map_value:
  assumes "\<And>m. a = Some m \<Longrightarrow> wf_value (GMap m) \<and> value_depth (GMap m) < max_nesting"
  shows "\<exists>j v. marshal_map a = Some j \<and> wf_json j \<and> depth j < max_nesting \<and> unmarshal_value j = Some v \<and>
    (case v of GMap m \<Rightarrow> m | _ \<Rightarrow> []) = (case a of None \<Rightarrow> [] | Some m \<Rightarrow> m)"
proof (cases a)
  case (Some m)
  with assms marshal_wf [of "GMap m"] obtain j where
    j: "marshal_value (GMap m) = Some j" "unmarshal_value j = Some (GMap m)" by blast
  with Some marshal_json [OF j(1)] assms show ?thesis by (auto simp: marshal_map_def)
qed (simp add: marshal_map_def max_nesting_def)

text \<open>The body of a payload, and what it is read as.\<close>

lemma body_roundtrip:
  assumes "values_ok p"
  shows "\<exists>d a k rest. marshal_body p = Some d \<and> body_values d = Some (a # k # rest) \<and>
    (case a of GArr vs \<Rightarrow> vs | _ \<Rightarrow> []) = (case tp_Args p of None \<Rightarrow> [] | Some vs \<Rightarrow> vs) \<and>
    (case k of GMap m \<Rightarrow> m | _ \<Rightarrow> []) = (case tp_Kwargs p of None \<Rightarrow> [] | Some m \<Rightarrow> m)"
proof -
  obtain ja a where a: "marshal_slice (tp_Args p) = Some ja" "wf_json ja" "depth ja < max_nesting"
    "unmarshal_value ja = Some a" "(case a of GArr vs \<Rightarrow> vs | _ \<Rightarrow> []) = (case tp_Args p of None \<Rightarrow> [] | Some vs \<Rightarrow> vs)"
    using slice_value [of "tp_Args p"] assms unfolding values_ok_def by blast
  obtain jk k where k: "marshal_map (tp_Kwargs p) = Some jk" "wf_json jk" "depth jk < max_nesting"
    "unmarshal_value jk = Some k" "(case k of GMap m \<Rightarrow> m | _ \<Rightarrow> []) = (case tp_Kwargs p of None \<Rightarrow> [] | Some m \<Rightarrow> m)"
    using map_value [of "tp_Kwargs p"] assms unfolding values_ok_def by blast
  obtain jo v where jo: "marshal_value body_options = Some jo" "wf_json jo" "depth jo < max_nesting"
    "unmarshal_value jo = Some v"
    using body_options_json by blast
  have "json_parse (json_print (JArr [ja, jk, jo])) = Some (JArr [ja, jk, jo])"
    by (rule json_parse_print) (use a k jo in auto)
  with a k jo show ?thesis by (simp add: marshal_body_def body_values_def)
qed

lemma celery_lookups:
  "lookup (Some (celery_headers p)) ''task'' = Some (GStr (tp_TaskName p))"
  "lookup (Some (celery_headers p)) ''id'' = Some (GStr (tp_TaskID p))"
  "header_retries (Some (celery_headers p)) = tp_Retries p"
  "routing_queue (Some (celery_properties p)) = tp_Queue p"
  by (simp_all add: lookup_def celery_headers_def map_of_literal header_retries_def routing_queue_def
      celery_properties_def Let_def)

lemma celery_roundtrip_lemma:
  assumes "values_ok p"
  shows "\<exists>m. CeleryMessageFromTaskPayload p = Inr m \<and> TaskPayloadFromCeleryMessage m = Inr (nil_to_empty p)"
proof -
  from body_roundtrip [OF assms] obtain d a k rest where
    b: "marshal_body p = Some d" "body_values d = Some (a # k # rest)"
    "(case a of GArr vs \<Rightarrow> vs | _ \<Rightarrow> []) = (case tp_Args p of None \<Rightarrow> [] | Some vs \<Rightarrow> vs)"
    "(case k of GMap m \<Rightarrow> m | _ \<Rightarrow> []) = (case tp_Kwargs p of None \<Rightarrow> [] | Some m \<Rightarrow> m)" by blast
  then show ?thesis
    by (simp add: CeleryMessageFromTaskPayload_def TaskPayloadFromCeleryMessage_def celery_lookups nil_to_empty_def)
qed

section \<open>Over the text\<close>

text \<open>\<open>json.Marshal\<close> of a \<open>CeleryMessage\<close>, by the tags of the struct.\<close>

definition celery_members :: "CeleryMessage \<Rightarrow> members option" where
  "celery_members m =
     (case (marshal_map (cm_Headers m), marshal_map (cm_Properties m)) of
        (Some headers, Some properties) \<Rightarrow>
          Some [str_member ''body'' (cm_Body m), str_member ''content-encoding'' (cm_ContentEncoding m),
            str_member ''content-type'' (cm_ContentType m), (''headers'', headers), (''properties'', properties)]
      | _ \<Rightarrow> None)"

definition marshal_celery :: "CeleryMessage \<Rightarrow> protocol_error + bytes" where
  "marshal_celery m = print_or_error (celery_members m)"

text \<open>A payload through a Celery message and its JSON text.\<close>

definition celery_text :: "TaskPayload \<Rightarrow> protocol_error + bytes" where
  "celery_text p = (case CeleryMessageFromTaskPayload p of Inl e \<Rightarrow> Inl e | Inr m \<Rightarrow> marshal_celery m)"

lemma celery_keys [simp]:
  "find_field celery_fields ''body'' = Some (\<lambda>m. set_string (\<lambda>v. m\<lparr>cm_Body := v\<rparr>) m)"
  "find_field celery_fields ''content-encoding'' = Some (\<lambda>m. set_string (\<lambda>v. m\<lparr>cm_ContentEncoding := v\<rparr>) m)"
  "find_field celery_fields ''content-type'' = Some (\<lambda>m. set_string (\<lambda>v. m\<lparr>cm_ContentType := v\<rparr>) m)"
  "find_field celery_fields ''headers'' = Some (\<lambda>m. set_map (cm_Headers m) (\<lambda>v. m\<lparr>cm_Headers := v\<rparr>))"
  "find_field celery_fields ''properties'' = Some (\<lambda>m. set_map (cm_Properties m) (\<lambda>v. m\<lparr>cm_Properties := v\<rparr>))"
  by (simp_all add: find_field_def celery_fields_def)

definition celery_key_names :: "string list" where
  "celery_key_names = [''body'', ''content-encoding'', ''content-type'', ''headers'', ''properties'',
     ''argsrepr'', ''id'', ''kwargsrepr'', ''lang'', ''origin'', ''retries'', ''root_id'', ''task'',
     ''body_encoding'', ''correlation_id'', ''delivery_info'', ''delivery_mode'', ''priority'', ''exchange'',
     ''routing_key'']"

lemma celery_keys_plain:
  "k \<in> set celery_key_names \<Longrightarrow> list_all (\<lambda>c. c \<noteq> backslash \<and> byte c < 128) k"
  "k \<in> set celery_key_names \<Longrightarrow> list_all (\<lambda>c. c \<noteq> backslash \<and> c \<noteq> CHR 0x22 \<and> \<not> byte c < 32) k"
  by (auto simp: celery_key_names_def)

lemma ascii_utf8: "list_all (\<lambda>c. byte c < 128) s \<Longrightarrow> utf8_valid s"
  by (induction s) (simp_all add: utf8_len_def)

lemma b64_ascii: "list_all (\<lambda>c. byte c < 128) (b64_encode s)"
proof -
  have c: "byte (b64_char n) < 128" if "n < 64" for n
    using b64_char_in [OF that] by (auto simp: b64_alphabet_def)
  show ?thesis by (induction s rule: b64_encode.induct) (simp_all add: c byte_sextets)
qed

text \<open>The literals keep their escaped form in the proofs.\<close>

declare quote.simps [simp del]

lemma headers_text:
  assumes "utf8_valid (tp_TaskName p)" "utf8_valid (tp_TaskID p)" "\<bar>tp_Retries p\<bar> \<le> 2 ^ 53"
  shows "\<exists>j h. marshal_map (Some (celery_headers p)) = Some j \<and> wf_json j \<and> depth j < max_nesting \<and>
    (\<forall>upd. set_map None upd j = (Some (upd (Some h)) :: CeleryMessage option)) \<and>
    lookup (Some h) ''task'' = Some (GStr (tp_TaskName p)) \<and> lookup (Some h) ''id'' = Some (GStr (tp_TaskID p)) \<and>
    header_retries (Some h) = tp_Retries p"
proof -
  obtain v where v: "parse_float (int_text (tp_Retries p)) = Some v" "f64_to_int v = tp_Retries p"
    using parse_float_int_text [OF assms(3)] by blast
  have h: "celery_headers p =
    [(''argsrepr'', GStr (fmt_slice (tp_Args p))), (''id'', GStr (tp_TaskID p)),
     (''kwargsrepr'', GStr (fmt_map (tp_Kwargs p))), (''lang'', GStr ''py''), (''origin'', GStr ''celery-go-worker''),
     (''retries'', GInt (tp_Retries p)), (''root_id'', GStr (tp_TaskID p)), (''task'', GStr (tp_TaskName p))]"
    by (simp add: celery_headers_def map_literal_def)
  obtain j where j: "marshal_value (GMap (celery_headers p)) = Some j" unfolding h by simp
  have "value_depth (GMap (celery_headers p)) = 1" unfolding h by simp
  with marshal_json [OF j] have wf: "wf_json j" "depth j < max_nesting" by (simp_all add: max_nesting_def)
  define kvs where "kvs =
    [(''argsrepr'', GStr (unquote (quote (fmt_slice (tp_Args p))))), (''id'', GStr (tp_TaskID p)),
     (''kwargsrepr'', GStr (unquote (quote (fmt_map (tp_Kwargs p))))), (''lang'', GStr ''py''),
     (''origin'', GStr ''celery-go-worker''), (''retries'', GFloat v), (''root_id'', GStr (tp_TaskID p)),
     (''task'', GStr (tp_TaskName p))]"
  have "list_all (\<lambda>s. unquote (quote s) = s) [''argsrepr'', ''id'', ''kwargsrepr'', ''lang'', ''origin'', ''retries'',
      ''root_id'', ''task'', ''py'', ''celery-go-worker'']"
    by (simp add: unquote_quote utf8_len_def)
  then have "set_map None upd j = (Some (upd (Some (fold (\<lambda>(k, v). map_put k v) kvs []))) :: CeleryMessage option)" for upd
    using j v(1) assms(1,2) unfolding h by (auto simp: set_map_def unquote_quote kvs_def)
  moreover have "lookup (Some (fold (\<lambda>(k, v). map_put k v) kvs [])) k = map_of (rev kvs) k" for k
    by (simp add: lookup_def map_of_fold_put)
  then have "lookup (Some (fold (\<lambda>(k, v). map_put k v) kvs [])) ''task'' = Some (GStr (tp_TaskName p))"
    "lookup (Some (fold (\<lambda>(k, v). map_put k v) kvs [])) ''id'' = Some (GStr (tp_TaskID p))"
    "header_retries (Some (fold (\<lambda>(k, v). map_put k v) kvs [])) = tp_Retries p"
    using v(2) by (simp_all add: kvs_def header_retries_def)
  ultimately show ?thesis using j wf by (auto simp: marshal_map_def)
qed

lemma properties_text:
  assumes "utf8_valid (tp_TaskID p)" "utf8_valid (tp_Queue p)"
  shows "\<exists>j h. marshal_map (Some (celery_properties p)) = Some j \<and> wf_json j \<and> depth j < max_nesting \<and>
    (\<forall>upd. set_map None upd j = (Some (upd (Some h)) :: CeleryMessage option)) \<and> routing_queue (Some h) = tp_Queue p"
proof -
  obtain v w where vw: "parse_float (int_text 2) = Some v" "parse_float (int_text 0) = Some w"
    using parse_float_int_text [of 2] parse_float_int_text [of 0] by auto
  define info where "info = (if tp_Queue p = [] then []
    else [(''delivery_info'', GMap [(''exchange'', GStr []), (''routing_key'', GStr (tp_Queue p))])])"
  have h: "celery_properties p =
    [(''body_encoding'', GStr ''base64''), (''correlation_id'', GStr (tp_TaskID p))] @ info @
    [(''delivery_mode'', GInt 2), (''priority'', GInt 0)]"
    by (simp add: celery_properties_def map_literal_def info_def)
  obtain j where j: "marshal_value (GMap (celery_properties p)) = Some j"
    unfolding h info_def by (cases "tp_Queue p = []") simp_all
  have "value_depth (GMap (celery_properties p)) \<le> 2" unfolding h info_def by (cases "tp_Queue p = []") simp_all
  with marshal_json [OF j] have wf: "wf_json j" "depth j < max_nesting" by (simp_all add: max_nesting_def)
  define kvs where "kvs =
    [(''body_encoding'', GStr ''base64''), (''correlation_id'', GStr (tp_TaskID p))] @ info @
    [(''delivery_mode'', GFloat v), (''priority'', GFloat w)]"
  have "list_all (\<lambda>s. unquote (quote s) = s) [''body_encoding'', ''correlation_id'', ''delivery_info'', ''exchange'',
      ''routing_key'', ''delivery_mode'', ''priority'', ''base64'', []]"
    by (simp add: unquote_quote utf8_len_def)
  then have "set_map None upd j = (Some (upd (Some (fold (\<lambda>(k, v). map_put k v) kvs []))) :: CeleryMessage option)" for upd
    using j vw assms unfolding h info_def kvs_def
    by (cases "tp_Queue p = []") (auto simp: set_map_def unquote_quote)
  moreover have "routing_queue (Some (fold (\<lambda>(k, v). map_put k v) kvs [])) = tp_Queue p"
    by (simp add: routing_queue_def lookup_def map_of_fold_put kvs_def info_def)
  ultimately show ?thesis using j wf by (auto simp: marshal_map_def)
qed

text \<open>The payloads that survive the text: the retries pass through a float64.\<close>

definition celery_ok :: "TaskPayload \<Rightarrow> bool" where
  "celery_ok p \<longleftrightarrow> values_ok p \<and> utf8_valid (tp_TaskName p) \<and> utf8_valid (tp_TaskID p) \<and>
     utf8_valid (tp_Queue p) \<and> \<bar>tp_Retries p\<bar> \<le> 2 ^ 53"

lemma celery_text_lemma:
  assumes "celery_ok p"
  shows "\<exists>d. celery_text p = Inr d \<and> DecodeTask d = Inr (nil_to_empty p)"
proof -
  have ok: "values_ok p" "utf8_valid (tp_TaskName p)" "utf8_valid (tp_TaskID p)" "utf8_valid (tp_Queue p)"
    "\<bar>tp_Retries p\<bar> \<le> 2 ^ 53" using assms by (simp_all add: celery_ok_def)
  obtain d a k rest where b: "marshal_body p = Some d" "body_values d = Some (a # k # rest)"
    "(case a of GArr vs \<Rightarrow> vs | _ \<Rightarrow> []) = (case tp_Args p of None \<Rightarrow> [] | Some vs \<Rightarrow> vs)"
    "(case k of GMap m \<Rightarrow> m | _ \<Rightarrow> []) = (case tp_Kwargs p of None \<Rightarrow> [] | Some m \<Rightarrow> m)"
    using body_roundtrip [OF ok(1)] by blast
  obtain jh h where h: "marshal_map (Some (celery_headers p)) = Some jh" "wf_json jh" "depth jh < max_nesting"
    "\<And>upd. set_map None upd jh = (Some (upd (Some h)) :: CeleryMessage option)"
    "lookup (Some h) ''task'' = Some (GStr (tp_TaskName p))" "lookup (Some h) ''id'' = Some (GStr (tp_TaskID p))"
    "header_retries (Some h) = tp_Retries p" using headers_text [OF ok(2,3,5)] by blast
  obtain jp q where q: "marshal_map (Some (celery_properties p)) = Some jp" "wf_json jp" "depth jp < max_nesting"
    "\<And>upd. set_map None upd jp = (Some (upd (Some q)) :: CeleryMessage option)"
    "routing_queue (Some q) = tp_Queue p" using properties_text [OF ok(3,4)] by blast
  define ms where "ms = [str_member ''body'' (b64_encode d), str_member ''content-encoding'' ''utf-8'',
    str_member ''content-type'' ''application/json'', (''headers'', jh), (''properties'', jp)]"
  have keys: "list_all (\<lambda>k. unquote k = k \<and> (\<forall>acc. valid_raw (LStr acc) k))
      [''body'', ''content-encoding'', ''content-type'', ''headers'', ''properties'']"
    using unquote_plain [OF celery_keys_plain(1)] raw_plain [OF celery_keys_plain(2)]
    by (simp add: celery_key_names_def del: unquote.simps valid_raw.simps)
  have "celery_text p = Inr (print_members ms)"
    using b(1) h(1) q(1)
    by (simp add: celery_text_def CeleryMessageFromTaskPayload_def marshal_celery_def celery_members_def
        print_or_error_def ms_def)
  moreover have "wf_members ms"
    using keys h(2,3) q(2,3)
    by (simp add: ms_def str_member_def valid_raw_quote max_nesting_def del: valid_raw.simps)
  then have "ParseCeleryMessage (print_members ms) = Inr \<lparr>cm_Body = b64_encode d, cm_ContentEncoding = ''utf-8'',
      cm_ContentType = ''application/json'', cm_Headers = Some h, cm_Properties = Some q\<rparr>"
    using keys h(4) q(4) ascii_utf8 [OF b64_ascii [of d]]
    by (simp add: ParseCeleryMessage_def or_error_def Unmarshal_members ms_def str_member_def zero_celery_def
        utf8_len_def del: unquote.simps)
  then have "DecodeTask (print_members ms) = Inr (nil_to_empty p)"
    using b h(5-7) q(5)
    by (simp add: DecodeTask_def TaskPayloadFromCeleryMessage_def nil_to_empty_def)
  ultimately show ?thesis by blast
qed

end
