(* ===== verification/JsonTypes.thy ===== *)
theory JsonTypes
  imports JsonCelery
begin

text \<open>
  What decoding yields is well formed: the parser keeps to the limit on the nesting, strings are UTF-8,
  numbers are finite float64 values, maps are sorted, and so every decoded task can be encoded again.
\<close>

section \<open>The nesting of what the parser accepts\<close>

fun frame_depth :: "frame \<Rightarrow> nat" where
  "frame_depth (FArr vs) = foldr max (map depth vs) 0"
| "frame_depth (FObj ms k) = foldr max (map (\<lambda>p. depth (snd p)) ms) 0"

text \<open>What a frame holds leaves room for the frames around it.\<close>

fun frames_ok :: "frame list \<Rightarrow> bool" where
  "frames_ok [] = True"
| "frames_ok (f # fs) = (frame_depth f + length fs < max_nesting \<and> frames_ok fs)"

definition state_ok :: "mode \<times> frame list \<Rightarrow> bool" where
  "state_ok s \<longleftrightarrow> frames_ok (snd s) \<and> (case fst s of MDone v \<Rightarrow> depth v \<le> max_nesting | _ \<Rightarrow> True)"

lemma foldr_max_map_append [simp]:
  "foldr max (map f (xs @ [x])) (0 :: nat) = max (foldr max (map f xs) 0) (f x)"
  by (induction xs) auto

lemma put_ok: "frames_ok fs \<Longrightarrow> depth v + length fs \<le> max_nesting \<Longrightarrow> state_ok (put v fs)"
proof (cases "(v, fs)" rule: put.cases)
  case (2 v' vs gs)
  assume "frames_ok fs" "depth v + length fs \<le> max_nesting"
  with 2 show ?thesis by (auto simp: state_ok_def max_def simp del: map_append)
next
  case (3 v' ms k gs)
  assume "frames_ok fs" "depth v + length fs \<le> max_nesting"
  with 3 show ?thesis by (auto simp: state_ok_def max_def simp del: map_append)
qed (simp add: state_ok_def)

lemma open_ok:
  "frames_ok fs \<Longrightarrow> open_frame (FArr []) fs = Some s \<Longrightarrow> state_ok s"
  "frames_ok fs \<Longrightarrow> open_frame (FObj [] k) fs = Some s \<Longrightarrow> state_ok s"
  by (auto simp: open_frame_def state_ok_def split: if_splits)

lemma frames_length: "frames_ok fs \<Longrightarrow> length fs \<le> max_nesting"
  by (cases fs) auto

lemma parse_value_ok: "frames_ok fs \<Longrightarrow> parse_value t fs = Some s \<Longrightarrow> state_ok s"
  using frames_length [of fs]
  by (auto simp: parse_value_def intro: put_ok open_ok split: token.splits)

lemma parse_step_ok: "state_ok s \<Longrightarrow> parse_step s t = Some s' \<Longrightarrow> state_ok s'"
proof -
  assume s: "state_ok s" "parse_step s t = Some s'"
  obtain m fs where m: "s = (m, fs)" by (cases s)
  have fs: "frames_ok fs" using s(1) m by (simp add: state_ok_def)
  show ?thesis
  proof (cases m)
    case MValue
    with s(2) m parse_value_ok [OF fs] show ?thesis by (simp add: parse_step_def)
  next
    case MFirst
    with s(2) m fs parse_value_ok [OF fs] show ?thesis
      by (auto simp: parse_step_def state_ok_def intro!: put_ok [unfolded state_ok_def]
          split: list.splits frame.splits if_splits token.splits)
  next
    case MKey
    with s(2) m fs show ?thesis
      by (auto simp: parse_step_def state_ok_def split: list.splits frame.splits token.splits)
  next
    case MColon
    with s(2) m fs show ?thesis by (auto simp: parse_step_def state_ok_def split: if_splits)
  next
    case MAfter
    with s(2) m fs show ?thesis
      by (auto simp: parse_step_def state_ok_def intro!: put_ok [unfolded state_ok_def]
          split: list.splits frame.splits if_splits)
  qed (use s(2) m in \<open>simp add: parse_step_def\<close>)
qed

lemma parse_from_depth: "state_ok s \<Longrightarrow> parse_from s ts = Some j \<Longrightarrow> depth j \<le> max_nesting"
proof (induction s ts rule: parse_from.induct)
  case (1 s)
  then show ?case by (auto simp: state_ok_def split: prod.splits mode.splits list.splits)
next
  case (2 s t ts)
  then show ?case using parse_step_ok by (auto split: option.splits)
qed

lemma json_parse_depth: "json_parse s = Some j \<Longrightarrow> depth j \<le> max_nesting"
proof -
  assume "json_parse s = Some j"
  then obtain ts where "parse_from (MValue, []) ts = Some j" by (auto simp: json_parse_def split: option.splits)
  moreover have "state_ok (MValue, [])" by (simp add: state_ok_def)
  ultimately show ?thesis by (rule parse_from_depth [rotated])
qed

section \<open>Strings\<close>

lemma utf8_valid_append: "utf8_valid s \<Longrightarrow> utf8_valid t \<Longrightarrow> utf8_valid (s @ t)"
proof (induction s rule: utf8_valid.induct)
  case (2 c cs)
  then obtain n where n: "utf8_len (c # cs) = Suc n" by (cases "utf8_len (c # cs)") simp_all
  have len: "n \<le> length cs" using utf8_len_take [OF n, of t] by (simp add: min_def split: if_splits)
  then have "utf8_len (c # cs @ t) = Suc n"
    using utf8_len_take [OF n, of "drop n cs @ t"] by (simp flip: append_assoc)
  with 2 n len show ?case by simp
qed simp

lemma byte_chr: "n < 256 \<Longrightarrow> byte (chr n) = n"
  by (simp add: take_bit_nat_eq_self)

lemma sextet_le [simp]: "n mod 64 \<le> (63 :: nat)"
  using mod_less_divisor [of 64 n] by linarith

lemma sextet_split: "n = 64 * m * (n div (64 * m)) + m * (n div m mod 64) + n mod m" for n m :: nat
  using div_mult_mod_eq [of n "m * 64"] mod_mult2_eq [of n m 64] by (simp add: ac_simps)

lemma sextets_of_three:
  fixes n :: nat
  assumes "2048 \<le> n" "\<not> (55296 \<le> n \<and> n < 57344)"
  shows "n div 4096 = 0 \<Longrightarrow> 32 \<le> n div 64 mod 64" "n div 4096 = 13 \<Longrightarrow> n div 64 mod 64 \<le> 31"
proof -
  have n: "n = 4096 * (n div 4096) + 64 * (n div 64 mod 64) + n mod 64" using sextet_split [of n 64] by simp
  have y: "n mod 64 < 64" "n div 64 mod 64 < 64" by simp_all
  show "n div 4096 = 0 \<Longrightarrow> 32 \<le> n div 64 mod 64" using assms(1) n y by linarith
  assume "n div 4096 = 13"
  with n y have "32 \<le> n div 64 mod 64 \<Longrightarrow> 55296 \<le> n" "n < 57344" by linarith+
  with assms(2) show "n div 64 mod 64 \<le> 31" by linarith
qed

lemma sextets_of_four:
  fixes n :: nat
  assumes "65536 \<le> n" "n < 1114112"
  shows "n div 262144 = 0 \<Longrightarrow> 16 \<le> n div 4096 mod 64" "n div 262144 = 4 \<Longrightarrow> n div 4096 mod 64 \<le> 15"
proof -
  have n: "n = 262144 * (n div 262144) + 4096 * (n div 4096 mod 64) + n mod 4096" using sextet_split [of n 4096] by simp
  have y: "n mod 4096 < 4096" by simp
  show "n div 262144 = 0 \<Longrightarrow> 16 \<le> n div 4096 mod 64" using assms(1) n y by linarith
  show "n div 262144 = 4 \<Longrightarrow> n div 4096 mod 64 \<le> 15" using assms(2) n y by linarith
qed

lemma utf8_valid_of: "n < 1114112 \<Longrightarrow> \<not> (55296 \<le> n \<and> n < 57344) \<Longrightarrow> utf8_valid (utf8_of n)"
proof -
  assume n: "n < 1114112" "\<not> (55296 \<le> n \<and> n < 57344)"
  consider "n < 128" | "128 \<le> n" "n < 2048" | "2048 \<le> n" "n < 65536" | "65536 \<le> n" by linarith
  then show ?thesis
  proof cases
    case 1
    then show ?thesis by (simp add: utf8_of_def utf8_len_def byte_chr)
  next
    case 2
    then have "2 \<le> n div 64" "n div 64 < 32" "n mod 64 < 64" by simp_all
    with 2 show ?thesis by (simp add: utf8_of_def utf8_len_def byte_chr continuation_def del: of_char_of)
  next
    case 3
    then have "n div 4096 < 16" "n mod 64 < 64" "n div 64 mod 64 < 64" by simp_all
    moreover have "n div 4096 = 0 \<Longrightarrow> n div 64 \<le> 63" by linarith
    ultimately show ?thesis using 3 sextets_of_three [OF 3(1) n(2)]
      by (simp add: utf8_of_def utf8_len_def byte_chr continuation_def less_Suc_eq_le del: of_char_of)
  next
    case 4
    then have "n div 262144 < 5" "n mod 64 < 64" "n div 64 mod 64 < 64" "n div 4096 mod 64 < 64" using n(1) by simp_all
    with 4 sextets_of_four [OF 4 n(1)] show ?thesis
      by (simp add: utf8_of_def utf8_len_def byte_chr continuation_def del: of_char_of)
  qed
qed

lemma utf8_replacement: "utf8_valid replacement"
  by (simp add: replacement_def utf8_len_def continuation_def)

lemma hex_val_less: "hex_val c = Some n \<Longrightarrow> n < 16"
  by (auto simp: hex_val_def split: if_splits)

lemma hex4_less: "hex4 s = Some (u, r) \<Longrightarrow> u < 65536"
  by (auto simp: hex4_def split: list.splits option.splits dest!: hex_val_less)

text \<open>A surrogate pair stands for a character beyond U+FFFF.\<close>

lemma unescape_u_utf8: "utf8_valid (fst (unescape_u s))"
proof (cases "hex4 s")
  case None
  then show ?thesis by (simp add: unescape_u_def utf8_replacement)
next
  case (Some p)
  obtain u r where p: "p = (u, r)" by (cases p)
  have "u < 65536" using Some p hex4_less by simp
  show ?thesis
  proof (cases "55296 \<le> u \<and> u < 57344")
    case True
    have "utf8_valid (utf8_of (9216 + ((u - 55296) * 1024 + v)))" if "u < 56320" "56320 \<le> v" "v < 57344" for v
      using that by (intro utf8_valid_of) auto
    with True Some p utf8_replacement show ?thesis
      by (simp add: unescape_u_def split: list.split option.split)
  next
    case False
    have "unescape_u s = (utf8_of u, r)"
      by (simp only: unescape_u_def Some p option.case prod.case False if_False)
    with utf8_valid_of [of u] False \<open>u < 65536\<close> show ?thesis by simp
  qed
qed

lemma unescape_utf8: "utf8_valid (fst (unescape s))"
  using unescape_u_utf8 utf8_replacement by (cases s) (simp_all add: unescape_def utf8_len_def)

lemma unquote_utf8: "utf8_valid (unquote r)"
proof (induction r rule: unquote.induct)
  case (2 c cs)
  show ?case
  proof (cases "c = backslash")
    case True
    with 2(1) show ?thesis by (simp add: utf8_valid_append unescape_utf8)
  next
    case False
    show ?thesis
    proof (cases "byte c < 128")
      case True
      with False 2(2) utf8_valid_append [of "[c]"] show ?thesis by (simp add: utf8_len_def)
    next
      case high: False
      show ?thesis
      proof (cases "utf8_len (c # cs)")
        case 0
        with False high 2(3) show ?thesis by (simp add: utf8_valid_append utf8_replacement)
      next
        case (Suc n)
        have "utf8_len (c # take n cs) = Suc n" "length (take n cs) = n"
          using utf8_len_take [OF Suc, of "[]"] by simp_all
        then have "utf8_valid (c # take n cs)" by simp
        from utf8_valid_append [OF this] False high Suc 2(4) show ?thesis by simp
      qed
    qed
  qed
qed simp

section \<open>Numbers\<close>

lemma round_even_le:
  assumes "0 < d" "n < d * 2 ^ 53"
  shows "round_even n d \<le> 2 ^ 53"
proof -
  have "n div d < 2 ^ 53" using assms by (simp add: less_mult_imp_div_less ac_simps)
  then show ?thesis by (simp add: round_even_def)
qed

lemma strip_twos_props: "strip_twos q ex = (m, e) \<Longrightarrow> m = 0 \<and> e = 0 \<or> odd m \<and> m \<le> q \<and> ex \<le> e"
proof (induction q ex rule: strip_twos.induct)
  case (1 q ex)
  show ?case
  proof (cases "q \<noteq> 0 \<and> even q")
    case True
    with 1(2) have "strip_twos (q div 2) (ex + 1) = (m, e)" by (subst (asm) strip_twos.simps) simp
    with 1(1) True show ?thesis by fastforce
  next
    case False
    with 1(2) show ?thesis by (subst (asm) strip_twos.simps) (auto split: if_splits)
  qed
qed

text \<open>The quotient that is rounded has at most 53 bits.\<close>

lemma f64_exponent_upper:
  assumes "0 < a" "0 < b" "scaled a b (f64_exponent a b) = (n, d)"
  shows "0 < d \<and> n < d * 2 ^ 53"
proof -
  define l where "l = int (bit_len a) - int (bit_len b)"
  have d: "0 < d" using assms by (auto simp: scaled_def)
  have l: "real a / real b < 2 powi (l + 1)"
  proof -
    have "a < 2 ^ bit_len a" "2 ^ bit_len b \<le> 2 * b" using bit_len_bounds assms by auto
    then have "real a < real (2 ^ bit_len a)" "real (2 ^ bit_len b) \<le> real (2 * b)"
      by (simp_all only: of_nat_le_iff of_nat_less_iff)
    then have ab: "real a < 2 ^ bit_len a" "2 ^ bit_len b \<le> 2 * real b" by simp_all
    have "2 powi l * 2 ^ bit_len b = (2 :: real) ^ bit_len a" by (simp add: l_def power_int_diff)
    moreover have "2 powi l * 2 ^ bit_len b \<le> 2 powi l * (2 * real b)" using ab(2) by simp
    ultimately have "real a < 2 powi l * (2 * real b)" using ab(1) by linarith
    then show ?thesis using assms(2) by (simp add: power_int_add field_simps)
  qed
  have bound: "real n' / real d' < 2 ^ 53" if "scaled a b ex = (n', d')" "l - 52 \<le> ex" for n' d' ex
  proof -
    have "real n' / real d' = real a / real b / 2 powi ex" using scaled_real [OF assms(2) that(1)] .
    also have "\<dots> < 2 powi (l + 1) / 2 powi ex" by (rule divide_strict_right_mono [OF l]) simp
    also have "\<dots> = 2 powi (l + 1 - ex)" by (simp add: power_int_diff)
    also have "\<dots> \<le> 2 powi 53" using that(2) by (intro power_int_increasing) auto
    finally show ?thesis by simp
  qed
  have "real n / real d < 2 ^ 53"
  proof (cases "l - 52 \<le> f64_exponent a b")
    case True
    with bound [OF assms(3)] show ?thesis by blast
  next
    case False
    then have ex: "f64_exponent a b = l - 53" "fst (scaled a b (l - 53)) < snd (scaled a b (l - 53)) * 2 ^ 53"
      by (auto simp: f64_exponent_def l_def Let_def max_def split: if_splits)
    with assms(3) have "n < d * 2 ^ 53" by simp
    then have "real n < real (d * 2 ^ 53)" by (simp only: of_nat_less_iff)
    with d show ?thesis by (simp add: field_simps)
  qed
  then have "real n < real (d * 2 ^ 53)" using d by (simp add: field_simps)
  with d show ?thesis by (simp only: of_nat_less_iff)
qed

lemma f64_of_ratio_valid:
  assumes "f64_of_ratio neg a b = Some v" "0 < b"
  shows "valid_f64 v \<and> f64_finite v"
proof (cases "a = 0")
  case True
  with assms show ?thesis by (auto simp: f64_of_ratio_def f64_finite_def)
next
  case False
  define ex where "ex = f64_exponent a b"
  obtain n d where nd: "scaled a b ex = (n, d)" by fastforce
  obtain m e where me: "strip_twos (round_even n d) ex = (m, e)" by fastforce
  have v: "v = Fin neg m e" "int (bit_len m) + e \<le> 1024"
    using assms(1) False nd me by (auto simp: f64_of_ratio_def ex_def Let_def split: if_splits)
  have "round_even n d \<le> 2 ^ 53"
    using f64_exponent_upper [of a b n d] False assms(2) nd round_even_le by (simp add: ex_def)
  moreover have "- 1074 \<le> ex" by (simp add: ex_def f64_exponent_def Let_def)
  moreover have "odd m \<Longrightarrow> m \<noteq> 2 ^ 53" by auto
  ultimately show ?thesis using strip_twos_props [OF me] v by (auto simp: f64_finite_def)
qed

lemma f64_of_decimal_valid: "f64_of_decimal neg d e = Some v \<Longrightarrow> valid_f64 v \<and> f64_finite v"
  using f64_of_ratio_valid [of neg "d * 10 ^ nat e" 1 v] f64_of_ratio_valid [of neg d "10 ^ nat (- e)" v]
  by (simp add: f64_of_decimal_def split: if_splits)

lemma parse_float_wf: "parse_float s = Some v \<Longrightarrow> valid_f64 v \<and> f64_finite v"
  using f64_of_decimal_valid by (simp add: parse_float_def unsigned_float_def split: if_splits prod.splits)

section \<open>Values\<close>

lemma set_map_put: "set (map_put k v m) \<subseteq> insert (k, v) (set m)"
  by (induction k v m rule: map_put.induct) auto

lemma fold_put_entries: "set (fold (\<lambda>(k, v). map_put k v) kvs m) \<subseteq> set m \<union> set kvs"
proof (induction kvs arbitrary: m)
  case (Cons p kvs)
  obtain k v where "p = (k, v)" by fastforce
  with Cons [of "map_put k v m"] set_map_put [of k v m] show ?case by auto
qed simp

lemma fold_put_sorted: "sorted_map m \<Longrightarrow> sorted_map (fold (\<lambda>(k, v). map_put k v) kvs m)"
  by (induction kvs arbitrary: m) (auto simp: sorted_map_put)

lemma foldr_max_le: "foldr max (map f xs) (0 :: nat) \<le> n \<longleftrightarrow> (\<forall>x \<in> set xs. f x \<le> n)"
  by (induction xs) auto

text \<open>A map that is built from well-formed entries, and one that others are added to.\<close>

lemma wf_map_fold:
  assumes "wf_value (GMap m)" "\<forall>p \<in> set m. value_depth (snd p) \<le> n"
    "\<forall>(k, v) \<in> set kvs. utf8_valid k \<and> wf_value v \<and> value_depth v \<le> n"
  shows "wf_value (GMap (fold (\<lambda>(k, v). map_put k v) kvs m)) \<and>
    value_depth (GMap (fold (\<lambda>(k, v). map_put k v) kvs m)) \<le> Suc n"
proof -
  have "\<forall>p \<in> set (fold (\<lambda>(k, v). map_put k v) kvs m). utf8_valid (fst p) \<and> wf_value (snd p) \<and> value_depth (snd p) \<le> n"
    using fold_put_entries [of kvs m] assms by fastforce
  with fold_put_sorted assms(1) show ?thesis by (auto simp: foldr_max_le)
qed

lemma unmarshal_wf: "unmarshal_value j = Some v \<Longrightarrow> wf_value v \<and> value_depth v \<le> depth j"
proof (induction j arbitrary: v)
  case (JNum s)
  then show ?case using parse_float_wf by auto
next
  case (JStr s)
  then show ?case using unquote_utf8 by auto
next
  case (JArr js)
  then obtain vs where vs: "v = GArr vs" "list_all2 (\<lambda>j v. unmarshal_value j = Some v) js vs"
    by (auto simp: all_some_map_eq)
  have all: "list_all2 (\<lambda>j v. wf_value v \<and> value_depth v \<le> depth j) js vs"
    using vs(2) by (rule list.rel_mono_strong) (use JArr.IH in blast)
  then have "\<forall>v \<in> set vs. wf_value v" "foldr max (map value_depth vs) 0 \<le> foldr max (map depth js) 0"
    by (induction rule: list_all2_induct) auto
  with vs(1) show ?case by simp
next
  case (JObj ms)
  then obtain kvs where kvs: "v = GMap (fold (\<lambda>(k, v). map_put k v) kvs [])"
    "list_all2 (\<lambda>p q. tagged (unquote (fst p)) (unmarshal_value (snd p)) = Some q) ms kvs"
    by (auto simp: all_some_map_eq)
  have "list_all2 (\<lambda>p q. utf8_valid (fst q) \<and> wf_value (snd q) \<and> value_depth (snd q) \<le> depth (snd p)) ms kvs"
    using kvs(2) by (rule list.rel_mono_strong) (use JObj.IH snd_in_snds unquote_utf8 in fastforce)
  then have "\<forall>(k, v) \<in> set kvs. utf8_valid k \<and> wf_value v \<and> value_depth v \<le> foldr max (map (\<lambda>p. depth (snd p)) ms) 0"
    by (induction rule: list_all2_induct) (auto simp: le_max_iff_disj split: prod.splits)
  with kvs(1) wf_map_fold [of "[]" _ kvs] show ?case by simp
qed auto

section \<open>Tasks\<close>

definition slice_ok :: "gval list option \<Rightarrow> bool" where
  "slice_ok a \<longleftrightarrow> (\<forall>vs. a = Some vs \<longrightarrow> wf_value (GArr vs) \<and> value_depth (GArr vs) < max_nesting)"

definition map_ok :: "gmap option \<Rightarrow> bool" where
  "map_ok a \<longleftrightarrow> (\<forall>m. a = Some m \<longrightarrow> wf_value (GMap m) \<and> value_depth (GMap m) < max_nesting)"

lemma task_ok_alt:
  "task_ok p \<longleftrightarrow> utf8_valid (tp_TaskName p) \<and> utf8_valid (tp_TaskID p) \<and> utf8_valid (tp_Queue p) \<and>
     int64_range (tp_Retries p) \<and> slice_ok (tp_Args p) \<and> map_ok (tp_Kwargs p)"
  by (simp add: task_ok_def slice_ok_def map_ok_def)

lemma Atoi_range: "Atoi s = Some i \<Longrightarrow> int64_range i"
  by (auto simp: Atoi_def Let_def split: option.splits if_splits)

lemma f64_to_int_range: "int64_range (f64_to_int v)"
  by (auto simp: f64_to_int_def int64_range_def int64_min_def Let_def split: f64.split)

lemma set_string_keeps:
  "set_string upd s j = Some s' \<Longrightarrow> s' = s \<or> (\<exists>v. utf8_valid v \<and> s' = upd v)"
  using unquote_utf8 by (auto simp: set_string_def split: json.splits)

lemma set_int_keeps: "set_int upd s j = Some s' \<Longrightarrow> s' = s \<or> (\<exists>i. int64_range i \<and> s' = upd i)"
  using Atoi_range by (auto simp: set_int_def split: json.splits)

lemma set_slice_keeps: "set_slice upd j = Some s' \<Longrightarrow> depth j < max_nesting \<Longrightarrow> \<exists>a. slice_ok a \<and> s' = upd a"
proof -
  assume s: "set_slice upd j = Some s'" "depth j < max_nesting"
  show ?thesis
  proof (cases j)
    case (JArr js)
    with s(1) obtain vs where vs: "all_some (map unmarshal_value js) = Some vs" "s' = upd (Some vs)"
      by (auto simp: set_slice_def)
    then have "unmarshal_value j = Some (GArr vs)" using JArr by simp
    from unmarshal_wf [OF this] s(2) have "slice_ok (Some vs)" by (simp add: slice_ok_def)
    with vs(2) show ?thesis by blast
  qed (use s in \<open>auto simp: set_slice_def slice_ok_def\<close>)
qed

lemma set_map_keeps:
  assumes "set_map old upd j = Some s'" "depth j < max_nesting" "map_ok old"
  shows "\<exists>a. map_ok a \<and> s' = upd a"
proof (cases j)
  case (JObj ms)
  define m where "m = (case old of None \<Rightarrow> [] | Some m \<Rightarrow> m)"
  obtain kvs where kvs: "all_some (map (\<lambda>p. tagged (unquote (fst p)) (unmarshal_value (snd p))) ms) = Some kvs"
    "s' = upd (Some (fold (\<lambda>(k, v). map_put k v) kvs m))"
    using assms(1) JObj by (auto simp: set_map_def m_def)
  have "wf_value (GMap m) \<and> foldr max (map (\<lambda>p. value_depth (snd p)) m) 0 \<le> max_nesting - 2"
    using assms(3) by (cases old) (auto simp: map_ok_def m_def max_nesting_def)
  then have old: "wf_value (GMap m)" "\<forall>p \<in> set m. value_depth (snd p) \<le> max_nesting - 2"
    unfolding foldr_max_le by blast+
  have "list_all2 (\<lambda>p q. utf8_valid (fst q) \<and> wf_value (snd q) \<and> value_depth (snd q) \<le> depth (snd p)) ms kvs"
    using kvs(1) [unfolded all_some_map_eq]
    by (rule list.rel_mono_strong) (use unmarshal_wf unquote_utf8 in fastforce)
  then have "\<forall>(k, v) \<in> set kvs. utf8_valid k \<and> wf_value v \<and> value_depth v \<le> foldr max (map (\<lambda>p. depth (snd p)) ms) 0"
    by (induction rule: list_all2_induct) (auto simp: le_max_iff_disj split: prod.splits)
  moreover have "foldr max (map (\<lambda>p. depth (snd p)) ms) 0 \<le> max_nesting - 2"
    using assms(2) JObj by (simp add: max_nesting_def)
  ultimately have "\<forall>(k, v) \<in> set kvs. utf8_valid k \<and> wf_value v \<and> value_depth v \<le> max_nesting - 2" by auto
  from wf_map_fold [OF old this] kvs(2) show ?thesis by (auto simp: map_ok_def max_nesting_def)
qed (use assms in \<open>auto simp: set_map_def map_ok_def\<close>)

text \<open>A property of the struct that every field's setter keeps holds after decoding.\<close>

lemma unmarshal_keeps:
  assumes "unmarshal_members fs s ms = Some s'" "P s" "\<forall>(k, j) \<in> set ms. depth j < max_nesting"
    "\<And>k f s j s'. (k, f) \<in> set fs \<Longrightarrow> P s \<Longrightarrow> depth j < max_nesting \<Longrightarrow> f s j = Some s' \<Longrightarrow> P s'"
  shows "P s'"
proof -
  have "\<exists>k'. (k', f) \<in> set fs" if "find_field fs k = Some f" for k f
    using that by (auto simp: find_field_def split: option.splits dest!: map_of_SomeD)
  with assms show ?thesis
    by (induction fs s ms rule: unmarshal_members.induct) (auto split: option.splits, blast+)
qed

lemma Unmarshal_keeps:
  assumes "Unmarshal fs s data = Some s'" "P s"
    "\<And>k f s j s'. (k, f) \<in> set fs \<Longrightarrow> P s \<Longrightarrow> depth j < max_nesting \<Longrightarrow> f s j = Some s' \<Longrightarrow> P s'"
  shows "P s'"
proof -
  obtain j where j: "json_parse data = Some j" using assms(1) by (auto simp: Unmarshal_def split: option.splits)
  show ?thesis
  proof (cases j)
    case (JObj ms)
    have "foldr max (map (\<lambda>p. depth (snd p)) ms) 0 \<le> max_nesting - 1"
      using json_parse_depth [OF j] JObj by (simp add: max_nesting_def)
    then have "\<forall>(k, j) \<in> set ms. depth j < max_nesting" by (auto simp: foldr_max_le max_nesting_def)
    moreover have "unmarshal_members fs s ms = Some s'" using assms(1) j JObj by (simp add: Unmarshal_def)
    ultimately show ?thesis using unmarshal_keeps [of fs s ms s' P] assms(2,3) by blast
  qed (use assms j in \<open>simp_all add: Unmarshal_def\<close>)
qed

lemma decoded_celery:
  assumes "ParseCeleryMessage data = Inr m"
  shows "map_ok (cm_Headers m) \<and> map_ok (cm_Properties m)"
proof (rule Unmarshal_keeps [of celery_fields zero_celery data m "\<lambda>m. map_ok (cm_Headers m) \<and> map_ok (cm_Properties m)"])
  show "Unmarshal celery_fields zero_celery data = Some m"
    using assms by (simp add: ParseCeleryMessage_def or_error_def split: option.splits)
  fix k f s j s'
  assume "(k, f) \<in> set celery_fields" "map_ok (cm_Headers s) \<and> map_ok (cm_Properties s)" "depth j < max_nesting"
    "f s j = Some s'"
  then show "map_ok (cm_Headers s') \<and> map_ok (cm_Properties s')"
    by (auto simp: celery_fields_def dest!: set_string_keeps set_map_keeps)
qed (simp add: zero_celery_def map_ok_def)

definition task_message_ok :: "TaskMessage \<Rightarrow> bool" where
  "task_message_ok m \<longleftrightarrow> task_ok (task_ToPayload m)"

lemma decoded_task_message: "Unmarshal task_fields zero_task data = Some m \<Longrightarrow> task_message_ok m"
proof (rule Unmarshal_keeps [of task_fields zero_task data m task_message_ok])
  fix k f s j s'
  assume "(k, f) \<in> set task_fields" "task_message_ok s" "depth j < max_nesting" "f s j = Some s'"
  then show "task_message_ok s'"
    by (auto simp: task_fields_def base_fields_def task_message_ok_def task_ok_alt task_ToPayload_def
        dest!: set_string_keeps set_map_keeps set_slice_keeps set_int_keeps)
qed (simp_all add: zero_task_def task_message_ok_def task_ok_alt task_ToPayload_def slice_ok_def map_ok_def int64_range_def)

text \<open>The values in a well-formed map are well formed.\<close>

lemma lookup_wf: "map_ok m \<Longrightarrow> lookup m k = Some v \<Longrightarrow> wf_value v"
  by (auto simp: map_ok_def lookup_def dest!: map_of_SomeD split: option.splits)

lemma header_retries_range: "map_ok h \<Longrightarrow> int64_range (header_retries h)"
  using f64_to_int_range Atoi_range lookup_wf [of h "''retries''"]
  by (auto simp: header_retries_def int64_range_def split: option.split gval.split)

lemma routing_queue_utf8: "map_ok p \<Longrightarrow> utf8_valid (routing_queue p)"
  using lookup_wf [of p "''delivery_info''"]
  by (fastforce simp: routing_queue_def dest!: map_of_SomeD split: option.split gval.split)

lemma body_values_ok:
  assumes "body_values data = Some vs" "v \<in> set vs"
  shows "wf_value v \<and> value_depth v < max_nesting"
proof -
  obtain js where js: "json_parse data = Some (JArr js)" "all_some (map unmarshal_value js) = Some vs"
    using assms by (auto simp: body_values_def split: option.splits json.splits)
  have "foldr max (map depth js) 0 \<le> max_nesting - 1"
    using json_parse_depth [OF js(1)] by (simp add: max_nesting_def)
  then have d: "\<forall>j \<in> set js. depth j \<le> max_nesting - 1" unfolding foldr_max_le .
  have "list_all2 (\<lambda>j v. wf_value v \<and> value_depth v < max_nesting) js vs"
    using js(2) [unfolded all_some_map_eq]
    by (rule list.rel_mono_strong) (use d unmarshal_wf in \<open>fastforce simp: max_nesting_def\<close>)
  with assms(2) show ?thesis by (auto simp: list_all2_conv_all_nth in_set_conv_nth)
qed

lemma decoded_payload:
  assumes "TaskPayloadFromCeleryMessage m = Inr p" "map_ok (cm_Headers m)" "map_ok (cm_Properties m)"
  shows "task_ok p"
proof -
  obtain n i d a k rest where p: "lookup (cm_Headers m) ''task'' = Some (GStr n)"
    "lookup (cm_Headers m) ''id'' = Some (GStr i)" "body_values d = Some (a # k # rest)"
    "p = \<lparr>tp_TaskName = n, tp_TaskID = i, tp_Args = Some (case a of GArr vs \<Rightarrow> vs | _ \<Rightarrow> []),
       tp_Kwargs = Some (case k of GMap kvs \<Rightarrow> kvs | _ \<Rightarrow> []), tp_Retries = header_retries (cm_Headers m),
       tp_Queue = routing_queue (cm_Properties m)\<rparr>"
    using assms(1)
    by (auto simp: TaskPayloadFromCeleryMessage_def split: option.splits gval.splits list.splits)
  have n: "Suc 0 < max_nesting" by (simp add: max_nesting_def)
  have "slice_ok (Some (case a of GArr vs \<Rightarrow> vs | _ \<Rightarrow> []))"
    using body_values_ok [OF p(3), of a] n by (cases a) (simp_all add: slice_ok_def)
  moreover have "map_ok (Some (case k of GMap kvs \<Rightarrow> kvs | _ \<Rightarrow> []))"
    using body_values_ok [OF p(3), of k] n by (cases k) (simp_all add: map_ok_def)
  moreover note p(4) lookup_wf [OF assms(2) p(1)] lookup_wf [OF assms(2) p(2)] header_retries_range [OF assms(2)]
    routing_queue_utf8 [OF assms(3)]
  ultimately show ?thesis by (simp add: task_ok_alt)
qed

lemma decoded_task: "DecodeTask data = Inr p \<Longrightarrow> task_ok p"
  using decoded_payload decoded_celery decoded_task_message
  by (fastforce simp: DecodeTask_def task_message_ok_def split: sum.splits option.splits if_splits)

end
