(* ===== verification/TaskChannel.thy ===== *)
theory TaskChannel
  imports PoolLemmas
begin

text \<open>
  The channel between a Python process and its child, for any protocol whose results survive
  encoding: what \<open>ExecuteTask\<close> gets when the child answers, and when nothing that the child writes decodes.
\<close>

locale result_protocol =
  codec "pr_EncodeResult pr" "pr_DecodeResult pr" env_ok ok "\<lambda>r. r"
  for pr :: protocol and env_ok :: "stamp \<Rightarrow> bool" and ok :: "ResultPayload \<Rightarrow> bool"
begin

text \<open>Lines that do not decode and results of other tasks are skipped.\<close>

lemma scan_skips:
  "\<forall>l \<in> set ls. \<forall>r. pr_DecodeResult pr l = Inr r \<longrightarrow> rp_TaskID r \<noteq> tid \<Longrightarrow>
     scan_result pr tid (ls @ rest) = scan_result pr tid rest"
  by (induction ls) (auto split: sum.split)

lemma scan_answer:
  assumes "\<forall>l \<in> set ls. \<forall>r. pr_DecodeResult pr l = Inr r \<longrightarrow> rp_TaskID r \<noteq> tid"
    "env_ok st" "ok r" "rp_TaskID r = tid" "pr_EncodeResult pr st r = Inr d"
  shows "scan_result pr tid (ls @ d # rest) = Some r"
  using assms scan_skips [OF assms(1)] roundtrip [OF assms(2,3,5)] by simp

lemma task_answered:
  assumes "p_protocol q = pr" "pr_EncodeTask pr (ex_stamp ex) task = Inr t" "ex_write_ok ex" "ex_wait ex = GotResult"
    "so_lines (ex_out ex) = ls @ d # rest"
    "\<forall>l \<in> set ls. \<forall>r. pr_DecodeResult pr l = Inr r \<longrightarrow> rp_TaskID r \<noteq> tp_TaskID task"
    "env_ok st" "ok r" "rp_TaskID r = tp_TaskID task" "pr_EncodeResult pr st r = Inr d"
  shows "ExecuteTask ex task q = (Inr r, mark_done (ex_end ex) (write_stdin t (mark_busy (ex_start ex) task q)))"
proof -
  have pr: "p_protocol (mark_busy (ex_start ex) task q) = pr" "p_protocol (write_stdin t q') = p_protocol q'" for q' t
    using assms(1) by (simp_all add: mark_busy_def setState_def Let_def write_stdin_def)
  have send: "send_task ex task (mark_busy (ex_start ex) task q) =
      (None, write_stdin t (mark_busy (ex_start ex) task q))"
    using assms(1-3) by (simp add: send_task_def)
  have "p_protocol (write_stdin t (mark_busy (ex_start ex) task q)) = pr" using assms(1) by (simp add: pr)
  with scan_answer [OF assms(6-10)] assms(4,5)
  have "await_result ex task (write_stdin t (mark_busy (ex_start ex) task q)) =
      (Inr r, mark_done (ex_end ex) (write_stdin t (mark_busy (ex_start ex) task q)))"
    by (simp add: await_result_def)
  with send show ?thesis by (simp add: ExecuteTask_def Let_def)
qed

end

text \<open>A child none of whose lines decodes is never heard: the task ends with an error, and with a
  child that was written to the process is in state error.\<close>

lemma scan_deaf: "\<forall>l \<in> set ls. isl (pr_DecodeResult pr l) \<Longrightarrow> scan_result pr tid ls = None"
  by (induction ls) (auto split: sum.split)

lemma task_unheard:
  assumes "\<forall>l \<in> set (so_lines (ex_out ex)). isl (pr_DecodeResult (p_protocol q) l)"
  shows "isl (fst (ExecuteTask ex task q)) \<and>
    ((\<exists>t. pr_EncodeTask (p_protocol q) (ex_stamp ex) task = Inr t) \<and> ex_write_ok ex \<longrightarrow>
      p_state (snd (ExecuteTask ex task q)) = ProcessStateError)"
proof -
  have pr: "p_protocol (mark_busy (ex_start ex) task q) = p_protocol q" "p_protocol (write_stdin t q') = p_protocol q'"
    for t q' by (simp_all add: mark_busy_def setState_def Let_def write_stdin_def)
  from scan_deaf [OF assms] show ?thesis
    by (auto simp: execute_defs Let_def pr mark_error_def setState_def
        split: sum.split option.split wait.split scan_end.split)
qed

end
