(* ===== verification/StdoutReaders.thy ===== *)
theory StdoutReaders
  imports PythonProcess JsonValue
begin

text \<open>
  The readers of a child's stdout (\<open>internal/pool/python/process.go\<close>). \<open>Start\<close> launches
  \<open>handleStdout\<close>, which reads the pipe for as long as the child lives, and every call of \<open>ExecuteTask\<close> launches a
  reader of its own on the same pipe. Each has its own \<open>bufio.Scanner\<close>; which of them a read of
  the pipe serves is up to the scheduler, so the history of the pipe is a list of reads.
\<close>

section \<open>The scanner\<close>

abbreviation newline :: char where
  "newline \<equiv> CHR 0x0A"

text \<open>\<open>bufio.MaxScanTokenSize\<close>: the scanner gives up when its buffer of this size is full and holds no newline.\<close>

definition max_token :: nat where
  "max_token = 65536"

text \<open>\<open>bufio.ScanLines\<close> drops one carriage return at the end of a line.\<close>

definition drop_cr :: "bytes \<Rightarrow> bytes" where
  "drop_cr l = (if l \<noteq> [] \<and> last l = CHR 0x0D then butlast l else l)"

text \<open>The complete lines, and what is left in the buffer (\<open>None\<close> when the scanner gave up). The first
  argument is what the buffer holds of the current line.\<close>

fun split_lines :: "bytes \<Rightarrow> bytes \<Rightarrow> bytes list \<times> bytes option" where
  "split_lines acc [] = ([], Some acc)"
| "split_lines acc (c # d) =
     (if c = newline then (case split_lines [] d of (ls, r) \<Rightarrow> (drop_cr acc # ls, r))
      else if max_token \<le> Suc (length acc) then ([], None)
      else split_lines (acc @ [c]) d)"

text \<open>\<open>fin\<close> says how the reads ended so far: a last line without newline is delivered when they are over.\<close>

definition scan_stdout :: "scan_end \<Rightarrow> bytes \<Rightarrow> stdout_scan" where
  "scan_stdout fin d =
     (case split_lines [] d of
        (ls, None) \<Rightarrow> \<lparr>so_lines = ls, so_end = ScanError\<rparr>
      | (ls, Some r) \<Rightarrow>
          if fin = Open then \<lparr>so_lines = ls, so_end = Open\<rparr>
          else \<lparr>so_lines = ls @ (if r = [] then [] else [drop_cr r]), so_end = fin\<rparr>)"

section \<open>The readers\<close>

text \<open>\<open>TaskReader n\<close>: the reader of the \<open>n\<close>-th call of \<open>ExecuteTask\<close> on this process.\<close>

datatype reader = LogReader | TaskReader nat

type_synonym reads = "(reader \<times> bytes) list"

definition reader_bytes :: "reader \<Rightarrow> reads \<Rightarrow> bytes" where
  "reader_bytes rd reads = concat (map snd (filter (\<lambda>r. fst r = rd) reads))"

definition stdout_of :: "reader \<Rightarrow> scan_end \<Rightarrow> reads \<Rightarrow> stdout_scan" where
  "stdout_of rd fin reads = scan_stdout fin (reader_bytes rd reads)"

text \<open>\<open>json.Unmarshal\<close> into a map of the line.\<close>

definition is_json_map :: "bytes \<Rightarrow> bool" where
  "is_json_map line =
     (case json_parse line of
        Some JNull \<Rightarrow> True
      | Some (JObj ms) \<Rightarrow> unmarshal_value (JObj ms) \<noteq> None
      | _ \<Rightarrow> False)"

text \<open>The lines that \<open>handleStdout\<close> logs; the others it drops.\<close>

definition handleStdout :: "scan_end \<Rightarrow> reads \<Rightarrow> bytes list" where
  "handleStdout fin reads = filter (\<lambda>l. \<not> is_json_map l) (so_lines (stdout_of LogReader fin reads))"

text \<open>\<open>handleStderr\<close> is the only reader of its pipe, and logs every line.\<close>

definition handleStderr :: "scan_end \<Rightarrow> bytes \<Rightarrow> bytes list" where
  "handleStderr fin d = so_lines (scan_stdout fin d)"

section \<open>What the scanner makes of whole lines\<close>

definition unlines :: "bytes list \<Rightarrow> bytes" where
  "unlines ls = concat (map (\<lambda>l. l @ [newline]) ls)"

lemma unlines_simps [simp]: "unlines [] = []" "unlines (l # ls) = l @ newline # unlines ls"
  by (simp_all add: unlines_def)

definition short_line :: "bytes \<Rightarrow> bool" where
  "short_line l \<longleftrightarrow> newline \<notin> set l \<and> length l < max_token"

lemma split_short:
  "newline \<notin> set l \<Longrightarrow> length acc + length l < max_token \<Longrightarrow>
     split_lines acc (l @ newline # d) = (case split_lines [] d of (ls, r) \<Rightarrow> (drop_cr (acc @ l) # ls, r))"
proof (induction l arbitrary: acc)
  case (Cons c l)
  then have "split_lines acc ((c # l) @ newline # d) = split_lines (acc @ [c]) (l @ newline # d)" by auto
  with Cons.IH [of "acc @ [c]"] Cons.prems show ?case by simp
qed simp

lemma split_unlines:
  "\<forall>l \<in> set ls. short_line l \<Longrightarrow>
     split_lines [] (unlines ls @ d) = (case split_lines [] d of (ks, r) \<Rightarrow> (map drop_cr ls @ ks, r))"
  by (induction ls) (auto simp: short_line_def split_short split: prod.split)

lemma split_long:
  "newline \<notin> set l \<Longrightarrow> length acc < max_token \<Longrightarrow> max_token \<le> length acc + length l \<Longrightarrow>
     split_lines acc (l @ d) = ([], None)"
proof (induction l arbitrary: acc)
  case (Cons c l)
  show ?case
  proof (cases "max_token \<le> Suc (length acc)")
    case False
    with Cons.IH [of "acc @ [c]"] Cons.prems show ?thesis by auto
  qed (use Cons.prems in auto)
qed simp

lemma scan_prefix:
  assumes "\<forall>l \<in> set ls. short_line l"
  shows "so_lines (scan_stdout fin (unlines ls @ d)) = map drop_cr ls @ so_lines (scan_stdout fin d)"
  using assms by (auto simp: scan_stdout_def split_unlines split: prod.split option.split)

lemma scan_long:
  assumes "\<forall>l \<in> set ls. short_line l" "newline \<notin> set d" "max_token \<le> length d"
  shows "scan_stdout fin (unlines ls @ d @ rest) = \<lparr>so_lines = map drop_cr ls, so_end = ScanError\<rparr>"
  using assms split_long [of d "[]" rest] by (simp add: scan_stdout_def split_unlines max_token_def)

section \<open>Printed JSON has no control characters\<close>

definition graphic :: "bytes \<Rightarrow> bool" where
  "graphic s \<longleftrightarrow> (\<forall>c \<in> set s. (32 :: nat) \<le> of_char c)"

lemma graphic_simps [simp]:
  "graphic []" "graphic (c # s) \<longleftrightarrow> (32 :: nat) \<le> of_char c \<and> graphic s" "graphic (s @ t) \<longleftrightarrow> graphic s \<and> graphic t"
  by (auto simp: graphic_def)

lemma graphic_line: "graphic s \<Longrightarrow> newline \<notin> set s \<and> drop_cr s = s"
proof -
  assume s: "graphic s"
  have "last s \<noteq> CHR 0x0D" if "s \<noteq> []"
  proof
    assume "last s = CHR 0x0D"
    with last_in_set [OF that] s have "(32 :: nat) \<le> of_char (CHR 0x0D)" unfolding graphic_def by metis
    then show False by simp
  qed
  with s show ?thesis by (auto simp: graphic_def drop_cr_def)
qed

fun in_string :: "lex_state \<Rightarrow> bool" where
  "in_string (LStr _) = True"
| "in_string (LEsc _) = True"
| "in_string (LHex _ _) = True"
| "in_string _ = False"

lemma digit_graphic: "digit c \<Longrightarrow> (32 :: nat) \<le> of_char c"
  by (auto simp: digit_def)

lemma hex_digit_graphic: "hex_digit c \<Longrightarrow> (32 :: nat) \<le> of_char c"
  by (auto simp: hex_digit_def digit_def)

lemma string_step:
  assumes "lex_step st c = Some (st', [])" "in_string st"
  shows "(32 :: nat) \<le> of_char c \<and> in_string st'"
proof (cases st)
  case (LHex n acc)
  with assms hex_digit_graphic show ?thesis by (auto split: if_splits)
qed (use assms in \<open>auto split: if_splits\<close>)

lemma valid_raw_graphic: "valid_raw st s \<Longrightarrow> in_string st \<Longrightarrow> graphic s"
proof (induction st s rule: valid_raw.induct)
  case (2 st c cs)
  from 2(2) obtain st' where st': "lex_step st c = Some (st', [])" "st' \<noteq> LStart" "valid_raw st' cs"
    by (auto split: option.splits prod.splits list.splits)
  with string_step [OF st'(1) 2(3)] 2(1) show ?case by auto
qed simp

lemma num_step_chars: "num_step st c = Some st' \<Longrightarrow> digit c \<or> c \<in> {CHR ''.'', CHR ''e'', CHR ''E'', CHR ''+'', CHR ''-''}"
  by (cases st) (auto simp: after_int_def digit_def [of "CHR ''0''"] split: if_splits)

lemma num_step_graphic: "num_step st c = Some st' \<Longrightarrow> (32 :: nat) \<le> of_char c"
  by (drule num_step_chars) (auto dest: digit_graphic)

lemma num_run_graphic: "num_run st s \<Longrightarrow> graphic s"
  by (induction st s rule: num_run.induct) (auto dest: num_step_graphic split: option.splits)

lemma valid_number_graphic: "valid_number s \<Longrightarrow> graphic s"
  by (cases s) (auto simp: digit_def dest: num_run_graphic split: if_splits)

lemma commas_graphic: "(\<forall>s \<in> set ss. graphic s) \<Longrightarrow> graphic (commas ss)"
  by (induction ss rule: commas.induct) simp_all

lemma json_print_graphic: "wf_json j \<Longrightarrow> graphic (json_print j)"
proof (induction j)
  case (JArr vs)
  then have "graphic (commas (map json_print vs))" by (intro commas_graphic) auto
  then show ?case by simp
next
  case (JObj ms)
  then have "graphic (commas (map (\<lambda>(k, v). quoted k @ '':'' @ json_print v) ms))"
    by (intro commas_graphic) (auto simp: quoted_def dest!: valid_raw_graphic)
  then show ?case by simp
qed (auto simp: valid_number_graphic quoted_def dest: valid_raw_graphic)

end
