(* ===== verification/JsonClaims.thy ===== *)
theory JsonClaims
  imports JsonTypes TaskChannel PoolClaims StdoutReaders
begin

text \<open>
  The JSON protocol as an implementation of the contracts \<open>codec\<close> and \<open>result_protocol\<close>, its properties and
  their witnesses.
\<close>

section \<open>The contracts\<close>

text \<open>How every reader of the package sees a message: the type alone, the base, and the whole struct.\<close>

definition reads_as :: "stamp \<Rightarrow> string \<Rightarrow> 's field list \<Rightarrow> 's \<Rightarrow> bytes \<Rightarrow> 's \<Rightarrow> bool" where
  "reads_as st t fs zero d m \<longleftrightarrow> decode_type d = Some t \<and>
     Unmarshal base_fields zero_base d = Some (NewBaseMessage st t) \<and> Unmarshal fs zero d = Some m"

lemma written_struct:
  assumes "stamp_ok st" "utf8_valid t" "wf_members ms" "own_members ms"
    "unmarshal_members fs zero (base_members (NewBaseMessage st t) @ ms) = Some m"
  shows "reads_as st t fs zero (print_members (base_members (NewBaseMessage st t) @ ms)) m"
proof -
  have "clock_ok st" using assms(1) by (simp add: stamp_ok_def)
  then have "Unmarshal fs zero (print_members (base_members (NewBaseMessage st t) @ ms)) = Some m"
    using assms(3,5) by (simp add: Unmarshal_members)
  with decode_type_base [OF assms(3) \<open>clock_ok st\<close> assms(2,4)] base_of_members [OF assms(3,1,2,4)]
  show ?thesis unfolding reads_as_def by blast
qed

lemma encode_result:
  assumes "stamp_ok st" "result_ok p"
  shows "\<exists>d. EncodeResult st p = Inr d \<and> reads_as st InternalResultMessage result_fields zero_result d (NewResultMessage st p)"
proof -
  obtain ms where ms: "result_members (NewResultMessage st p) = Some (base_members (NewBaseMessage st InternalResultMessage) @ ms)"
    "wf_members ms" "own_members ms" "unmarshal_members result_fields zero_result
      (base_members (NewBaseMessage st InternalResultMessage) @ ms) = Some (NewResultMessage st p)"
    using read_result [OF assms] by blast
  from written_struct [OF assms(1) _ ms(2-4)] ms(1) show ?thesis
    by (simp add: EncodeResult_def print_or_error_def)
qed

lemma encode_task:
  assumes "stamp_ok st" "task_ok p"
  shows "\<exists>d. EncodeTask st p = Inr d \<and> reads_as st InternalTaskMessage task_fields zero_task d (NewTaskMessage st p)"
proof -
  obtain ms where ms: "task_members (NewTaskMessage st p) = Some (base_members (NewBaseMessage st InternalTaskMessage) @ ms)"
    "wf_members ms" "own_members ms" "unmarshal_members task_fields zero_task
      (base_members (NewBaseMessage st InternalTaskMessage) @ ms) = Some (NewTaskMessage st p)"
    using read_task [OF assms] by blast
  from written_struct [OF assms(1) _ ms(2-4)] ms(1) show ?thesis
    by (simp add: EncodeTask_def print_or_error_def)
qed


text \<open>The task that \<open>ParseMessage\<close> finds.\<close>

definition parse_task :: "bytes \<Rightarrow> protocol_error + TaskPayload" where
  "parse_task d = (case ParseMessage d of Inr (PTask m) \<Rightarrow> Inr (task_ToPayload m) | Inr _ \<Rightarrow> Inl UnmarshalFailed
     | Inl e \<Rightarrow> Inl e)"

lemma ToPayload_New [simp]: "task_ToPayload (NewTaskMessage st p) = p" "result_ToPayload (NewResultMessage st r) = r"
  by (simp_all add: message_defs)

lemma internal_distinct [simp]:
  "distinct [InternalTaskMessage, InternalResultMessage, InternalPingMessage, InternalPongMessage, InternalStopMessage]"
  by (simp add: internal_messages)

lemma ParseMessage_task:
  assumes "stamp_ok st" "task_ok p" "EncodeTask st p = Inr d"
  shows "ParseMessage d = Inr (PTask (NewTaskMessage st p))"
  using encode_task [OF assms(1,2)] assms(3)
  by (auto simp: reads_as_def ParseMessage_def NewBaseMessage_def or_error_def)

interpretation tasks: codec EncodeTask parse_task stamp_ok task_ok "\<lambda>p. p"
  by unfold_locales (use encode_task ParseMessage_task in \<open>fastforce simp: parse_task_def\<close>)

interpretation results: codec EncodeResult DecodeResult stamp_ok result_ok "\<lambda>r. r"
  by unfold_locales (use encode_result in \<open>fastforce simp: DecodeResult_def reads_as_def\<close>)

interpretation celery: codec "\<lambda>_ :: unit. celery_text" DecodeTask "\<lambda>_. True" celery_ok nil_to_empty
  by unfold_locales (use celery_text_lemma in blast)

interpretation child: result_protocol JSONProtocol stamp_ok result_ok
  by unfold_locales (simp add: JSONProtocol_def results.decode_encode)

section \<open>Payloads for the witnesses\<close>

definition a_stamp :: stamp where
  "a_stamp = \<lparr>st_uuid = ''u'', st_now = ''2024-01-02T03:04:05Z''\<rparr>"

definition a_task :: TaskPayload where
  "a_task = \<lparr>tp_TaskName = ''add'', tp_TaskID = ''1'', tp_Args = Some [GStr ''x'', GNil], tp_Kwargs = Some [],
     tp_Retries = 3, tp_Queue = ''q''\<rparr>"

definition a_result :: ResultPayload where
  "a_result = \<lparr>rp_TaskID = ''1'', rp_Status = ''success'', rp_Result = GStr ''y'', rp_Error = [],
     rp_Traceback = [], rp_Runtime = f64_zero, rp_MemoryUsed = 7\<rparr>"

lemma a_stamp_ok: "stamp_ok a_stamp"
proof -
  have "rfc3339_ok ''2024-01-02T03:04:05Z''" by code_simp
  then show ?thesis by (simp add: stamp_ok_def clock_ok_def a_stamp_def utf8_len_def digit_def)
qed

lemma a_task_oks: "task_ok a_task" "celery_ok a_task" "values_ok a_task" "nil_to_empty a_task = a_task"
  by (simp_all add: task_ok_def celery_ok_def values_ok_def a_task_def utf8_len_def int64_range_def max_nesting_def
      nil_to_empty_def)

lemma a_result_ok: "result_ok a_result" "rp_TaskID a_result = tp_TaskID a_task"
  by (simp_all add: result_ok_def a_result_def a_task_def utf8_len_def int64_range_def max_nesting_def f64_finite_def)

section \<open>Tasks\<close>

text \<open>C17: Whatever bytes come from the broker: a task that \<open>DecodeTask\<close> accepts is well formed. Its
  strings are UTF-8, its arguments hold no integers but finite float64 values, their maps are sorted by key, their
  nesting is below the limit of the parser, and its retries fit into 64 bits.\<close>

theorem decoded_task_well_formed:
  assumes "DecodeTask data = Inr p"
  shows "task_ok p"
  using assms by (rule decoded_task)

theorem decoded_task_well_formed_witness: "\<exists>d. DecodeTask d = Inr a_task \<and> task_ok a_task"
proof -
  obtain d where "DecodeTask d = Inr a_task" using celery_text_lemma [OF a_task_oks(2)] a_task_oks(4) by auto
  with decoded_task_well_formed [OF this] show ?thesis by blast
qed

text \<open>C3: A task that was decoded from a broker's message always encodes for the Python process, and a reader of
  the internal messages gets exactly this task: name, id, arguments, keyword arguments, retries and queue.\<close>

theorem decoded_task_reaches_child:
  assumes "DecodeTask data = Inr p" "stamp_ok st"
  shows "\<exists>e. EncodeTask st p = Inr e \<and> ParseMessage e = Inr (PTask (NewTaskMessage st p)) \<and>
    task_ToPayload (NewTaskMessage st p) = p"
  using decoded_task [OF assms(1)] encode_task [OF assms(2)] ParseMessage_task [OF assms(2)] by fastforce

theorem decoded_task_reaches_child_witness:
  "\<exists>d e. DecodeTask d = Inr a_task \<and> EncodeTask a_stamp a_task = Inr e \<and>
     ParseMessage e = Inr (PTask (NewTaskMessage a_stamp a_task))"
proof -
  obtain d where "DecodeTask d = Inr a_task" using celery_text_lemma [OF a_task_oks(2)] a_task_oks(4) by auto
  with decoded_task_reaches_child [OF this a_stamp_ok] show ?thesis by blast
qed

text \<open>C13: A payload survives the way through a Celery message and its JSON text to \<open>DecodeTask\<close>, when its
  strings are UTF-8, its arguments are JSON values and its retries are at most 2 to the 53 (they pass through a
  float64); a nil slice or map comes back empty.\<close>

theorem celery_text_roundtrip:
  assumes "celery_ok p"
  shows "\<exists>d. celery_text p = Inr d \<and> DecodeTask d = Inr (nil_to_empty p)"
  using celery.decode_encode assms by simp

theorem celery_text_roundtrip_witness: "\<exists>d. celery_text a_task = Inr d \<and> DecodeTask d = Inr a_task"
  using celery_text_roundtrip [OF a_task_oks(2)] a_task_oks(4) by simp

text \<open>In memory the round trip needs less: \<open>TaskPayloadFromCeleryMessage\<close> undoes
  \<open>CeleryMessageFromTaskPayload\<close> for every payload with JSON arguments, whatever its strings and retries.\<close>

theorem celery_roundtrip:
  assumes "values_ok p"
  shows "\<exists>m. CeleryMessageFromTaskPayload p = Inr m \<and> TaskPayloadFromCeleryMessage m = Inr (nil_to_empty p)"
  using assms by (rule celery_roundtrip_lemma)

theorem celery_roundtrip_witness:
  "\<exists>m. CeleryMessageFromTaskPayload a_task = Inr m \<and> TaskPayloadFromCeleryMessage m = Inr a_task"
  using celery_roundtrip [OF a_task_oks(3)] a_task_oks(4) by simp

lemma marshal_slice_json: "marshal_slice a = Some j \<Longrightarrow> wf_json j \<and>
    (depth j = 0 \<or> (\<exists>vs. a = Some vs \<and> depth j = value_depth (GArr vs)))"
  using marshal_json by (auto simp: marshal_slice_def simp del: marshal_value.simps split: option.splits)

lemma marshal_map_json: "marshal_map a = Some j \<Longrightarrow> wf_json j \<and>
    (depth j = 0 \<or> (\<exists>m. a = Some m \<and> depth j = value_depth (GMap m)))"
  using marshal_json by (auto simp: marshal_map_def simp del: marshal_value.simps split: option.splits)

lemma find_field_None: "find_field fs k = None \<longleftrightarrow> fold_name k \<notin> fold_name ` fst ` set fs"
proof -
  have "map_of (map (\<lambda>(n, f). (fold_name n, f)) fs) (fold_name k) = None \<longleftrightarrow> fold_name k \<notin> fold_name ` fst ` set fs"
    by (force simp: map_of_eq_None_iff)
  moreover have "map_of fs k \<noteq> None \<Longrightarrow> fold_name k \<in> fold_name ` fst ` set fs"
    by (auto simp: map_of_eq_None_iff)
  ultimately show ?thesis by (auto simp: find_field_def split: option.splits)
qed

lemma celery_names: "fold_name ` fst ` set celery_fields =
    {''BODY'', ''CONTENT-ENCODING'', ''CONTENT-TYPE'', ''HEADERS'', ''PROPERTIES''}"
  by (simp add: celery_fields_def)

text \<open>C22: \<open>DecodeTask\<close> does not accept what \<open>EncodeTask\<close> writes: every JSON object parses as a Celery
  message, so that the branch for internal messages is not taken and the task name is missed in the headers.\<close>

theorem own_task_rejected:
  assumes "clock_ok st" "EncodeTask st p = Inr d"
    "\<forall>vs. tp_Args p = Some vs \<longrightarrow> value_depth (GArr vs) < max_nesting"
    "\<forall>m. tp_Kwargs p = Some m \<longrightarrow> value_depth (GMap m) < max_nesting"
  shows "DecodeTask d = Inl TaskNameMissing"
proof -
  obtain a k where ak: "marshal_slice (tp_Args p) = Some a" "marshal_map (tp_Kwargs p) = Some k"
    using assms(2) by (auto simp: EncodeTask_def task_members_def NewTaskMessage_def print_or_error_def
        split: option.splits)
  define ms where "ms = base_members (NewBaseMessage st InternalTaskMessage) @
    [str_member ''task_name'' (tp_TaskName p), str_member ''task_id'' (tp_TaskID p),
     (''args'', a), (''kwargs'', k), (''retries'', JNum (int_text (tp_Retries p))), str_member ''queue'' (tp_Queue p)]"
  have d: "d = print_members ms"
    using assms(2) ak by (simp add: EncodeTask_def task_members_def NewTaskMessage_def print_or_error_def ms_def)
  have "depth a < max_nesting" "depth k < max_nesting"
    using marshal_slice_json [OF ak(1)] marshal_map_json [OF ak(2)] assms(3,4) by (auto simp: max_nesting_def)
  then have "wf_members ms"
    using marshal_slice_json [OF ak(1)] marshal_map_json [OF ak(2)] assms(1)
    by (simp add: ms_def struct_keys_def str_member_def valid_raw_quote max_nesting_def valid_number_int_text)
  moreover have "unmarshal_members celery_fields zero_celery ms = Some zero_celery"
    by (rule unmarshal_skip)
      (simp add: ms_def base_members_def str_member_def NewBaseMessage_def find_field_None celery_names)
  ultimately show ?thesis
    by (simp add: d DecodeTask_def ParseCeleryMessage_def or_error_def Unmarshal_members
        TaskPayloadFromCeleryMessage_def lookup_def zero_celery_def)
qed

theorem own_task_rejected_witness:
  "\<exists>d. EncodeTask a_stamp a_task = Inr d \<and> DecodeTask d = Inl TaskNameMissing"
proof -
  obtain d where d: "EncodeTask a_stamp a_task = Inr d" using encode_task [OF a_stamp_ok a_task_oks(1)] by blast
  have "clock_ok a_stamp" using a_stamp_ok by (simp add: stamp_ok_def)
  from own_task_rejected [OF this d] d show ?thesis by (simp add: a_task_def max_nesting_def)
qed

section \<open>Results and control messages\<close>

text \<open>C21: \<open>DecodeResult\<close> undoes \<open>EncodeResult\<close> for every payload with UTF-8 strings, a JSON value as the
  result, a finite runtime and a 64-bit memory size; the members that are omitted when empty included.\<close>

theorem result_roundtrip:
  assumes "stamp_ok st" "result_ok r"
  shows "\<exists>d. EncodeResult st r = Inr d \<and> DecodeResult d = Inr r"
  using assms by (rule results.decode_encode)

theorem result_roundtrip_witness: "\<exists>d. EncodeResult a_stamp a_result = Inr d \<and> DecodeResult d = Inr a_result"
  using result_roundtrip [OF a_stamp_ok a_result_ok(1)] .





text \<open>A float that is not finite, anywhere in a value.\<close>

fun has_nonfinite :: "gval \<Rightarrow> bool" where
  "has_nonfinite (GFloat v) = (\<not> f64_finite v)"
| "has_nonfinite (GArr vs) = (\<exists>v \<in> set vs. has_nonfinite v)"
| "has_nonfinite (GMap m) = (\<exists>p \<in> set m. has_nonfinite (snd p))"
| "has_nonfinite _ = False"

lemma marshal_None: "marshal_value v = None \<longleftrightarrow> has_nonfinite v"
proof (induction v)
  case (GArr vs)
  then have "None \<in> marshal_value ` set vs \<longleftrightarrow> (\<exists>v \<in> set vs. has_nonfinite v)"
    by (auto simp: image_iff eq_commute [of None])
  then show ?case by (simp add: all_some_None)
next
  case (GMap m)
  have "marshal_value (snd p) = None \<longleftrightarrow> has_nonfinite (snd p)" if "p \<in> set m" for p
    using GMap.IH [OF that snd_in_snds] .
  then have "None \<in> (\<lambda>p. tagged (quote (fst p)) (marshal_value (snd p))) ` set m \<longleftrightarrow> (\<exists>p \<in> set m. has_nonfinite (snd p))"
    by (auto simp: image_iff eq_commute [of None])
  then show ?case by (simp add: all_some_None)
qed (auto simp: all_some_None image_iff format_float_finite)

text \<open>Encoding fails for one reason only: a NaN or an infinity in the arguments of a task, or in the result or the
  runtime of a result. Everything else is encoded, invalid UTF-8 and integers of any size included.\<close>

theorem encode_errors:
  "(EncodeTask st p = Inl MarshalFailed \<longleftrightarrow>
      (\<exists>vs. tp_Args p = Some vs \<and> has_nonfinite (GArr vs)) \<or> (\<exists>m. tp_Kwargs p = Some m \<and> has_nonfinite (GMap m))) \<and>
   (isl (EncodeTask st p) \<longleftrightarrow> EncodeTask st p = Inl MarshalFailed) \<and>
   (EncodeResult st r = Inl MarshalFailed \<longleftrightarrow> has_nonfinite (rp_Result r) \<or> has_nonfinite (GFloat (rp_Runtime r))) \<and>
   (isl (EncodeResult st r) \<longleftrightarrow> EncodeResult st r = Inl MarshalFailed)"
proof -
  have args: "marshal_slice a = None \<longleftrightarrow> (\<exists>vs. a = Some vs \<and> has_nonfinite (GArr vs))" for a
    unfolding marshal_None [symmetric] by (simp add: marshal_slice_def split: option.split)
  have kwargs: "marshal_map a = None \<longleftrightarrow> (\<exists>m. a = Some m \<and> has_nonfinite (GMap m))" for a
    unfolding marshal_None [symmetric] by (simp add: marshal_map_def split: option.split)
  have "EncodeTask st p = Inl MarshalFailed \<longleftrightarrow> marshal_slice (tp_Args p) = None \<or> marshal_map (tp_Kwargs p) = None"
    by (auto simp: EncodeTask_def task_members_def NewTaskMessage_def print_or_error_def split: option.splits)
  moreover have "EncodeResult st r = Inl MarshalFailed \<longleftrightarrow> marshal_value (rp_Result r) = None \<or> format_float (rp_Runtime r) = None"
    by (auto simp: EncodeResult_def result_members_def NewResultMessage_def print_or_error_def split: option.splits)
  moreover have "isl (EncodeTask st p) \<longleftrightarrow> EncodeTask st p = Inl MarshalFailed"
    "isl (EncodeResult st r) \<longleftrightarrow> EncodeResult st r = Inl MarshalFailed"
    by (auto simp: EncodeTask_def EncodeResult_def print_or_error_def split: option.splits)
  ultimately show ?thesis unfolding args kwargs marshal_None format_float_finite has_nonfinite.simps(1) by blast
qed

section \<open>The channel to the Python process\<close>

lemma timestamp_field:
  "fold_name k = ''TIMESTAMP'' \<Longrightarrow>
     find_field result_fields k = Some (\<lambda>m j. map_option (\<lambda>b. m\<lparr>rm_Base := b\<rparr>)
       (set_time (\<lambda>v. (rm_Base m)\<lparr>bm_Timestamp := v\<rparr>) (rm_Base m) j))"
proof -
  assume fold: "fold_name k = ''TIMESTAMP''"
  then have "k \<notin> {''type'', ''id'', ''task_id'', ''status'', ''result'', ''error'', ''traceback'', ''runtime_seconds'', ''memory_used''}"
    by auto
  then show ?thesis
    using fold by (cases "k = ''timestamp''") (simp_all add: find_field_def result_fields_def base_fields_def)
qed

fun is_number :: "json \<Rightarrow> bool" where
  "is_number (JNum _) = True"
| "is_number _ = False"

lemma is_number_iff: "is_number j \<longleftrightarrow> (\<exists>s. j = JNum s)"
  by (cases j) simp_all

text \<open>A line as \<open>create_message\<close> of the Python script (\<open>src/scripts/python/worker_process.py\<close>) writes
  it: an object in which the timestamp is a number, the seconds of \<open>time.time()\<close>.\<close>

definition numeric_timestamp :: "bytes \<Rightarrow> bool" where
  "numeric_timestamp line \<longleftrightarrow>
     (case json_parse line of
        Some (JObj ms) \<Rightarrow> list_ex (\<lambda>(k, j). fold_name (unquote k) = ''TIMESTAMP'' \<and> is_number j) ms
      | _ \<Rightarrow> False)"

lemma numeric_timestamp_rejected: "numeric_timestamp line \<Longrightarrow> isl (DecodeResult line)"
proof -
  assume "numeric_timestamp line"
  then obtain ms k s where l: "json_parse line = Some (JObj ms)" "(k, JNum s) \<in> set ms" "fold_name (unquote k) = ''TIMESTAMP''"
    by (auto simp: numeric_timestamp_def list_ex_iff is_number_iff split: option.splits json.splits)
  have "unmarshal_members result_fields zero_result ms = None"
    by (rule unmarshal_reject [OF l(2) timestamp_field [OF l(3)]]) (simp add: set_time_def)
  then show ?thesis using l(1) by (simp add: DecodeResult_def Unmarshal_def split: option.split)
qed

text \<open>C7: No result of the Python script is ever heard. The script stamps its messages with a number, while the
  field of the result message is a \<open>time.Time\<close>, which only decodes from an RFC 3339 string: on such output
  \<open>ExecuteTask\<close> ends with an error for every task, and a process that got the task is in state error.\<close>

theorem python_results_unheard:
  assumes "p_protocol q = JSONProtocol" "\<forall>line \<in> set (so_lines (ex_out ex)). numeric_timestamp line"
  shows "isl (fst (ExecuteTask ex task q)) \<and>
    ((\<exists>t. EncodeTask (ex_stamp ex) task = Inr t) \<and> ex_write_ok ex \<longrightarrow>
      p_state (snd (ExecuteTask ex task q)) = ProcessStateError)"
  using task_unheard [of ex q task] assms numeric_timestamp_rejected by (simp add: JSONProtocol_def)

definition a_process :: process where
  "a_process = demo_process\<lparr>p_protocol := JSONProtocol\<rparr>"

definition an_exec :: "bytes list \<Rightarrow> exec_env" where
  "an_exec ls = \<lparr>ex_stamp = a_stamp, ex_start = 0, ex_end = 5, ex_write_ok = True,
     ex_out = \<lparr>so_lines = ls, so_end = Open\<rparr>, ex_wait = GotResult\<rparr>"

text \<open>What the script prints for a task that succeeded, shortened.\<close>

definition python_line :: bytes where
  "python_line = CHR ''{'' # quoted ''type'' @ '':'' @ quoted ''result'' @ '','' @ quoted ''timestamp'' @ '':1.5,'' @
     quoted ''task_id'' @ '':'' @ quoted ''1'' @ ''}''"

lemma python_line_numeric: "numeric_timestamp python_line"
  by code_simp

theorem python_results_unheard_witness:
  "isl (fst (ExecuteTask (an_exec [python_line]) a_task a_process)) \<and>
   p_state (snd (ExecuteTask (an_exec [python_line]) a_task a_process)) = ProcessStateError"
proof -
  have "\<exists>t. EncodeTask a_stamp a_task = Inr t" using encode_task [OF a_stamp_ok a_task_oks(1)] by blast
  with python_line_numeric show ?thesis
    using python_results_unheard [of a_process "an_exec [python_line]" a_task] by (simp add: a_process_def an_exec_def)
qed

section \<open>Two readers of one pipe\<close>





lemma mark_send_error:
  assumes "EncodeTask (ex_stamp ex) task = Inr t" "ex_write_ok ex" "p_protocol q = JSONProtocol"
    "scan_result JSONProtocol (tp_TaskID task) (so_lines (ex_out ex)) = None"
  shows "isl (fst (ExecuteTask ex task q)) \<and> p_state (snd (ExecuteTask ex task q)) = ProcessStateError"
proof -
  have pr: "p_protocol (mark_busy (ex_start ex) task q) = JSONProtocol" "p_protocol (write_stdin t q') = p_protocol q'" for q'
    using assms(3) by (simp_all add: mark_busy_def setState_def Let_def write_stdin_def)
  have "pr_EncodeTask (p_protocol q) (ex_stamp ex) task = Inr t" using assms(1,3) by (simp add: JSONProtocol_def)
  with assms(2-4) show ?thesis
    by (auto simp: execute_defs Let_def pr mark_error_def setState_def split: wait.split scan_end.split)
qed

text \<open>Lines that are no results of the task.\<close>

definition noise_for :: "TaskPayload \<Rightarrow> bytes list \<Rightarrow> bool" where
  "noise_for task ls \<longleftrightarrow> (\<forall>l \<in> set ls. short_line l \<and>
     (\<forall>r. DecodeResult (drop_cr l) = Inr r \<longrightarrow> rp_TaskID r \<noteq> tp_TaskID task))"

lemma scan_noise:
  assumes "noise_for task ls"
  shows "scan_result JSONProtocol (tp_TaskID task) (map drop_cr ls @ ks) = scan_result JSONProtocol (tp_TaskID task) ks"
  using assms by (intro child.scan_skips) (auto simp: noise_for_def JSONProtocol_def)



definition race_exec :: "reads \<Rightarrow> exec_env" where
  "race_exec reads = (an_exec [])\<lparr>ex_out := stdout_of (TaskReader 0) Open reads\<rparr>"


text \<open>C24: A line of 64 KiB or more is never delivered: the scanner gives up, so that a task with such an answer ends with
  an error, however the select goes, and the process is in state error.\<close>

theorem long_answer_unheard:
  assumes "p_protocol q = JSONProtocol" "EncodeTask (ex_stamp ex) task = Inr t" "ex_write_ok ex"
    "ex_out ex = stdout_of (TaskReader n) fin reads"
    "reader_bytes (TaskReader n) reads = unlines noise @ d @ rest" "noise_for task noise"
    "newline \<notin> set d" "max_token \<le> length d"
  shows "isl (fst (ExecuteTask ex task q)) \<and> p_state (snd (ExecuteTask ex task q)) = ProcessStateError"
proof -
  have "\<forall>l \<in> set noise. short_line l" using assms(6) by (simp add: noise_for_def)
  from scan_long [OF this assms(7,8)] have "so_lines (ex_out ex) = map drop_cr noise"
    by (simp add: assms(4,5) stdout_of_def)
  with scan_noise [OF assms(6), of "[]"] mark_send_error [OF assms(2,3,1)] show ?thesis by simp
qed

theorem long_answer_unheard_witness:
  "let ex = race_exec [(TaskReader 0, unlines [python_line] @ replicate max_token CHR ''x'' @ [newline])] in
   p_state (snd (ExecuteTask ex a_task a_process)) = ProcessStateError"
proof -
  obtain t where t: "EncodeTask a_stamp a_task = Inr t" using encode_task [OF a_stamp_ok a_task_oks(1)] by blast
  have "isl (DecodeResult python_line)" by (rule numeric_timestamp_rejected [OF python_line_numeric])
  moreover have "short_line python_line \<and> drop_cr python_line = python_line"
    by (simp add: short_line_def max_token_def python_line_def drop_cr_def quoted_def)
  ultimately have n: "noise_for a_task [python_line]" by (auto simp: noise_for_def)
  let ?reads = "[(TaskReader 0, unlines [python_line] @ replicate max_token CHR ''x'' @ [newline])]"
  have "p_state (snd (ExecuteTask (race_exec ?reads) a_task a_process)) = ProcessStateError"
    by (rule long_answer_unheard [OF _ _ _ _ _ n, of a_process "race_exec ?reads" t 0 Open ?reads
        "replicate max_token CHR ''x''" "[newline]", THEN conjunct2])
      (simp_all add: a_process_def race_exec_def an_exec_def t reader_bytes_def)
  then show ?thesis by (simp add: Let_def)
qed

end
