(* ===== verification/GoFlags.thy ===== *)
theory GoFlags
  imports Float64
begin

text \<open>
  What the command line of the worker uses of Go's standard library: \<open>strconv.ParseInt\<close> with base 0,
  \<open>strconv.ParseBool\<close>, \<open>time.ParseDuration\<close>, the parser of package \<open>flag\<close>, and
  \<open>filepath.Abs\<close>. A parse that fails is \<open>None\<close>, as every failure of a flag's value ends the program the
  same way.
\<close>

section \<open>Integers in any base\<close>

definition digit_of :: "char \<Rightarrow> nat option" where
  "digit_of c =
     (let b = byte c in
      if 48 \<le> b \<and> b \<le> 57 then Some (b - 48)
      else if 65 \<le> b \<and> b \<le> 90 then Some (b - 55)
      else if 97 \<le> b \<and> b \<le> 122 then Some (b - 87)
      else None)"

text \<open>The base that a prefix chooses; a leading zero alone means octal.\<close>

definition split_base :: "string \<Rightarrow> nat \<times> string" where
  "split_base s =
     (if s = [] \<or> hd s \<noteq> CHR ''0'' then (10, s)
      else if 3 \<le> length s \<and> s ! 1 \<in> {CHR ''b'', CHR ''B''} then (2, drop 2 s)
      else if 3 \<le> length s \<and> s ! 1 \<in> {CHR ''o'', CHR ''O''} then (8, drop 2 s)
      else if 3 \<le> length s \<and> s ! 1 \<in> {CHR ''x'', CHR ''X''} then (16, drop 2 s)
      else (8, tl s))"

fun digits_in :: "nat \<Rightarrow> string \<Rightarrow> nat \<Rightarrow> nat option" where
  "digits_in base [] n = Some n"
| "digits_in base (c # s) n =
     (if c = CHR ''_'' then digits_in base s n
      else case digit_of c of
             None \<Rightarrow> None
           | Some d \<Rightarrow> if base \<le> d then None else digits_in base s (n * base + d))"

text \<open>An underscore stands between two digits, or between the prefix and a digit. \<open>saw\<close> is the class of
  the character before.\<close>

datatype saw = SawStart | SawDigit | SawUnderscore | SawOther

fun underscore_run :: "bool \<Rightarrow> saw \<Rightarrow> string \<Rightarrow> bool" where
  "underscore_run hex sw [] = (sw \<noteq> SawUnderscore)"
| "underscore_run hex sw (c # s) =
     (if digit c \<or> hex \<and> (case digit_of c of None \<Rightarrow> False | Some d \<Rightarrow> d < 16)
      then underscore_run hex SawDigit s
      else if c = CHR ''_'' then sw = SawDigit \<and> underscore_run hex SawUnderscore s
      else sw \<noteq> SawUnderscore \<and> underscore_run hex SawOther s)"

definition underscore_ok :: "string \<Rightarrow> bool" where
  "underscore_ok s =
     (if 2 \<le> length s \<and> hd s = CHR ''0'' \<and>
         s ! 1 \<in> {CHR ''b'', CHR ''B'', CHR ''o'', CHR ''O'', CHR ''x'', CHR ''X''}
      then underscore_run (s ! 1 \<in> {CHR ''x'', CHR ''X''}) SawDigit (drop 2 s)
      else underscore_run False SawStart s)"

definition ParseUint :: "string \<Rightarrow> nat option" where
  "ParseUint s =
     (if s = [] then None
      else case split_base s of (base, ds) \<Rightarrow>
        (case digits_in base ds 0 of
           None \<Rightarrow> None
         | Some n \<Rightarrow> if CHR ''_'' \<in> set s \<and> \<not> underscore_ok s then None
                    else if n < 2 ^ 64 then Some n else None))"

definition sign_split :: "string \<Rightarrow> bool \<times> string" where
  "sign_split s =
     (if s \<noteq> [] \<and> hd s \<in> {CHR ''-'', CHR ''+''} then (hd s = CHR ''-'', tl s) else (False, s))"

definition ParseInt :: "string \<Rightarrow> int option" where
  "ParseInt s =
     (case sign_split s of (neg, body) \<Rightarrow>
        (case ParseUint body of
           None \<Rightarrow> None
         | Some n \<Rightarrow> let i = (if neg then - int n else int n) in if int64_range i then Some i else None))"

definition ParseBool :: "string \<Rightarrow> bool option" where
  "ParseBool s =
     (if s \<in> {''1'', ''t'', ''T'', ''true'', ''TRUE'', ''True''} then Some True
      else if s \<in> {''0'', ''f'', ''F'', ''false'', ''FALSE'', ''False''} then Some False
      else None)"

section \<open>Durations\<close>

text \<open>\<open>leadingInt\<close>: the value of the leading digits, which must not exceed \<open>2 ^ 63\<close>.\<close>

definition leading_int :: "string \<Rightarrow> (nat \<times> string) option" where
  "leading_int s =
     (let n = digits_val (takeWhile digit s) in if n \<le> 2 ^ 63 then Some (n, dropWhile digit s) else None)"

text \<open>\<open>leadingFraction\<close>: digits that would overflow are dropped; the scale is a power of ten.\<close>

fun fraction_run :: "string \<Rightarrow> nat \<Rightarrow> nat \<Rightarrow> nat \<times> nat" where
  "fraction_run [] x scale = (x, scale)"
| "fraction_run (c # s) x scale =
     (if (2 ^ 63 - 1) div 10 < x \<or> 2 ^ 63 < x * 10 + digit_val c then (x, scale)
      else fraction_run s (x * 10 + digit_val c) (scale * 10))"

definition unit_map :: "(string \<times> nat) list" where
  "unit_map =
     [(''ns'', 1), (''us'', 1000), ([CHR 0xC2, CHR 0xB5, CHR ''s''], 1000),
      ([CHR 0xCE, CHR 0xBC, CHR ''s''], 1000), (''ms'', 1000000), (''s'', 1000000000),
      (''m'', 60 * 1000000000), (''h'', 3600 * 1000000000)]"

text \<open>\<open>float64(f) * (float64(unit) / scale)\<close>, each operation rounded, truncated to an integer.\<close>

definition fraction_part :: "nat \<Rightarrow> nat \<Rightarrow> nat \<Rightarrow> nat" where
  "fraction_part f unit scale =
     (case (f64_of_ratio False f 1, f64_of_ratio False unit scale) of
        (Some (Fin _ m e), Some (Fin _ m' e')) \<Rightarrow>
          (let ex = e + e' in
           case f64_of_ratio False (m * m' * 2 ^ nat ex) (2 ^ nat (- ex)) of
             Some v \<Rightarrow> nat (f64_to_int v)
           | None \<Rightarrow> 0)
      | _ \<Rightarrow> 0)"

abbreviation unit_char :: "char \<Rightarrow> bool" where
  "unit_char c \<equiv> \<not> (c = CHR ''.'' \<or> digit c)"

text \<open>One number with its unit: the nanoseconds and the rest of the text.\<close>

definition duration_item :: "string \<Rightarrow> (nat \<times> string) option" where
  "duration_item s =
     (case leading_int s of
        None \<Rightarrow> None
      | Some (v, s1) \<Rightarrow>
          let pre = (s1 \<noteq> s);
              point = (s1 \<noteq> [] \<and> hd s1 = CHR ''.'');
              frac = (if point then takeWhile digit (tl s1) else []);
              s2 = (if point then dropWhile digit (tl s1) else s1);
              (f, scale) = fraction_run frac 0 1;
              u = takeWhile unit_char s2
          in if \<not> pre \<and> frac = [] then None
             else case map_of unit_map u of
                    None \<Rightarrow> None
                  | Some unit \<Rightarrow>
                      if 2 ^ 63 div unit < v then None
                      else let v = v * unit + (if 0 < f then fraction_part f unit scale else 0)
                           in if 2 ^ 63 < v then None else Some (v, dropWhile unit_char s2))"

lemma duration_item_shorter:
  assumes "duration_item s = Some (v, s')"
  shows "length s' < length s"
proof -
  from assms have "map_of unit_map [] = (None :: nat option)" by (simp add: unit_map_def)
  have le: "length (dropWhile P xs) \<le> length xs" for P :: "char \<Rightarrow> bool" and xs by (rule length_dropWhile_le)
  have un: "length (dropWhile P xs) < length xs" if "takeWhile P xs \<noteq> []" for P :: "char \<Rightarrow> bool" and xs
    using that by (cases xs) (auto simp: less_Suc_eq_le length_dropWhile_le split: if_splits)
  obtain w s1 where li: "leading_int s = Some (w, s1)"
    using assms by (auto simp: duration_item_def split: option.splits)
  then have s1: "length s1 \<le> length s" by (auto simp: leading_int_def Let_def le split: if_splits)
  let ?s2 = "if s1 \<noteq> [] \<and> hd s1 = CHR ''.'' then dropWhile digit (tl s1) else s1"
  have "takeWhile unit_char ?s2 \<noteq> []" and s': "s' = dropWhile unit_char ?s2"
    using assms li \<open>map_of unit_map [] = None\<close>
    by (auto simp: duration_item_def Let_def split: option.splits prod.splits if_splits)
  from un [OF this(1)] s' have "length s' < length ?s2" by simp
  also have "length ?s2 \<le> length s1" using le [of digit "tl s1"] by simp linarith
  finally show ?thesis using s1 by linarith
qed

function duration_sum :: "string \<Rightarrow> nat \<Rightarrow> nat option" where
  "duration_sum s d =
     (if s = [] then Some d
      else if \<not> (hd s = CHR ''.'' \<or> digit (hd s)) then None
      else case duration_item s of
             None \<Rightarrow> None
           | Some (v, s') \<Rightarrow> if 2 ^ 63 < d + v then None else duration_sum s' (d + v))"
  by pat_completeness auto
termination
  by (relation "measure (length \<circ> fst)") (auto dest: duration_item_shorter)

declare duration_sum.simps [simp del]

definition ParseDuration :: "string \<Rightarrow> duration option" where
  "ParseDuration s =
     (case sign_split s of (neg, body) \<Rightarrow>
        if body = ''0'' then Some 0
        else if body = [] then None
        else case duration_sum body 0 of
               None \<Rightarrow> None
             | Some d \<Rightarrow> if neg then Some (- int d) else if d \<le> 2 ^ 63 - 1 then Some (int d) else None)"

section \<open>The parser of package flag\<close>

text \<open>What an argument is: a flag with an optional value after \<open>=\<close>, the terminator, a positional
  argument, or malformed.\<close>

datatype flag_arg = FlagToken string "string option" | Terminator | Positional | BadSyntax

definition flag_token :: "string \<Rightarrow> flag_arg" where
  "flag_token s =
     (if length s < 2 \<or> hd s \<noteq> CHR ''-'' then Positional
      else if s = ''--'' then Terminator
      else
        let name = (if s ! 1 = CHR ''-'' then drop 2 s else drop 1 s) in
        if name = [] \<or> hd name \<in> {CHR ''-'', CHR ''=''} then BadSyntax
        else case dropWhile (\<lambda>c. c \<noteq> CHR ''='') name of
               [] \<Rightarrow> FlagToken name None
             | _ # v \<Rightarrow> FlagToken (takeWhile (\<lambda>c. c \<noteq> CHR ''='') name) (Some v))"

datatype flag_error = HelpRequested | FlagFailed

text \<open>A flag set: for each name, whether it is boolean, and how its value is stored. The parser stops at the
  first argument that is no flag and leaves it with all that follow.\<close>

type_synonym 'c flag_set = "(string \<times> bool \<times> (string \<Rightarrow> 'c \<Rightarrow> 'c option)) list"

fun parse_args :: "'c flag_set \<Rightarrow> string list \<Rightarrow> 'c \<Rightarrow> flag_error + 'c \<times> string list" where
  "parse_args fs [] c = Inr (c, [])"
| "parse_args fs (s # args) c =
     (case flag_token s of
        Positional \<Rightarrow> Inr (c, s # args)
      | Terminator \<Rightarrow> Inr (c, args)
      | BadSyntax \<Rightarrow> Inl FlagFailed
      | FlagToken name value \<Rightarrow>
          (case map_of fs name of
             None \<Rightarrow> Inl (if name = ''help'' \<or> name = ''h'' then HelpRequested else FlagFailed)
           | Some (boolean, store) \<Rightarrow>
               if boolean then
                 (case store (case value of None \<Rightarrow> ''true'' | Some v \<Rightarrow> v) c of
                    None \<Rightarrow> Inl FlagFailed
                  | Some c \<Rightarrow> parse_args fs args c)
               else
                 (case (value, args) of
                    (Some v, _) \<Rightarrow>
                      (case store v c of None \<Rightarrow> Inl FlagFailed | Some c \<Rightarrow> parse_args fs args c)
                  | (None, []) \<Rightarrow> Inl FlagFailed
                  | (None, v # args') \<Rightarrow>
                      (case store v c of None \<Rightarrow> Inl FlagFailed | Some c \<Rightarrow> parse_args fs args' c))))"

lemmas parse_args_Cons = parse_args.simps(2)

declare parse_args.simps(2) [simp del]

text \<open>The exit status of a program whose flag set exits on errors.\<close>

fun exit_status :: "flag_error \<Rightarrow> int" where
  "exit_status HelpRequested = 0"
| "exit_status FlagFailed = 2"

section \<open>Paths\<close>

definition IsAbs :: "string \<Rightarrow> bool" where
  "IsAbs path \<longleftrightarrow> path \<noteq> [] \<and> hd path = CHR ''/''"

text \<open>The elements between the slashes.\<close>

fun elements :: "string \<Rightarrow> string list" where
  "elements [] = [[]]"
| "elements (c # s) =
     (if c = CHR ''/'' then [] # elements s
      else case elements s of e # es \<Rightarrow> (c # e) # es | [] \<Rightarrow> [[c]])"

text \<open>\<open>filepath.Clean\<close>, lexically: the elements so far, the last one first.\<close>

fun clean_run :: "bool \<Rightarrow> string list \<Rightarrow> string list \<Rightarrow> string list" where
  "clean_run rooted done [] = rev done"
| "clean_run rooted done (e # es) =
     (if e = [] \<or> e = ''.'' then clean_run rooted done es
      else if e = ''..'' then
        (case done of
           [] \<Rightarrow> clean_run rooted (if rooted then [] else [e]) es
         | d # ds \<Rightarrow> if d = ''..'' then clean_run rooted (e # done) es else clean_run rooted ds es)
      else clean_run rooted (e # done) es)"

fun join_slash :: "string list \<Rightarrow> string" where
  "join_slash [] = []"
| "join_slash [e] = e"
| "join_slash (e # es) = e @ CHR ''/'' # join_slash es"

definition Clean :: "string \<Rightarrow> string" where
  "Clean path =
     (let rooted = IsAbs path;
          p = (if rooted then [CHR ''/''] else []) @ join_slash (clean_run rooted [] (elements path))
      in if p = [] then ''.'' else p)"

text \<open>\<open>filepath.Abs\<close>: \<open>wd\<close> is the working directory, if it can be found.\<close>

definition Abs :: "string option \<Rightarrow> string \<Rightarrow> string option" where
  "Abs wd path =
     (if IsAbs path then Some (Clean path)
      else case wd of None \<Rightarrow> None | Some d \<Rightarrow> Some (Clean (d @ CHR ''/'' # path)))"

section \<open>Lemmas\<close>

text \<open>A printed integer is read back, also with base 0: it has no leading zero and no underscore.\<close>

lemma digit_byte: "digit c \<Longrightarrow> digit_of c = Some (digit_val c) \<and> digit_val c < 10 \<and> c \<noteq> CHR ''_''"
  by (auto simp: digit_of_def digit_iff digit_val_def)

lemma digits_in_digits:
  "list_all digit s \<Longrightarrow> digits_in 10 s n = Some (foldl (\<lambda>n c. n * 10 + digit_val c) n s)"
  by (induction s arbitrary: n) (auto simp: digit_byte not_le dest: digit_byte)

lemma split_base_nat_text: "split_base (nat_text n) = (10, nat_text n) \<or> n = 0"
  using hd_nat_text [of n] by (auto simp: split_base_def)

lemma ParseUint_nat_text: "n < 2 ^ 64 \<Longrightarrow> ParseUint (nat_text n) = Some n"
proof (cases "n = 0")
  case True
  have "nat_text 0 = ''0''" by (simp add: nat_text.simps digit_char_def char_of_eq_iff)
  with True show ?thesis by (simp add: ParseUint_def split_base_def)
next
  case False
  assume n: "n < 2 ^ 64"
  have d: "list_all digit (nat_text n)" using nat_text_digits by (simp add: list_all_iff)
  then have "CHR ''_'' \<notin> set (nat_text n)" by (auto simp: list_all_iff dest: digit_byte)
  with False n split_base_nat_text [of n] digits_in_digits [OF d, of 0] show ?thesis
    by (simp add: ParseUint_def flip: digits_val_def)
qed

lemma sign_split_int_text: "sign_split (int_text i @ s) = (i < 0, nat_text (nat \<bar>i\<bar>) @ s)"
  using nat_text_no_sign [of "nat i"] by (auto simp: sign_split_def int_text_def hd_append)

lemma ParseInt_int_text:
  assumes "int64_range i"
  shows "ParseInt (int_text i) = Some i"
proof -
  have "nat \<bar>i\<bar> < 2 ^ 64" using assms by (simp add: int64_range_def nat_less_iff) linarith
  from ParseUint_nat_text [OF this] sign_split_int_text [of i "[]"] assms show ?thesis
    by (simp add: ParseInt_def)
qed

text \<open>A duration printed in nanoseconds is read back.\<close>

lemma ParseDuration_ns:
  assumes "int64_range d"
  shows "ParseDuration (int_text d @ ''ns'') = Some d"
proof -
  let ?n = "nat \<bar>d\<bar>"
  have d: "list_all digit (nat_text ?n)" using nat_text_digits by (simp add: list_all_iff)
  have n: "?n \<le> 2 ^ 63" using assms by (simp add: int64_range_def nat_le_iff) linarith
  have span: "takeWhile digit (nat_text ?n @ ''ns'') = nat_text ?n" "dropWhile digit (nat_text ?n @ ''ns'') = ''ns''"
    using d by (simp_all add: takeWhile_append dropWhile_append list_all_iff digit_def)
  have li: "leading_int (nat_text ?n @ ''ns'') = Some (?n, ''ns'')"
    using n by (simp add: leading_int_def span)
  have "duration_item (nat_text ?n @ ''ns'') = Some (?n, [])"
    using n by (simp add: duration_item_def li unit_map_def digit_def)
  moreover have "digit (hd (nat_text ?n @ ''ns''))" using d hd_in_set [of "nat_text ?n"] by (simp add: list_all_iff)
  ultimately have "duration_sum (nat_text ?n @ ''ns'') 0 = Some ?n"
    using n by (subst duration_sum.simps) (simp add: duration_sum.simps)
  moreover have "nat_text ?n @ ''ns'' \<noteq> ''0''" by (cases "nat_text ?n") auto
  ultimately show ?thesis
    using assms sign_split_int_text [of d "''ns''"]
    by (auto simp: ParseDuration_def int64_range_def)
qed

end
