(* ===== verification/CommandLine.thy ===== *)
theory CommandLine
  imports GoFlags
begin

text \<open>
  The command line of the worker (\<open>cmd/worker/main.go\<close>): the configuration, the flags with their defaults,
  and \<open>parseFlags\<close>. What it reads of the operating system (the arguments, the working directory, the
  environment) is a parameter; it returns a configuration, or the status the process exits with.
\<close>

section \<open>The configuration\<close>

record Config =
  cf_QueueURL :: string
  cf_Region :: string
  cf_Endpoint :: string
  cf_MaxMessages :: int
  cf_VisibilityTimeout :: int
  cf_WaitTimeSeconds :: int
  cf_MessageGroupID :: string
  cf_DeduplicationID :: string
  cf_Concurrency :: int
  cf_QueuePrefetch :: int
  cf_TaskTimeout :: duration
  cf_ShutdownTimeout :: duration
  cf_HeartbeatInterval :: duration
  cf_MinProcesses :: int
  cf_MaxProcesses :: int
  cf_MaxTasksPerProcess :: int
  cf_MaxIdleTime :: duration
  cf_MaxProcessAge :: duration
  cf_ProcessStartupTimeout :: duration
  cf_ProcessShutdownTimeout :: duration
  cf_PythonPath :: string
  cf_WorkerScriptPath :: string
  cf_ProcessEnv :: "string list"
  cf_LogLevel :: string
  cf_MetricsEnabled :: bool
  cf_MetricsEndpoint :: string
  cf_TracingEnabled :: bool
  cf_TracingEndpoint :: string
  cf_ServiceName :: string
  cf_ServiceVersion :: string
  cf_Environment :: string

section \<open>The flags\<close>

text \<open>A flag stores its value into one field of the configuration.\<close>

definition string_flag :: "((string \<Rightarrow> string) \<Rightarrow> Config \<Rightarrow> Config) \<Rightarrow> bool \<times> (string \<Rightarrow> Config \<Rightarrow> Config option)" where
  "string_flag upd = (False, \<lambda>v c. Some (upd (\<lambda>_. v) c))"

definition int_flag :: "((int \<Rightarrow> int) \<Rightarrow> Config \<Rightarrow> Config) \<Rightarrow> bool \<times> (string \<Rightarrow> Config \<Rightarrow> Config option)" where
  "int_flag upd = (False, \<lambda>v c. map_option (\<lambda>i. upd (\<lambda>_. i) c) (ParseInt v))"

definition bool_flag :: "((bool \<Rightarrow> bool) \<Rightarrow> Config \<Rightarrow> Config) \<Rightarrow> bool \<times> (string \<Rightarrow> Config \<Rightarrow> Config option)" where
  "bool_flag upd = (True, \<lambda>v c. map_option (\<lambda>b. upd (\<lambda>_. b) c) (ParseBool v))"

definition duration_flag :: "((duration \<Rightarrow> duration) \<Rightarrow> Config \<Rightarrow> Config) \<Rightarrow> bool \<times> (string \<Rightarrow> Config \<Rightarrow> Config option)" where
  "duration_flag upd = (False, \<lambda>v c. map_option (\<lambda>d. upd (\<lambda>_. d) c) (ParseDuration v))"

definition flag_table :: "Config flag_set" where
  "flag_table =
    [(''queue-url'', string_flag cf_QueueURL_update), (''region'', string_flag cf_Region_update),
     (''endpoint'', string_flag cf_Endpoint_update), (''max-messages'', int_flag cf_MaxMessages_update),
     (''visibility-timeout'', int_flag cf_VisibilityTimeout_update),
     (''wait-time'', int_flag cf_WaitTimeSeconds_update),
     (''message-group-id'', string_flag cf_MessageGroupID_update),
     (''deduplication-id'', string_flag cf_DeduplicationID_update),
     (''concurrency'', int_flag cf_Concurrency_update),
     (''queue-prefetch'', int_flag cf_QueuePrefetch_update),
     (''task-timeout'', duration_flag cf_TaskTimeout_update),
     (''shutdown-timeout'', duration_flag cf_ShutdownTimeout_update),
     (''heartbeat-interval'', duration_flag cf_HeartbeatInterval_update),
     (''min-processes'', int_flag cf_MinProcesses_update),
     (''max-processes'', int_flag cf_MaxProcesses_update),
     (''max-tasks-per-process'', int_flag cf_MaxTasksPerProcess_update),
     (''max-idle-time'', duration_flag cf_MaxIdleTime_update),
     (''max-process-age'', duration_flag cf_MaxProcessAge_update),
     (''process-startup-timeout'', duration_flag cf_ProcessStartupTimeout_update),
     (''process-shutdown-timeout'', duration_flag cf_ProcessShutdownTimeout_update),
     (''python-path'', string_flag cf_PythonPath_update),
     (''worker-script-path'', string_flag cf_WorkerScriptPath_update),
     (''log-level'', string_flag cf_LogLevel_update),
     (''metrics-enabled'', bool_flag cf_MetricsEnabled_update),
     (''metrics-endpoint'', string_flag cf_MetricsEndpoint_update),
     (''tracing-enabled'', bool_flag cf_TracingEnabled_update),
     (''tracing-endpoint'', string_flag cf_TracingEndpoint_update),
     (''service-name'', string_flag cf_ServiceName_update),
     (''service-version'', string_flag cf_ServiceVersion_update),
     (''environment'', string_flag cf_Environment_update)]"

definition default_config :: Config where
  "default_config =
    \<lparr>cf_QueueURL = '''', cf_Region = ''us-east-1'', cf_Endpoint = '''', cf_MaxMessages = 10,
     cf_VisibilityTimeout = 30, cf_WaitTimeSeconds = 20, cf_MessageGroupID = '''', cf_DeduplicationID = '''',
     cf_Concurrency = 10, cf_QueuePrefetch = 10, cf_TaskTimeout = 5 * minute,
     cf_ShutdownTimeout = 30 * second, cf_HeartbeatInterval = 10 * second, cf_MinProcesses = 1,
     cf_MaxProcesses = 10, cf_MaxTasksPerProcess = 100, cf_MaxIdleTime = 5 * minute,
     cf_MaxProcessAge = 1 * hour, cf_ProcessStartupTimeout = 30 * second,
     cf_ProcessShutdownTimeout = 30 * second, cf_PythonPath = ''python'',
     cf_WorkerScriptPath = ''scripts/python/worker_process.py'', cf_ProcessEnv = [], cf_LogLevel = ''info'',
     cf_MetricsEnabled = True, cf_MetricsEndpoint = '':9090'', cf_TracingEnabled = False,
     cf_TracingEndpoint = ''localhost:4317'', cf_ServiceName = ''celery-go-worker'',
     cf_ServiceVersion = ''0.1.0'', cf_Environment = ''development''\<rparr>"

section \<open>Parsing\<close>

record main_os =
  mo_args :: "string list"
  mo_Environ :: "string list"
  mo_Getwd :: "string option"

definition parseFlags :: "main_os \<Rightarrow> int + Config" where
  "parseFlags os =
     (case parse_args flag_table (mo_args os) default_config of
        Inl err \<Rightarrow> Inl (exit_status err)
      | Inr (c, _) \<Rightarrow>
          if cf_QueueURL c = '''' then Inl 1
          else
            let c = (if \<not> IsAbs (cf_WorkerScriptPath c)
                     then (case Abs (mo_Getwd os) (cf_WorkerScriptPath c) of
                             Some absPath \<Rightarrow> c\<lparr>cf_WorkerScriptPath := absPath\<rparr>
                           | None \<Rightarrow> c)
                     else c)
            in Inr (c\<lparr>cf_ProcessEnv := mo_Environ os\<rparr>))"

section \<open>Printing a configuration\<close>

text \<open>The arguments that set every flag; a duration is printed in nanoseconds.\<close>

definition set_flag :: "string \<Rightarrow> string \<Rightarrow> string" where
  "set_flag name v = CHR ''-'' # name @ CHR ''='' # v"

definition bool_text :: "bool \<Rightarrow> string" where
  "bool_text b = (if b then ''true'' else ''false'')"

definition config_args :: "Config \<Rightarrow> string list" where
  "config_args c =
    [set_flag ''queue-url'' (cf_QueueURL c), set_flag ''region'' (cf_Region c),
     set_flag ''endpoint'' (cf_Endpoint c), set_flag ''max-messages'' (int_text (cf_MaxMessages c)),
     set_flag ''visibility-timeout'' (int_text (cf_VisibilityTimeout c)),
     set_flag ''wait-time'' (int_text (cf_WaitTimeSeconds c)),
     set_flag ''message-group-id'' (cf_MessageGroupID c),
     set_flag ''deduplication-id'' (cf_DeduplicationID c),
     set_flag ''concurrency'' (int_text (cf_Concurrency c)),
     set_flag ''queue-prefetch'' (int_text (cf_QueuePrefetch c)),
     set_flag ''task-timeout'' (int_text (cf_TaskTimeout c) @ ''ns''),
     set_flag ''shutdown-timeout'' (int_text (cf_ShutdownTimeout c) @ ''ns''),
     set_flag ''heartbeat-interval'' (int_text (cf_HeartbeatInterval c) @ ''ns''),
     set_flag ''min-processes'' (int_text (cf_MinProcesses c)),
     set_flag ''max-processes'' (int_text (cf_MaxProcesses c)),
     set_flag ''max-tasks-per-process'' (int_text (cf_MaxTasksPerProcess c)),
     set_flag ''max-idle-time'' (int_text (cf_MaxIdleTime c) @ ''ns''),
     set_flag ''max-process-age'' (int_text (cf_MaxProcessAge c) @ ''ns''),
     set_flag ''process-startup-timeout'' (int_text (cf_ProcessStartupTimeout c) @ ''ns''),
     set_flag ''process-shutdown-timeout'' (int_text (cf_ProcessShutdownTimeout c) @ ''ns''),
     set_flag ''python-path'' (cf_PythonPath c), set_flag ''worker-script-path'' (cf_WorkerScriptPath c),
     set_flag ''log-level'' (cf_LogLevel c), set_flag ''metrics-enabled'' (bool_text (cf_MetricsEnabled c)),
     set_flag ''metrics-endpoint'' (cf_MetricsEndpoint c),
     set_flag ''tracing-enabled'' (bool_text (cf_TracingEnabled c)),
     set_flag ''tracing-endpoint'' (cf_TracingEndpoint c), set_flag ''service-name'' (cf_ServiceName c),
     set_flag ''service-version'' (cf_ServiceVersion c), set_flag ''environment'' (cf_Environment c)]"

definition config_in_range :: "Config \<Rightarrow> bool" where
  "config_in_range c \<longleftrightarrow> list_all int64_range
    [cf_MaxMessages c, cf_VisibilityTimeout c, cf_WaitTimeSeconds c, cf_Concurrency c, cf_QueuePrefetch c,
     cf_TaskTimeout c, cf_ShutdownTimeout c, cf_HeartbeatInterval c, cf_MinProcesses c, cf_MaxProcesses c,
     cf_MaxTasksPerProcess c, cf_MaxIdleTime c, cf_MaxProcessAge c, cf_ProcessStartupTimeout c,
     cf_ProcessShutdownTimeout c]"

definition flag_name :: "string \<Rightarrow> bool" where
  "flag_name name \<longleftrightarrow> name \<noteq> [] \<and> hd name \<noteq> CHR ''-'' \<and> CHR ''='' \<notin> set name"

lemma flag_token_set_flag:
  assumes "flag_name name"
  shows "flag_token (set_flag name v) = FlagToken name (Some v)"
proof -
  obtain c cs where name: "name = c # cs" using assms by (cases name) (auto simp: flag_name_def)
  have "takeWhile (\<lambda>c. c \<noteq> CHR ''='') (name @ CHR ''='' # v) = name"
    "dropWhile (\<lambda>c. c \<noteq> CHR ''='') (name @ CHR ''='' # v) = CHR ''='' # v"
    using assms by (auto simp: flag_name_def takeWhile_append dropWhile_append)
  moreover have "c \<noteq> CHR ''-''" "c \<noteq> CHR ''=''" using assms name by (auto simp: flag_name_def)
  ultimately show ?thesis by (simp add: flag_token_def set_flag_def name)
qed

lemma parse_set_flag:
  assumes "flag_name name" "map_of fs name = Some (boolean, store)"
  shows "parse_args fs (set_flag name v # args) c =
    (case store v c of None \<Rightarrow> Inl FlagFailed | Some c \<Rightarrow> parse_args fs args c)"
  by (simp add: parse_args_Cons flag_token_set_flag [OF assms(1)] assms(2))

lemma flag_table_names: "distinct (map fst flag_table) \<and> list_all (flag_name \<circ> fst) flag_table"
  by (simp add: flag_table_def flag_name_def)

text \<open>Every flag of the table is found under its name.\<close>

lemma parse_table_flag:
  assumes "(name, boolean, store) \<in> set flag_table"
  shows "parse_args flag_table (set_flag name v # args) c =
    (case store v c of None \<Rightarrow> Inl FlagFailed | Some c \<Rightarrow> parse_args flag_table args c)"
  using assms flag_table_names
  by (intro parse_set_flag map_of_is_SomeI) (auto simp: list_all_iff simp del: parse_args.simps)

lemma parse_string_flag:
  "(name, string_flag upd) \<in> set flag_table \<Longrightarrow>
   parse_args flag_table (set_flag name v # args) c = parse_args flag_table args (upd (\<lambda>_. v) c)"
  by (simp add: string_flag_def parse_table_flag)

lemma parse_int_flag:
  "(name, int_flag upd) \<in> set flag_table \<Longrightarrow> int64_range i \<Longrightarrow>
   parse_args flag_table (set_flag name (int_text i) # args) c = parse_args flag_table args (upd (\<lambda>_. i) c)"
  by (simp add: int_flag_def parse_table_flag ParseInt_int_text)

lemma parse_duration_flag:
  "(name, duration_flag upd) \<in> set flag_table \<Longrightarrow> int64_range d \<Longrightarrow>
   parse_args flag_table (set_flag name (int_text d @ ''ns'') # args) c = parse_args flag_table args (upd (\<lambda>_. d) c)"
  by (simp add: duration_flag_def parse_table_flag ParseDuration_ns)

lemma parse_bool_flag:
  "(name, bool_flag upd) \<in> set flag_table \<Longrightarrow>
   parse_args flag_table (set_flag name (bool_text b) # args) c = parse_args flag_table args (upd (\<lambda>_. b) c)"
  by (simp add: bool_flag_def parse_table_flag bool_text_def ParseBool_def)

lemma flag_members:
  "(''queue-url'', string_flag cf_QueueURL_update) \<in> set flag_table"
  "(''region'', string_flag cf_Region_update) \<in> set flag_table"
  "(''endpoint'', string_flag cf_Endpoint_update) \<in> set flag_table"
  "(''max-messages'', int_flag cf_MaxMessages_update) \<in> set flag_table"
  "(''visibility-timeout'', int_flag cf_VisibilityTimeout_update) \<in> set flag_table"
  "(''wait-time'', int_flag cf_WaitTimeSeconds_update) \<in> set flag_table"
  "(''message-group-id'', string_flag cf_MessageGroupID_update) \<in> set flag_table"
  "(''deduplication-id'', string_flag cf_DeduplicationID_update) \<in> set flag_table"
  "(''concurrency'', int_flag cf_Concurrency_update) \<in> set flag_table"
  "(''queue-prefetch'', int_flag cf_QueuePrefetch_update) \<in> set flag_table"
  "(''task-timeout'', duration_flag cf_TaskTimeout_update) \<in> set flag_table"
  "(''shutdown-timeout'', duration_flag cf_ShutdownTimeout_update) \<in> set flag_table"
  "(''heartbeat-interval'', duration_flag cf_HeartbeatInterval_update) \<in> set flag_table"
  "(''min-processes'', int_flag cf_MinProcesses_update) \<in> set flag_table"
  "(''max-processes'', int_flag cf_MaxProcesses_update) \<in> set flag_table"
  "(''max-tasks-per-process'', int_flag cf_MaxTasksPerProcess_update) \<in> set flag_table"
  "(''max-idle-time'', duration_flag cf_MaxIdleTime_update) \<in> set flag_table"
  "(''max-process-age'', duration_flag cf_MaxProcessAge_update) \<in> set flag_table"
  "(''process-startup-timeout'', duration_flag cf_ProcessStartupTimeout_update) \<in> set flag_table"
  "(''process-shutdown-timeout'', duration_flag cf_ProcessShutdownTimeout_update) \<in> set flag_table"
  "(''python-path'', string_flag cf_PythonPath_update) \<in> set flag_table"
  "(''worker-script-path'', string_flag cf_WorkerScriptPath_update) \<in> set flag_table"
  "(''log-level'', string_flag cf_LogLevel_update) \<in> set flag_table"
  "(''metrics-enabled'', bool_flag cf_MetricsEnabled_update) \<in> set flag_table"
  "(''metrics-endpoint'', string_flag cf_MetricsEndpoint_update) \<in> set flag_table"
  "(''tracing-enabled'', bool_flag cf_TracingEnabled_update) \<in> set flag_table"
  "(''tracing-endpoint'', string_flag cf_TracingEndpoint_update) \<in> set flag_table"
  "(''service-name'', string_flag cf_ServiceName_update) \<in> set flag_table"
  "(''service-version'', string_flag cf_ServiceVersion_update) \<in> set flag_table"
  "(''environment'', string_flag cf_Environment_update) \<in> set flag_table"
  by (simp_all add: flag_table_def)

lemmas parse_flag_steps =
  parse_string_flag [OF flag_members(1)] parse_string_flag [OF flag_members(2)]
  parse_string_flag [OF flag_members(3)] parse_int_flag [OF flag_members(4)]
  parse_int_flag [OF flag_members(5)] parse_int_flag [OF flag_members(6)]
  parse_string_flag [OF flag_members(7)] parse_string_flag [OF flag_members(8)]
  parse_int_flag [OF flag_members(9)] parse_int_flag [OF flag_members(10)]
  parse_duration_flag [OF flag_members(11)] parse_duration_flag [OF flag_members(12)]
  parse_duration_flag [OF flag_members(13)] parse_int_flag [OF flag_members(14)]
  parse_int_flag [OF flag_members(15)] parse_int_flag [OF flag_members(16)]
  parse_duration_flag [OF flag_members(17)] parse_duration_flag [OF flag_members(18)]
  parse_duration_flag [OF flag_members(19)] parse_duration_flag [OF flag_members(20)]
  parse_string_flag [OF flag_members(21)] parse_string_flag [OF flag_members(22)]
  parse_string_flag [OF flag_members(23)] parse_bool_flag [OF flag_members(24)]
  parse_string_flag [OF flag_members(25)] parse_bool_flag [OF flag_members(26)]
  parse_string_flag [OF flag_members(27)] parse_string_flag [OF flag_members(28)]
  parse_string_flag [OF flag_members(29)] parse_string_flag [OF flag_members(30)]

lemma parse_config_args:
  assumes "config_in_range c"
  shows "parse_args flag_table (config_args c) default_config = Inr (c\<lparr>cf_ProcessEnv := []\<rparr>, [])"
  using assms unfolding config_args_def config_in_range_def
  by (simp add: parse_flag_steps default_config_def)

end
