(* ===== verification/Metrics.thy ===== *)
theory Metrics
  imports Float64 "HOL-Library.Monad_Syntax"
begin

text \<open>
  The metrics (\<open>internal/observability/metrics/metrics.go\<close>). The Prometheus client and the HTTP server are
  not under \<open>src/\<close>: they are a record of functions on a state \<open>'w\<close>, the collectors and servers are handles.
  A registration may panic, as \<open>promauto\<close> does for a name that is registered already: \<open>None\<close>. A nil
  collector is \<open>None\<close>, and calling a method of it is a panic. Logging is left out.
\<close>

section \<open>The client library\<close>

type_synonym handle = nat

record metric_opts =
  op_Namespace :: string
  op_Subsystem :: string
  op_Name :: string
  op_Help :: string

record 'w prometheus =
  pm_NewCounterVec :: "metric_opts \<Rightarrow> string list \<Rightarrow> 'w \<Rightarrow> (handle \<times> 'w) option"
  pm_NewHistogramVec :: "metric_opts \<Rightarrow> string list \<Rightarrow> 'w \<Rightarrow> (handle \<times> 'w) option"
  pm_NewGauge :: "metric_opts \<Rightarrow> 'w \<Rightarrow> (handle \<times> 'w) option"
  pm_Inc :: "handle \<Rightarrow> string list \<Rightarrow> 'w \<Rightarrow> 'w"
  pm_Observe :: "handle \<Rightarrow> string list \<Rightarrow> f64 \<Rightarrow> 'w \<Rightarrow> 'w"
  pm_Set :: "handle \<Rightarrow> f64 \<Rightarrow> 'w \<Rightarrow> 'w"
  pm_Serve :: "string \<Rightarrow> 'w \<Rightarrow> handle \<times> 'w"
  pm_CloseServer :: "handle \<Rightarrow> 'w \<Rightarrow> string option \<times> 'w"

section \<open>Numbers\<close>

text \<open>\<open>float64(count)\<close>, and \<open>duration.Seconds()\<close>: the whole seconds plus the nanoseconds divided by 1e9,
  each operation rounded.\<close>

definition f64_of_int :: "int \<Rightarrow> f64" where
  "f64_of_int i = (case f64_of_ratio (i < 0) (nat \<bar>i\<bar>) 1 of Some v \<Rightarrow> v | None \<Rightarrow> Inf (i < 0))"

text \<open>The sum of two numbers of the same sign.\<close>

definition f64_add :: "f64 \<Rightarrow> f64 \<Rightarrow> f64" where
  "f64_add x y =
     (case (x, y) of
        (Fin neg m e, Fin _ m' e') \<Rightarrow>
          (let l = min e e'; n = m * 2 ^ nat (e - l) + m' * 2 ^ nat (e' - l)
           in case f64_of_ratio neg (n * 2 ^ nat l) (2 ^ nat (- l)) of Some v \<Rightarrow> v | None \<Rightarrow> Inf neg)
      | _ \<Rightarrow> NaN)"

definition duration_seconds :: "duration \<Rightarrow> f64" where
  "duration_seconds d =
     (let neg = (d < 0); n = nat \<bar>d\<bar> in
      case (f64_of_ratio neg (n div 1000000000) 1, f64_of_ratio neg (n mod 1000000000) 1000000000) of
        (Some s, Some r) \<Rightarrow> f64_add s r
      | _ \<Rightarrow> NaN)"

section \<open>Construction\<close>

record metrics_config =
  mc_Enabled :: bool
  mc_Namespace :: string
  mc_Subsystem :: string
  mc_HTTPEndpoint :: string

record metrics =
  mt_TasksReceived :: "handle option"
  mt_TasksProcessed :: "handle option"
  mt_TasksSucceeded :: "handle option"
  mt_TasksFailed :: "handle option"
  mt_TasksRetried :: "handle option"
  mt_TaskDuration :: "handle option"
  mt_ProcessesTotal :: "handle option"
  mt_ProcessesIdle :: "handle option"
  mt_ProcessesBusy :: "handle option"
  mt_ProcessesStarting :: "handle option"
  mt_ProcessesStopping :: "handle option"
  mt_ProcessesError :: "handle option"
  mt_MessageGroupsActive :: "handle option"
  mt_MessageGroupsProcessing :: "handle option"
  mt_config :: metrics_config
  mt_server :: "handle option"

definition nil_metrics :: "metrics_config \<Rightarrow> metrics" where
  "nil_metrics config =
     \<lparr>mt_TasksReceived = None, mt_TasksProcessed = None, mt_TasksSucceeded = None, mt_TasksFailed = None,
      mt_TasksRetried = None, mt_TaskDuration = None, mt_ProcessesTotal = None, mt_ProcessesIdle = None,
      mt_ProcessesBusy = None, mt_ProcessesStarting = None, mt_ProcessesStopping = None,
      mt_ProcessesError = None, mt_MessageGroupsActive = None, mt_MessageGroupsProcessing = None,
      mt_config = config, mt_server = None\<rparr>"

definition metric :: "metrics_config \<Rightarrow> string \<Rightarrow> string \<Rightarrow> metric_opts" where
  "metric config name help =
     \<lparr>op_Namespace = mc_Namespace config, op_Subsystem = mc_Subsystem config, op_Name = name, op_Help = help\<rparr>"

definition task_labels :: "string list" where
  "task_labels = [''queue'', ''task_name'']"

definition default_string :: "string \<Rightarrow> string \<Rightarrow> string" where
  "default_string d s = (if s = '''' then d else s)"

text \<open>\<open>NewMetrics\<close>: the collectors are created in the order of the source.\<close>

definition NewMetrics :: "'w prometheus \<Rightarrow> metrics_config \<Rightarrow> 'w \<Rightarrow> (metrics \<times> 'w) option" where
  "NewMetrics pm config w =
     (if \<not> mc_Enabled config then Some (nil_metrics config, w)
      else
        let config = config\<lparr>mc_Namespace := default_string ''celery_go'' (mc_Namespace config),
                            mc_HTTPEndpoint := default_string '':9090'' (mc_HTTPEndpoint config)\<rparr>
        in do {
          (received, w) \<leftarrow> pm_NewCounterVec pm (metric config ''tasks_received_total'' ''The total number of tasks received'')
            task_labels w;
          (processed, w) \<leftarrow> pm_NewCounterVec pm (metric config ''tasks_processed_total'' ''The total number of tasks processed'')
            task_labels w;
          (succeeded, w) \<leftarrow> pm_NewCounterVec pm (metric config ''tasks_succeeded_total'' ''The total number of tasks that succeeded'')
            task_labels w;
          (failed, w) \<leftarrow> pm_NewCounterVec pm (metric config ''tasks_failed_total'' ''The total number of tasks that failed'')
            task_labels w;
          (retried, w) \<leftarrow> pm_NewCounterVec pm (metric config ''tasks_retried_total'' ''The total number of tasks that were retried'')
            task_labels w;
          (dur, w) \<leftarrow> pm_NewHistogramVec pm (metric config ''task_duration_seconds''
            ''The duration of task execution in seconds'') task_labels w;
          (total, w) \<leftarrow> pm_NewGauge pm (metric config ''processes_total'' ''The total number of processes'') w;
          (idle, w) \<leftarrow> pm_NewGauge pm (metric config ''processes_idle'' ''The number of idle processes'') w;
          (busy, w) \<leftarrow> pm_NewGauge pm (metric config ''processes_busy'' ''The number of busy processes'') w;
          (starting, w) \<leftarrow> pm_NewGauge pm (metric config ''processes_starting'' ''The number of processes that are starting up'') w;
          (stopping, w) \<leftarrow> pm_NewGauge pm (metric config ''processes_stopping'' ''The number of processes that are shutting down'') w;
          (err, w) \<leftarrow> pm_NewGauge pm (metric config ''processes_error'' ''The number of processes in an error state'') w;
          (active, w) \<leftarrow> pm_NewGauge pm (metric config ''message_groups_active'' ''The number of active message groups'') w;
          (processing, w) \<leftarrow> pm_NewGauge pm (metric config ''message_groups_processing'' ''The number of message groups being processed'') w;
          let m = (nil_metrics config)
            \<lparr>mt_TasksReceived := Some received, mt_TasksProcessed := Some processed,
             mt_TasksSucceeded := Some succeeded, mt_TasksFailed := Some failed,
             mt_TasksRetried := Some retried, mt_TaskDuration := Some dur, mt_ProcessesTotal := Some total,
             mt_ProcessesIdle := Some idle, mt_ProcessesBusy := Some busy,
             mt_ProcessesStarting := Some starting, mt_ProcessesStopping := Some stopping,
             mt_ProcessesError := Some err, mt_MessageGroupsActive := Some active,
             mt_MessageGroupsProcessing := Some processing\<rparr>;
          if mc_HTTPEndpoint config \<noteq> ''''
          then (case pm_Serve pm (mc_HTTPEndpoint config) w of
                  (server, w) \<Rightarrow> Some (m\<lparr>mt_server := Some server\<rparr>, w))
          else Some (m, w)
        })"

section \<open>Observing\<close>

text \<open>An observation is a step on the library's state: nothing when metrics are disabled, a panic on a
  nil collector.\<close>

type_synonym 'w observation = "metrics \<Rightarrow> 'w \<Rightarrow> 'w option"

definition with_collector :: "(metrics \<Rightarrow> handle option) \<Rightarrow> (handle \<Rightarrow> 'w \<Rightarrow> 'w) \<Rightarrow> 'w observation" where
  "with_collector field f m w =
     (if \<not> mc_Enabled (mt_config m) then Some w
      else case field m of None \<Rightarrow> None | Some h \<Rightarrow> Some (f h w))"

definition ObserveTaskReceived :: "'w prometheus \<Rightarrow> string \<Rightarrow> string \<Rightarrow> 'w observation" where
  "ObserveTaskReceived pm queue taskName = with_collector mt_TasksReceived (\<lambda>h. pm_Inc pm h [queue, taskName])"

definition ObserveTaskProcessed :: "'w prometheus \<Rightarrow> string \<Rightarrow> string \<Rightarrow> 'w observation" where
  "ObserveTaskProcessed pm queue taskName = with_collector mt_TasksProcessed (\<lambda>h. pm_Inc pm h [queue, taskName])"

definition ObserveTaskSucceeded :: "'w prometheus \<Rightarrow> string \<Rightarrow> string \<Rightarrow> 'w observation" where
  "ObserveTaskSucceeded pm queue taskName = with_collector mt_TasksSucceeded (\<lambda>h. pm_Inc pm h [queue, taskName])"

definition ObserveTaskFailed :: "'w prometheus \<Rightarrow> string \<Rightarrow> string \<Rightarrow> 'w observation" where
  "ObserveTaskFailed pm queue taskName = with_collector mt_TasksFailed (\<lambda>h. pm_Inc pm h [queue, taskName])"

definition ObserveTaskRetried :: "'w prometheus \<Rightarrow> string \<Rightarrow> string \<Rightarrow> 'w observation" where
  "ObserveTaskRetried pm queue taskName = with_collector mt_TasksRetried (\<lambda>h. pm_Inc pm h [queue, taskName])"

definition ObserveTaskDuration :: "'w prometheus \<Rightarrow> string \<Rightarrow> string \<Rightarrow> duration \<Rightarrow> 'w observation" where
  "ObserveTaskDuration pm queue taskName d =
     with_collector mt_TaskDuration (\<lambda>h. pm_Observe pm h [queue, taskName] (duration_seconds d))"

definition SetProcessesTotal :: "'w prometheus \<Rightarrow> int \<Rightarrow> 'w observation" where
  "SetProcessesTotal pm count = with_collector mt_ProcessesTotal (\<lambda>h. pm_Set pm h (f64_of_int count))"

definition SetProcessesIdle :: "'w prometheus \<Rightarrow> int \<Rightarrow> 'w observation" where
  "SetProcessesIdle pm count = with_collector mt_ProcessesIdle (\<lambda>h. pm_Set pm h (f64_of_int count))"

definition SetProcessesBusy :: "'w prometheus \<Rightarrow> int \<Rightarrow> 'w observation" where
  "SetProcessesBusy pm count = with_collector mt_ProcessesBusy (\<lambda>h. pm_Set pm h (f64_of_int count))"

definition SetProcessesStarting :: "'w prometheus \<Rightarrow> int \<Rightarrow> 'w observation" where
  "SetProcessesStarting pm count = with_collector mt_ProcessesStarting (\<lambda>h. pm_Set pm h (f64_of_int count))"

definition SetProcessesStopping :: "'w prometheus \<Rightarrow> int \<Rightarrow> 'w observation" where
  "SetProcessesStopping pm count = with_collector mt_ProcessesStopping (\<lambda>h. pm_Set pm h (f64_of_int count))"

definition SetProcessesError :: "'w prometheus \<Rightarrow> int \<Rightarrow> 'w observation" where
  "SetProcessesError pm count = with_collector mt_ProcessesError (\<lambda>h. pm_Set pm h (f64_of_int count))"

definition SetMessageGroupsActive :: "'w prometheus \<Rightarrow> int \<Rightarrow> 'w observation" where
  "SetMessageGroupsActive pm count = with_collector mt_MessageGroupsActive (\<lambda>h. pm_Set pm h (f64_of_int count))"

definition SetMessageGroupsProcessing :: "'w prometheus \<Rightarrow> int \<Rightarrow> 'w observation" where
  "SetMessageGroupsProcessing pm count = with_collector mt_MessageGroupsProcessing (\<lambda>h. pm_Set pm h (f64_of_int count))"

definition metrics_Shutdown :: "'w prometheus \<Rightarrow> metrics \<Rightarrow> 'w \<Rightarrow> string option \<times> 'w" where
  "metrics_Shutdown pm m w =
     (case mt_server m of None \<Rightarrow> (None, w) | Some s \<Rightarrow> pm_CloseServer pm s w)"

section \<open>The default metrics\<close>

text \<open>The package variable \<open>DefaultMetrics\<close>, nil before \<open>InitMetrics\<close>. The package functions do nothing then.\<close>

definition InitMetrics :: "'w prometheus \<Rightarrow> metrics_config \<Rightarrow> 'w \<Rightarrow> (metrics option \<times> 'w) option" where
  "InitMetrics pm config w = map_option (\<lambda>(m, w). (Some m, w)) (NewMetrics pm config w)"

definition on_default :: "'w observation \<Rightarrow> metrics option \<Rightarrow> 'w \<Rightarrow> 'w option" where
  "on_default f dm w = (case dm of None \<Rightarrow> Some w | Some m \<Rightarrow> f m w)"

definition default_ObserveTaskReceived :: "'w prometheus \<Rightarrow> string \<Rightarrow> string \<Rightarrow> metrics option \<Rightarrow> 'w \<Rightarrow> 'w option" where
  "default_ObserveTaskReceived pm queue taskName = on_default (ObserveTaskReceived pm queue taskName)"

definition default_ObserveTaskProcessed :: "'w prometheus \<Rightarrow> string \<Rightarrow> string \<Rightarrow> metrics option \<Rightarrow> 'w \<Rightarrow> 'w option" where
  "default_ObserveTaskProcessed pm queue taskName = on_default (ObserveTaskProcessed pm queue taskName)"

definition default_ObserveTaskSucceeded :: "'w prometheus \<Rightarrow> string \<Rightarrow> string \<Rightarrow> metrics option \<Rightarrow> 'w \<Rightarrow> 'w option" where
  "default_ObserveTaskSucceeded pm queue taskName = on_default (ObserveTaskSucceeded pm queue taskName)"

definition default_ObserveTaskFailed :: "'w prometheus \<Rightarrow> string \<Rightarrow> string \<Rightarrow> metrics option \<Rightarrow> 'w \<Rightarrow> 'w option" where
  "default_ObserveTaskFailed pm queue taskName = on_default (ObserveTaskFailed pm queue taskName)"

definition default_ObserveTaskRetried :: "'w prometheus \<Rightarrow> string \<Rightarrow> string \<Rightarrow> metrics option \<Rightarrow> 'w \<Rightarrow> 'w option" where
  "default_ObserveTaskRetried pm queue taskName = on_default (ObserveTaskRetried pm queue taskName)"

definition default_ObserveTaskDuration ::
    "'w prometheus \<Rightarrow> string \<Rightarrow> string \<Rightarrow> duration \<Rightarrow> metrics option \<Rightarrow> 'w \<Rightarrow> 'w option" where
  "default_ObserveTaskDuration pm queue taskName d = on_default (ObserveTaskDuration pm queue taskName d)"

definition default_SetProcessesTotal :: "'w prometheus \<Rightarrow> int \<Rightarrow> metrics option \<Rightarrow> 'w \<Rightarrow> 'w option" where
  "default_SetProcessesTotal pm count = on_default (SetProcessesTotal pm count)"

definition default_SetProcessesIdle :: "'w prometheus \<Rightarrow> int \<Rightarrow> metrics option \<Rightarrow> 'w \<Rightarrow> 'w option" where
  "default_SetProcessesIdle pm count = on_default (SetProcessesIdle pm count)"

definition default_SetProcessesBusy :: "'w prometheus \<Rightarrow> int \<Rightarrow> metrics option \<Rightarrow> 'w \<Rightarrow> 'w option" where
  "default_SetProcessesBusy pm count = on_default (SetProcessesBusy pm count)"

definition default_SetProcessesStarting :: "'w prometheus \<Rightarrow> int \<Rightarrow> metrics option \<Rightarrow> 'w \<Rightarrow> 'w option" where
  "default_SetProcessesStarting pm count = on_default (SetProcessesStarting pm count)"

definition default_SetProcessesStopping :: "'w prometheus \<Rightarrow> int \<Rightarrow> metrics option \<Rightarrow> 'w \<Rightarrow> 'w option" where
  "default_SetProcessesStopping pm count = on_default (SetProcessesStopping pm count)"

definition default_SetProcessesError :: "'w prometheus \<Rightarrow> int \<Rightarrow> metrics option \<Rightarrow> 'w \<Rightarrow> 'w option" where
  "default_SetProcessesError pm count = on_default (SetProcessesError pm count)"

definition default_SetMessageGroupsActive :: "'w prometheus \<Rightarrow> int \<Rightarrow> metrics option \<Rightarrow> 'w \<Rightarrow> 'w option" where
  "default_SetMessageGroupsActive pm count = on_default (SetMessageGroupsActive pm count)"

definition default_SetMessageGroupsProcessing :: "'w prometheus \<Rightarrow> int \<Rightarrow> metrics option \<Rightarrow> 'w \<Rightarrow> 'w option" where
  "default_SetMessageGroupsProcessing pm count = on_default (SetMessageGroupsProcessing pm count)"

definition default_metrics_Shutdown ::
    "'w prometheus \<Rightarrow> metrics option \<Rightarrow> 'w \<Rightarrow> string option \<times> 'w" where
  "default_metrics_Shutdown pm dm w = (case dm of None \<Rightarrow> (None, w) | Some m \<Rightarrow> metrics_Shutdown pm m w)"

end
