(* ===== verification/Tracing.thy ===== *)
theory Tracing
  imports GoValue
begin

text \<open>
  Tracing (\<open>internal/observability/tracing/tracer.go\<close>). The OpenTelemetry SDK is not under \<open>src/\<close>: it is a
  record of functions on a state \<open>'w\<close>; tracers, providers, exporters, spans and contexts are handles. Logging
  is left out.
\<close>

section \<open>The SDK\<close>

type_synonym otel_handle = nat

record 'w otel =
  ot_Resource :: "(string \<times> string) list \<Rightarrow> 'w \<Rightarrow> (string + otel_handle) \<times> 'w"
  ot_Exporter :: "string \<Rightarrow> 'w \<Rightarrow> (string + otel_handle) \<times> 'w"
  ot_NewProvider :: "f64 \<Rightarrow> otel_handle \<Rightarrow> nat \<Rightarrow> duration \<Rightarrow> otel_handle \<Rightarrow> 'w \<Rightarrow> otel_handle \<times> 'w"
  ot_SetTracerProvider :: "otel_handle \<Rightarrow> 'w \<Rightarrow> 'w"
  ot_SetPropagators :: "string list \<Rightarrow> 'w \<Rightarrow> 'w"
  ot_Tracer :: "otel_handle \<Rightarrow> string \<Rightarrow> 'w \<Rightarrow> otel_handle \<times> 'w"
  ot_NoopTracer :: "string \<Rightarrow> otel_handle"
  ot_Start :: "otel_handle \<Rightarrow> otel_handle \<Rightarrow> string \<Rightarrow> 'w \<Rightarrow> (otel_handle \<times> otel_handle) \<times> 'w"
  ot_ShutdownProvider :: "otel_handle \<Rightarrow> otel_handle \<Rightarrow> 'w \<Rightarrow> string option \<times> 'w"
  ot_SpanFromContext :: "otel_handle \<Rightarrow> otel_handle"
  ot_ContextWithSpan :: "otel_handle \<Rightarrow> otel_handle \<Rightarrow> otel_handle"
  ot_AddEvent :: "otel_handle \<Rightarrow> string \<Rightarrow> (string \<times> gval) list \<Rightarrow> 'w \<Rightarrow> 'w"
  ot_SetAttributes :: "otel_handle \<Rightarrow> (string \<times> gval) list \<Rightarrow> 'w \<Rightarrow> 'w"
  ot_RecordError :: "otel_handle \<Rightarrow> string \<Rightarrow> 'w \<Rightarrow> 'w"

section \<open>The tracer\<close>

record tracing_config =
  tc_ServiceName :: string
  tc_ServiceVersion :: string
  tc_Environment :: string
  tc_OTLPEndpoint :: string
  tc_Enabled :: bool
  tc_SampleRate :: f64

text \<open>\<open>tr_tp\<close> is nil for a no-op tracer. The tracer that \<open>Start\<close> installs has the zero configuration.\<close>

record tracer =
  tr_tracer :: otel_handle
  tr_tp :: "otel_handle option"
  tr_config :: tracing_config

definition zero_tracing_config :: tracing_config where
  "zero_tracing_config =
     \<lparr>tc_ServiceName = '''', tc_ServiceVersion = '''', tc_Environment = '''', tc_OTLPEndpoint = '''',
      tc_Enabled = False, tc_SampleRate = f64_zero\<rparr>"

definition f64_one :: f64 where
  "f64_one = Fin False 1 0"

text \<open>\<open>x <= 0\<close>, false for NaN.\<close>

definition f64_le_zero :: "f64 \<Rightarrow> bool" where
  "f64_le_zero x = (case x of Fin neg m e \<Rightarrow> neg \<or> m = 0 | Inf neg \<Rightarrow> neg | NaN \<Rightarrow> False)"

definition tracing_defaults :: "tracing_config \<Rightarrow> tracing_config" where
  "tracing_defaults c =
     (let c = (if tc_ServiceName c = '''' then c\<lparr>tc_ServiceName := ''celery-go-worker''\<rparr> else c);
          c = (if tc_ServiceVersion c = '''' then c\<lparr>tc_ServiceVersion := ''unknown''\<rparr> else c);
          c = (if tc_Environment c = '''' then c\<lparr>tc_Environment := ''development''\<rparr> else c);
          c = (if tc_OTLPEndpoint c = '''' then c\<lparr>tc_OTLPEndpoint := ''localhost:4317''\<rparr> else c)
      in if f64_le_zero (tc_SampleRate c) then c\<lparr>tc_SampleRate := f64_one\<rparr> else c)"

datatype tracing_error = ResourceFailed string | ExporterFailed string

definition NewOpenTelemetryTracer ::
    "'w otel \<Rightarrow> tracing_config \<Rightarrow> 'w \<Rightarrow> (tracing_error + tracer) \<times> 'w" where
  "NewOpenTelemetryTracer ot config w =
     (if \<not> tc_Enabled config
      then (Inr \<lparr>tr_tracer = ot_NoopTracer ot '''', tr_tp = None, tr_config = config\<rparr>, w)
      else
        let config = tracing_defaults config in
        case ot_Resource ot
               [(''service.name'', tc_ServiceName config), (''service.version'', tc_ServiceVersion config),
                (''environment'', tc_Environment config)] w of
          (Inl err, w) \<Rightarrow> (Inl (ResourceFailed err), w)
        | (Inr res, w) \<Rightarrow>
            (case ot_Exporter ot (tc_OTLPEndpoint config) w of
               (Inl err, w) \<Rightarrow> (Inl (ExporterFailed err), w)
             | (Inr exporter, w) \<Rightarrow>
                 (case ot_NewProvider ot (tc_SampleRate config) exporter 512 (5 * second) res w of
                    (tp, w) \<Rightarrow>
                      let w = ot_SetTracerProvider ot tp w;
                          w = ot_SetPropagators ot [''tracecontext'', ''baggage''] w
                      in case ot_Tracer ot tp (tc_ServiceName config) w of
                           (tracer, w) \<Rightarrow>
                             (Inr \<lparr>tr_tracer = tracer, tr_tp = Some tp, tr_config = config\<rparr>, w))))"

definition tracer_Start ::
    "'w otel \<Rightarrow> otel_handle \<Rightarrow> string \<Rightarrow> tracer \<Rightarrow> 'w \<Rightarrow> (otel_handle \<times> otel_handle) \<times> 'w" where
  "tracer_Start ot ctx spanName t w = ot_Start ot (tr_tracer t) ctx spanName w"

definition tracer_Shutdown :: "'w otel \<Rightarrow> otel_handle \<Rightarrow> tracer \<Rightarrow> 'w \<Rightarrow> string option \<times> 'w" where
  "tracer_Shutdown ot ctx t w =
     (case tr_tp t of None \<Rightarrow> (None, w) | Some tp \<Rightarrow> ot_ShutdownProvider ot tp ctx w)"

section \<open>The default tracer\<close>

text \<open>The package variable \<open>DefaultTracer\<close>, nil at first, is threaded through.\<close>

definition InitTracer ::
    "'w otel \<Rightarrow> tracing_config \<Rightarrow> tracer option \<Rightarrow> 'w \<Rightarrow> tracing_error option \<times> tracer option \<times> 'w" where
  "InitTracer ot config dt w =
     (case NewOpenTelemetryTracer ot config w of
        (Inl err, w) \<Rightarrow> (Some err, dt, w)
      | (Inr t, w) \<Rightarrow> (None, Some t, w))"

definition noop_tracer :: "'w otel \<Rightarrow> tracer" where
  "noop_tracer ot = \<lparr>tr_tracer = ot_NoopTracer ot '''', tr_tp = None, tr_config = zero_tracing_config\<rparr>"

definition default_Start ::
    "'w otel \<Rightarrow> otel_handle \<Rightarrow> string \<Rightarrow> tracer option \<Rightarrow> 'w \<Rightarrow>
     (otel_handle \<times> otel_handle) \<times> tracer option \<times> 'w" where
  "default_Start ot ctx spanName dt w =
     (let t = (case dt of None \<Rightarrow> noop_tracer ot | Some t \<Rightarrow> t) in
      case tracer_Start ot ctx spanName t w of (r, w) \<Rightarrow> (r, Some t, w))"

definition default_tracer_Shutdown ::
    "'w otel \<Rightarrow> otel_handle \<Rightarrow> tracer option \<Rightarrow> 'w \<Rightarrow> string option \<times> 'w" where
  "default_tracer_Shutdown ot ctx dt w =
     (case dt of None \<Rightarrow> (None, w) | Some t \<Rightarrow> tracer_Shutdown ot ctx t w)"

section \<open>Spans\<close>

definition SpanFromContext :: "'w otel \<Rightarrow> otel_handle \<Rightarrow> otel_handle" where
  "SpanFromContext ot ctx = ot_SpanFromContext ot ctx"

definition ContextWithSpan :: "'w otel \<Rightarrow> otel_handle \<Rightarrow> otel_handle \<Rightarrow> otel_handle" where
  "ContextWithSpan ot ctx span = ot_ContextWithSpan ot ctx span"

definition AddEvent :: "'w otel \<Rightarrow> otel_handle \<Rightarrow> string \<Rightarrow> (string \<times> gval) list \<Rightarrow> 'w \<Rightarrow> 'w" where
  "AddEvent ot ctx name attrs w = ot_AddEvent ot (ot_SpanFromContext ot ctx) name attrs w"

definition SetAttributes :: "'w otel \<Rightarrow> otel_handle \<Rightarrow> (string \<times> gval) list \<Rightarrow> 'w \<Rightarrow> 'w" where
  "SetAttributes ot ctx attrs w = ot_SetAttributes ot (ot_SpanFromContext ot ctx) attrs w"

definition RecordError :: "'w otel \<Rightarrow> otel_handle \<Rightarrow> string \<Rightarrow> 'w \<Rightarrow> 'w" where
  "RecordError ot ctx err w = ot_RecordError ot (ot_SpanFromContext ot ctx) err w"

section \<open>Life of the default tracer\<close>

lemma InitTracer_error: "InitTracer ot c dt w = (Some err, dt', w') \<Longrightarrow> dt' = dt"
  by (auto simp: InitTracer_def split: prod.splits sum.splits)

lemma default_Start_keeps: "default_Start ot ctx n (Some t) w = (r, dt, w') \<Longrightarrow> dt = Some t"
  by (auto simp: default_Start_def Let_def split: prod.splits)

end
