(* ===== verification/WorkerMain.thy ===== *)
theory WorkerMain
  imports CommandLine SqsBroker PoolThreads Worker JsonProtocol Metrics Tracing
begin

text \<open>
  The program (\<open>cmd/worker/main.go\<close>): it reads the flags, sets up the broker, the pool and the worker, starts
  them, waits for the termination signal, and shuts everything down. It composes the models of the
  components: \<open>wrun\<close> is what the goroutines of the worker do, \<open>run\<close> what those of the pool do.

  What main takes from outside is the record \<open>main_env\<close>: the operating system, AWS, the metrics and
  tracing libraries, and which steps the goroutines make. An end by \<open>os.Exit\<close>, by a fatal log message or by a
  panic has the exit status of the process; \<open>os.Exit\<close> and a fatal message run no deferred call.
\<close>

section \<open>What main meets\<close>

record 'w main_env =
  ma_os :: main_os
  ma_aws :: "sdk_error option"
  ma_sqs :: "string \<Rightarrow> string option \<Rightarrow> sqs_client"
  ma_prom :: "'w prometheus"
  ma_otel :: "'w otel"
  ma_world :: 'w
  ma_starts :: "nat \<Rightarrow> spawn"
  ma_tasks :: "recv_env action list"
  ma_schedule :: "(step_env \<times> nat) list"
  ma_late_tasks :: "recv_env action list"
  ma_late_schedule :: "(step_env \<times> nat) list"
  ma_stop_timeout :: bool
  ma_stop_ctx :: otel_handle
  ma_stop_plan :: stop_plan
  ma_deferred_plan :: stop_plan

text \<open>Nothing in the program sets an environment variable, so that \<open>os.Environ\<close> is the environment main was
  started with, in main and when a child is made.\<close>

definition with_environ :: "string list \<Rightarrow> spawn \<Rightarrow> spawn" where
  "with_environ environ sw = sw\<lparr>sw_os := (sw_os sw)\<lparr>os_Environ := environ\<rparr>\<rparr>"

definition starts_of :: "'w main_env \<Rightarrow> nat \<Rightarrow> spawn" where
  "starts_of env n = with_environ (mo_Environ (ma_os env)) (ma_starts env n)"

definition schedule_in :: "string list \<Rightarrow> (step_env \<times> nat) list \<Rightarrow> (step_env \<times> nat) list" where
  "schedule_in environ schedule = map (\<lambda>(e, k). (e\<lparr>te_spawn := with_environ environ (te_spawn e)\<rparr>, k)) schedule"

section \<open>Setting up\<close>

definition setupObservability ::
    "'w prometheus \<Rightarrow> 'w otel \<Rightarrow> Config \<Rightarrow> 'w \<Rightarrow> (metrics option \<times> tracer option \<times> 'w) option" where
  "setupObservability pm ot config w =
     (case InitMetrics pm
             \<lparr>mc_Enabled = cf_MetricsEnabled config, mc_Namespace = ''celery_go'', mc_Subsystem = '''',
              mc_HTTPEndpoint = cf_MetricsEndpoint config\<rparr> w of
        None \<Rightarrow> None
      | Some (dm, w) \<Rightarrow>
          if cf_TracingEnabled config
          then (case InitTracer ot
                       \<lparr>tc_ServiceName = cf_ServiceName config, tc_ServiceVersion = cf_ServiceVersion config,
                        tc_Environment = cf_Environment config, tc_OTLPEndpoint = cf_TracingEndpoint config,
                        tc_Enabled = True, tc_SampleRate = f64_one\<rparr> None w of
                  (err, dt, w) \<Rightarrow> Some (dm, dt, w))
          else Some (dm, None, w))"

datatype setup_error = AwsConfigFailed sdk_error | NewBrokerFailed broker_error

definition sqs_client_of :: "(string \<Rightarrow> string option \<Rightarrow> sqs_client) \<Rightarrow> Config \<Rightarrow> sqs_client" where
  "sqs_client_of sqs config =
     sqs (cf_Region config) (if cf_Endpoint config \<noteq> '''' then Some (cf_Endpoint config) else None)"

text \<open>The fields that \<open>setupBroker\<close> does not set have their zero values.\<close>

definition broker_config_of :: "Config \<Rightarrow> broker_config" where
  "broker_config_of config =
     \<lparr>c_QueueURL = cf_QueueURL config, c_Region = cf_Region config, c_Endpoint = cf_Endpoint config,
      c_MaxMessages = cf_MaxMessages config, c_VisibilityTimeout = cf_VisibilityTimeout config,
      c_WaitTimeSeconds = cf_WaitTimeSeconds config, c_FetchMode = '''', c_BatchSize = 0, c_MaxPrefetch = 0\<rparr>"

definition setupBroker :: "sdk_error option \<Rightarrow> Config \<Rightarrow> setup_error + broker" where
  "setupBroker aws config =
     (case aws of
        Some err \<Rightarrow> Inl (AwsConfigFailed err)
      | None \<Rightarrow>
          (case NewSQSFIFOBroker (broker_config_of config) of
             Inl err \<Rightarrow> Inl (NewBrokerFailed err)
           | Inr b \<Rightarrow> Inr b))"

definition pool_config_of :: "Config \<Rightarrow> PoolConfig" where
  "pool_config_of config =
     \<lparr>pc_MinProcesses = cf_MinProcesses config, pc_MaxProcesses = cf_MaxProcesses config,
      pc_MaxTasksPerProcess = cf_MaxTasksPerProcess config, pc_MaxIdleTime = cf_MaxIdleTime config,
      pc_MaxProcessAge = cf_MaxProcessAge config,
      pc_ProcessStartupTimeout = cf_ProcessStartupTimeout config,
      pc_ProcessShutdownTimeout = cf_ProcessShutdownTimeout config,
      pc_TaskExecutionTimeout = cf_TaskTimeout config, pc_ProcessEnv = cf_ProcessEnv config,
      pc_PythonPath = cf_PythonPath config, pc_WorkerScriptPath = cf_WorkerScriptPath config\<rparr>"

definition setupProcessPool :: "Config \<Rightarrow> pool" where
  "setupProcessPool config = NewProcessPool (pool_config_of config) JSONProtocol"

definition worker_config_of :: "Config \<Rightarrow> WorkerConfig" where
  "worker_config_of config =
     \<lparr>wc_Concurrency = cf_Concurrency config, wc_QueuePrefetch = cf_QueuePrefetch config,
      wc_TaskTimeout = cf_TaskTimeout config, wc_ShutdownTimeout = cf_ShutdownTimeout config,
      wc_RetryBackoff = \<lparr>rb_InitialInterval = 1 * second, rb_MaxInterval = 30 * second,
        rb_Multiplier = Fin False 1 1, rb_RandomizationFactor = Fin False 1 (- 1)\<rparr>,
      wc_HeartbeatInterval = cf_HeartbeatInterval config\<rparr>"

text \<open>The worker with its goroutines, before the first step.\<close>

definition setupWorker :: "Config \<Rightarrow> broker \<Rightarrow> broker sys" where
  "setupWorker config b = boot JSONProtocol (worker_config_of config) b"

text \<open>The pool after \<open>Start\<close>: the monitor and the workers, all waiting. No task exists before the worker
  is started, so \<open>Start\<close> runs alone.\<close>

definition serving :: "pool \<Rightarrow> pstate" where
  "serving p = (p, (Ready, []) # replicate (nat (pc_MaxProcesses (pl_config p))) (Ready, []))"

record 'w program =
  pg_sys :: "broker sys"
  pg_pool :: pstate
  pg_metrics :: "metrics option"
  pg_tracer :: "tracer option"
  pg_world :: 'w

datatype fatal =
    BrokerSetup setup_error
  | BrokerConnect broker_error
  | PoolStart pool_error pool

datatype 'w setting_up = Exited int | SetupPanic | Fatal fatal | Serving "'w program"

definition main_setup :: "'w main_env \<Rightarrow> 'w setting_up" where
  "main_setup env =
     (case parseFlags (ma_os env) of
        Inl status \<Rightarrow> Exited status
      | Inr config \<Rightarrow>
          (case setupObservability (ma_prom env) (ma_otel env) config (ma_world env) of
             None \<Rightarrow> SetupPanic
           | Some (dm, dt, w) \<Rightarrow>
               (case setupBroker (ma_aws env) config of
                  Inl err \<Rightarrow> Fatal (BrokerSetup err)
                | Inr b \<Rightarrow>
                    (case Connect (sqs_client_of (ma_sqs env) config) b of
                       (Some err, b) \<Rightarrow> Fatal (BrokerConnect err)
                     | (None, b) \<Rightarrow>
                         (case pool_Start (starts_of env) (setupProcessPool config) of
                            (Some err, p) \<Rightarrow> Fatal (PoolStart err p)
                          | (None, p) \<Rightarrow>
                              Serving \<lparr>pg_sys = setupWorker config b, pg_pool = serving p,
                                       pg_metrics = dm, pg_tracer = dt, pg_world = w\<rparr>)))))"

section \<open>Running\<close>

text \<open>The steps that main itself makes, not the goroutines.\<close>

fun by_main :: "'e action \<Rightarrow> bool" where
  "by_main Shutdown = True"
| "by_main Cancel = True"
| "by_main _ = False"

text \<open>The goroutines make the given steps, in the environment of main; \<open>None\<close> when they cannot.\<close>

definition goroutines ::
    "'w main_env \<Rightarrow> recv_env action list \<Rightarrow> (step_env \<times> nat) list \<Rightarrow> 'w program \<Rightarrow> 'w program option" where
  "goroutines env tasks schedule pg =
     (if \<not> list_all (\<lambda>a. \<not> by_main a) tasks then None
      else case (wrun ReceiveMessages AcknowledgeMessage tasks (pg_sys pg),
                 run (schedule_in (mo_Environ (ma_os env)) schedule) (pg_pool pg)) of
             (Some s, Some ps) \<Rightarrow> Some (pg\<lparr>pg_sys := s, pg_pool := ps\<rparr>)
           | _ \<Rightarrow> None)"

section \<open>Shutting down\<close>

record 'w main_end =
  en_status :: int
  en_sys :: "broker sys"
  en_pool :: pool
  en_world :: 'w

text \<open>The calls main deferred, in the order they run; a panic of one does not stop the others. A
  process that panics exits with status 2.\<close>

definition run_deferred ::
    "stop_plan \<Rightarrow> bool \<Rightarrow> broker sys \<Rightarrow> pool \<Rightarrow> 'w \<Rightarrow> 'w main_end" where
  "run_deferred plan panicking s p w =
     (case pool_Stop plan p of
        (err, p) \<Rightarrow>
          (case Close (y_broker s) of
             (_, b) \<Rightarrow>
               \<lparr>en_status = (if panicking \<or> err \<noteq> None then 2 else 0), en_sys = s\<lparr>y_broker := b\<rparr>,
                en_pool = p, en_world = w\<rparr>))"

text \<open>From the signal on: the signal handler cancels the context; main stops the worker, while the
  goroutines go on; when \<open>Stop\<close> has returned main stops the pool, closes the broker and shuts the
  observability down. Every error is only logged. Of the three only the stop of the pool can panic.\<close>

definition main_shutdown :: "'w main_env \<Rightarrow> 'w program \<Rightarrow> 'w main_end option" where
  "main_shutdown env pg =
     (case wrun ReceiveMessages AcknowledgeMessage [Cancel, Shutdown] (pg_sys pg) of
        None \<Rightarrow> None
      | Some s \<Rightarrow>
          (case goroutines env (ma_late_tasks env) (ma_late_schedule env) (pg\<lparr>pg_sys := s\<rparr>) of
             None \<Rightarrow> None
           | Some pg \<Rightarrow>
               (case worker_Stop_wait (ma_stop_timeout env) (y_worker (pg_sys pg)) of
                  None \<Rightarrow> None
                | Some _ \<Rightarrow>
                    (case pool_Stop (ma_stop_plan env) (fst (pg_pool pg)) of
                       (Some _, p) \<Rightarrow> Some (run_deferred (ma_deferred_plan env) True (pg_sys pg) p (pg_world pg))
                     | (None, p) \<Rightarrow>
                         (case Close (y_broker (pg_sys pg)) of
                            (_, b) \<Rightarrow>
                              let s = (pg_sys pg)\<lparr>y_broker := b\<rparr>;
                                  w = snd (default_metrics_Shutdown (ma_prom env) (pg_metrics pg) (pg_world pg));
                                  w = snd (default_tracer_Shutdown (ma_otel env) (ma_stop_ctx env) (pg_tracer pg) w)
                              in Some (run_deferred (ma_deferred_plan env) False s p w))))))"

section \<open>The whole program\<close>

datatype 'w outcome = EarlyExit int | FatalExit int fatal | Ended "'w main_end"

text \<open>\<open>None\<close>: the steps given are not those of a run that comes to its end.\<close>

definition main :: "'w main_env \<Rightarrow> 'w outcome option" where
  "main env =
     (case main_setup env of
        Exited status \<Rightarrow> Some (EarlyExit status)
      | SetupPanic \<Rightarrow> Some (EarlyExit 2)
      | Fatal f \<Rightarrow> Some (FatalExit 1 f)
      | Serving pg \<Rightarrow>
          (case goroutines env (ma_tasks env) (ma_schedule env) pg of
             None \<Rightarrow> None
           | Some pg \<Rightarrow> map_option Ended (main_shutdown env pg)))"

end
