(* ===== verification/MainLemmas.thy ===== *)
theory MainLemmas
  imports WorkerMain WorkerLemmas PoolClaims
begin

text \<open>
  Lemmas on the whole program: what the goroutines keep while main serves and shuts down, and that the
  start of the pool is a run of its goroutines.
\<close>

section \<open>The processes while the goroutines run\<close>

text \<open>Every process object is under its id and was started, and the map has no id without an object.\<close>

definition heap_ok :: "pool \<Rightarrow> bool" where
  "heap_ok p \<longleftrightarrow> (\<forall>i q. pl_heap p i = Some q \<longrightarrow> runnable q \<and> p_id q = i) \<and>
     set (pl_processes p) \<subseteq> dom (pl_heap p)"

fun registers_ok :: "instr \<Rightarrow> bool" where
  "registers_ok (Register q m) = runnable q"
| "registers_ok _ = True"

lemma registers_ok_created [simp]: "registers_ok (created m)" "registers_ok (create_failed m)"
  by (cases m; simp)+

lemma process_step_frame [simp]:
  "p_id (mark_busy t tk q) = p_id q" "p_id (snd (send_task ex tk q)) = p_id q"
  "p_id (snd (await_result ex tk q)) = p_id q" "runnable (snd (send_task ex tk q)) = runnable q"
  "runnable (snd (await_result ex tk q)) = runnable q"
  by (auto simp: send_task_def await_result_def mark_busy_def mark_done_def mark_error_def setState_def
      write_stdin_def runnable_def Let_def split: sum.splits wait.splits option.splits scan_end.splits)

lemma heap_ok_upd: "heap_ok p \<Longrightarrow> pl_heap p i \<noteq> None \<Longrightarrow> runnable q \<Longrightarrow> p_id q = i \<Longrightarrow> heap_ok (upd_process i q p)"
  by (auto simp: heap_ok_def)

lemma heap_ok_recycle_stop: "heap_ok p \<Longrightarrow> heap_ok (recycle_stop env i p)"
proof (cases "pl_heap p i")
  case (Some q)
  assume ok: "heap_ok p"
  obtain r acts q' where s: "Stop env True q = (r, acts, q')" by (metis prod_cases3)
  from ok Some have "runnable q" "p_id q = i" by (simp_all add: heap_ok_def)
  with Stop_frame [OF s] heap_ok_upd [OF ok, of i q'] Some s show ?thesis by (simp add: recycle_stop_def)
qed (simp add: recycle_stop_def)

lemma istep_heap_ok:
  assumes "istep e p c = Some (p', c')" "heap_ok p" "registers_ok c"
  shows "heap_ok p' \<and> registers_ok c' \<and> pl_shutdown p' = pl_shutdown p \<and> pl_config p' = pl_config p"
proof (cases c)
  case (Begin t i)
  with assms show ?thesis
    by (auto elim!: on_process_cases intro!: heap_ok_upd) (auto simp: heap_ok_def)
next
  case (Send t i)
  then obtain q q' where q: "pl_heap p i = Some q" "p' = upd_process i q' p" "registers_ok c'"
    "q' = snd (send_task (te_exec e) t q)"
    using assms(1) by (auto elim!: on_process_cases split: prod.splits option.splits)
  with assms(2) have "heap_ok p'" by (auto intro!: heap_ok_upd) (auto simp: heap_ok_def)
  with q show ?thesis by simp
next
  case (Await t i)
  with assms show ?thesis
    by (auto elim!: on_process_cases intro!: heap_ok_upd) (auto simp: heap_ok_def)
next
  case (RecycleStop i)
  with assms show ?thesis by (auto intro: heap_ok_recycle_stop)
next
  case (Spawn m)
  with assms show ?thesis
    using spawn_process_ok(2) by (auto simp: heap_ok_def split: sum.splits if_splits)
next
  case (Register q m)
  with assms show ?thesis by (auto simp: heap_ok_def create_register_def ID_def split: if_splits)
qed (use assms in \<open>auto simp: heap_ok_def pool_sections updateProcessStats_def store_stats_def
  split: list.splits if_splits option.splits\<close>)

definition threads_ok :: "pstate \<Rightarrow> bool" where
  "threads_ok s \<longleftrightarrow> heap_ok (fst s) \<and> (\<forall>g \<in> set (snd s). registers_ok (fst g))"

lemma pstep_ok:
  assumes "pstep a (p, gs) = Some (p', gs')" "threads_ok (p, gs)"
  shows "threads_ok (p', gs') \<and> pl_shutdown p' = pl_shutdown p"
  using assms(1)
proof (cases rule: pstep_cases)
  case (1 e k c js p1 c1 js1)
  have c: "registers_ok c" using assms(2) nth_mem [OF 1(2)] 1(3) by (auto simp: threads_ok_def)
  have p: "heap_ok p" using assms(2) by (simp add: threads_ok_def)
  from 1(4) have "heap_ok p1 \<and> registers_ok c1 \<and> pl_shutdown p1 = pl_shutdown p"
  proof (cases rule: gstep_cases)
    case job
    with p show ?thesis by (auto simp: next_job_def split: list.splits if_splits job.splits)
  next
    case (ended i)
    with p show ?thesis by (simp add: recycle_end_def heap_ok_def)
  next
    case instr
    from istep_heap_ok [OF instr(1) p c] show ?thesis by simp
  qed
  with 1(5) assms(2) show ?thesis
    by (auto simp: threads_ok_def dest!: set_update_subset_insert [THEN subsetD])
qed

lemma run_ok:
  "run as s = Some s' \<Longrightarrow> threads_ok s \<Longrightarrow> threads_ok s' \<and> pl_shutdown (fst s') = pl_shutdown (fst s)"
proof (induction as arbitrary: s)
  case (Cons a as)
  then obtain t where t: "pstep a s = Some t" "run as t = Some s'" by (auto split: option.splits)
  have "threads_ok t \<and> pl_shutdown (fst t) = pl_shutdown (fst s)"
    using pstep_ok [of a "fst s" "snd s" "fst t" "snd t"] t(1) Cons.prems(2) by simp
  with Cons.IH [OF t(2)] show ?case by simp
qed simp

section \<open>Stopping every process\<close>

lemma stop_each_all:
  assumes "heap_ok p" "i \<in> set (pl_processes p)"
    "i \<in> fst ` set order \<or> (\<exists>q. pl_heap p i = Some q \<and> p_state q = ProcessStateStopped)"
  shows "\<exists>q. pl_heap (stop_each order p) i = Some q \<and> p_state q = ProcessStateStopped"
  using assms
proof (induction order p rule: stop_each.induct)
  case (2 j env order p)
  let ?p = "recycle_stop env j p"
  have "\<exists>q. pl_heap ?p i = Some q \<and> p_state q = ProcessStateStopped" if "j = i"
  proof -
    obtain q where q: "pl_heap p i = Some q" "runnable q" using 2(2,3) by (auto simp: heap_ok_def)
    obtain r acts q' where s: "Stop env True q = (r, acts, q')" by (metis prod_cases3)
    with q Stop_stopped [OF q(2) s] that show ?thesis by (simp add: recycle_stop_def)
  qed
  then have "i \<in> fst ` set order \<or> (\<exists>q. pl_heap ?p i = Some q \<and> p_state q = ProcessStateStopped)"
    using 2(4) recycle_stop_heap [of i j env p] by (cases "j = i") auto
  with 2(1) [OF heap_ok_recycle_stop [OF 2(2)]] 2(3) show ?case by simp
qed simp

section \<open>The worker keeps what main decides\<close>

lemma goroutine_step_flags:
  assumes "wstep receive ack a s = Some s'" "\<not> by_main a"
  shows "w_shutdown (y_worker s') = w_shutdown (y_worker s) \<and> y_cancelled s' = y_cancelled s"
  using assms(1)
proof (cases rule: wstep_cases)
  case (result k now r p m)
  then show ?thesis by (simp add: set_job_def finish_task_def upd_wstats_def upd_info_def)
qed (use assms(2) in \<open>auto simp: set_job_def section_defs upd_wstats_def upd_info_def\<close>)

lemma goroutine_run_flags:
  "wrun receive ack as s = Some s' \<Longrightarrow> list_all (\<lambda>a. \<not> by_main a) as \<Longrightarrow>
     w_shutdown (y_worker s') = w_shutdown (y_worker s) \<and> y_cancelled s' = y_cancelled s"
proof (induction as arbitrary: s)
  case (Cons a as)
  then obtain t where t: "wstep receive ack a s = Some t" "wrun receive ack as t = Some s'"
    by (auto split: option.splits)
  from goroutine_step_flags [OF t(1)] Cons.IH [OF t(2)] Cons.prems(2) show ?case by simp
qed simp

section \<open>The start of the pool is a run of its goroutines\<close>

definition start_env :: "step_env \<Rightarrow> spawn \<Rightarrow> step_env" where
  "start_env e sw = e\<lparr>te_spawn := sw\<rparr>"

text \<open>One successful creation by the goroutine that starts the pool, in seven steps.\<close>

lemma create_run:
  assumes "createProcess sw p = (None, p')" "pl_heap p (spawn_id sw) = None"
  shows "run (replicate 7 (start_env e sw, 0)) (p, (Ready, CreateFirst # js) # gs) = Some (p', (Ready, js) # gs)"
  using assms(1)
proof (cases rule: createProcess_cases)
  case (created q)
  have q: "p_id q = spawn_id sw" using spawn_process_ok(1) [OF created(3)] by (simp add: spawn_id_def)
  have s: "spawn_process (te_spawn (start_env e sw)) (create_begin p) = Inr q" using created(3) by (simp add: start_env_def)
  have h: "pl_heap (create_begin p) (p_id q) = None" using assms(2) q by (simp add: create_begin_def)
  have "idle_append (p_id q) (create_count q (create_register q (upd_process (p_id q) q (create_begin p)))) = p'"
    using created(4) by (simp add: create_register_def upd_process_def ID_def)
  with created(1) s h show ?thesis
    by (simp add: eval_nat_numeral pstep_def gstep_def next_job_def)
qed simp_all

lemma create_initial_run:
  "create_initial n sp p = (None, p') \<Longrightarrow> fresh_spawns sp p \<Longrightarrow>
     (\<exists>as. run as (p, (Ready, replicate n CreateFirst) # gs) = Some (p', (Ready, []) # gs)) \<and>
     pl_config p' = pl_config p"
proof (induction n arbitrary: sp p)
  case 0
  then show ?case by (auto intro: exI [of _ "[]"])
next
  case (Suc n)
  from Suc.prems(1) obtain p1 where c: "createProcess (sp 0) p = (None, p1)"
    "create_initial n (\<lambda>k. sp (Suc k)) p1 = (None, p')" by (auto split: prod.splits option.splits)
  have "pl_heap p (spawn_id (sp 0)) = None" using Suc.prems(2) by (simp add: fresh_spawns_def)
  note one = create_run [OF c(1) this, of undefined "replicate n CreateFirst" gs]
  from Suc.IH [OF c(2) createProcess_fresh [OF Suc.prems(2) c(1)]] obtain as
    where as: "run as (p1, (Ready, replicate n CreateFirst) # gs) = Some (p', (Ready, []) # gs)"
    "pl_config p' = pl_config p1" by blast
  have "run (replicate 7 (start_env undefined (sp 0), 0) @ as) (p, (Ready, replicate (Suc n) CreateFirst) # gs) =
      Some (p', (Ready, []) # gs)"
    using one as(1) by (simp add: run_append)
  with as(2) createProcess_frame(1) [OF c(1)] show ?case by metis
qed

lemma start_run:
  assumes "pool_Start sp (NewProcessPool c pr) = (None, p)" "fresh_spawns sp (NewProcessPool c pr)"
  shows "\<exists>as. run as (started c pr) = Some (serving p)"
  using create_initial_run [OF assms(1) [unfolded pool_Start_def] assms(2)]
  by (auto simp: started_def serving_def Let_def)

lemma start_reach:
  assumes "pool_Start sp (NewProcessPool c pr) = (None, p)" "fresh_spawns sp (NewProcessPool c pr)"
  shows "reach c pr (serving p)"
  using start_run [OF assms] run_reach [OF reach_start] by blast

section \<open>What main sets up\<close>

lemma main_setup_serving:
  assumes "main_setup env = Serving pg"
  obtains config dm dt w b0 b p where "parseFlags (ma_os env) = Inr config"
    "setupObservability (ma_prom env) (ma_otel env) config (ma_world env) = Some (dm, dt, w)"
    "setupBroker (ma_aws env) config = Inr b0" "Connect (sqs_client_of (ma_sqs env) config) b0 = (None, b)"
    "pool_Start (starts_of env) (setupProcessPool config) = (None, p)"
    "pg = \<lparr>pg_sys = setupWorker config b, pg_pool = serving p, pg_metrics = dm, pg_tracer = dt, pg_world = w\<rparr>"
  using assms
  by (auto simp: main_setup_def split: sum.splits option.splits prod.splits)

lemma goroutines_cases:
  assumes "goroutines env acts schedule pg = Some pg'"
  obtains s ps where "list_all (\<lambda>a. \<not> by_main a) acts"
    "wrun ReceiveMessages AcknowledgeMessage acts (pg_sys pg) = Some s" "run (schedule_in (mo_Environ (ma_os env)) schedule) (pg_pool pg) = Some ps"
    "pg' = pg\<lparr>pg_sys := s, pg_pool := ps\<rparr>"
  using assms by (auto simp: goroutines_def split: if_splits option.splits)

lemma new_heap_ok: "heap_ok (NewProcessPool c pr)" "\<not> pl_shutdown (NewProcessPool c pr)"
  by (simp_all add: heap_ok_def NewProcessPool_def Let_def)

lemma createProcess_heap_ok:
  assumes "createProcess sw p = (res, p')" "heap_ok p"
  shows "heap_ok p' \<and> pl_shutdown p' = pl_shutdown p"
  using assms(1)
proof (cases rule: createProcess_cases)
  case (created q)
  with assms(2) spawn_process_ok(2) [OF created(3)] show ?thesis
    by (auto simp: heap_ok_def pool_sections ID_def split: if_splits)
qed (use assms(2) in \<open>simp_all add: heap_ok_def pool_sections\<close>)

lemma create_initial_heap_ok:
  "create_initial n sp p = (res, p') \<Longrightarrow> heap_ok p \<Longrightarrow> heap_ok p' \<and> pl_shutdown p' = pl_shutdown p"
proof (induction n arbitrary: sp p)
  case (Suc n)
  obtain r p1 where c: "createProcess (sp 0) p = (r, p1)" by fastforce
  from createProcess_heap_ok [OF c Suc.prems(2)] Suc.IH [of "\<lambda>k. sp (Suc k)" p1] Suc.prems(1) c show ?case
    by (auto split: option.splits)
qed simp

lemma serving_ok:
  assumes "pool_Start sp (setupProcessPool config) = (None, p)"
  shows "threads_ok (serving p) \<and> \<not> pl_shutdown p"
  using create_initial_heap_ok [OF assms [unfolded pool_Start_def]] new_heap_ok
  by (auto simp: setupProcessPool_def serving_def threads_ok_def)

section \<open>The commands of the children\<close>

text \<open>Every process object, in the heap or about to be registered, has a command of which \<open>C\<close> holds.\<close>

fun register_cmd :: "(string \<Rightarrow> command \<Rightarrow> bool) \<Rightarrow> instr \<Rightarrow> bool" where
  "register_cmd C (Register q m) = C (p_id q) (p_cmd q)"
| "register_cmd C _ = True"

lemma register_cmd_created [simp]: "register_cmd C (created m)" "register_cmd C (create_failed m)"
  by (cases m; simp)+

definition heap_cmds :: "(string \<Rightarrow> command \<Rightarrow> bool) \<Rightarrow> pool \<Rightarrow> bool" where
  "heap_cmds C p \<longleftrightarrow> (\<forall>i q. pl_heap p i = Some q \<longrightarrow> C i (p_cmd q))"

definition cmds_ok :: "(string \<Rightarrow> command \<Rightarrow> bool) \<Rightarrow> PoolConfig \<Rightarrow> pstate \<Rightarrow> bool" where
  "cmds_ok C c s \<longleftrightarrow> pl_config (fst s) = c \<and> heap_cmds C (fst s) \<and> (\<forall>g \<in> set (snd s). register_cmd C (fst g))"

text \<open>The children that a start makes in a pool with this configuration.\<close>

definition spawns_cmd :: "(string \<Rightarrow> command \<Rightarrow> bool) \<Rightarrow> PoolConfig \<Rightarrow> spawn \<Rightarrow> bool" where
  "spawns_cmd C c sw \<longleftrightarrow> (\<forall>p q. pl_config p = c \<longrightarrow> spawn_process sw p = Inr q \<longrightarrow> C (p_id q) (p_cmd q))"

lemma process_step_cmd [simp]:
  "p_cmd (mark_busy t tk q) = p_cmd q" "p_cmd (snd (send_task ex tk q)) = p_cmd q"
  "p_cmd (snd (await_result ex tk q)) = p_cmd q"
  by (auto simp: send_task_def await_result_def mark_busy_def mark_done_def mark_error_def setState_def
      write_stdin_def Let_def split: sum.splits wait.splits option.splits scan_end.splits)

lemma Stop_cmd: "Stop env graceful q = (r, acts, q') \<Longrightarrow> p_cmd q' = p_cmd q"
  by (auto simp: Stop_def Let_def setState_def write_stdin_def split: if_splits sum.splits prod.splits)

lemma heap_cmds_upd: "heap_cmds C p \<Longrightarrow> C i (p_cmd q) \<Longrightarrow> heap_cmds C (upd_process i q p)"
  by (simp add: heap_cmds_def)

lemma heap_cmds_stop: "heap_cmds C p \<Longrightarrow> heap_cmds C (recycle_stop env i p)"
proof (cases "pl_heap p i")
  case (Some q)
  assume ok: "heap_cmds C p"
  obtain r acts q' where s: "Stop env True q = (r, acts, q')" by (metis prod_cases3)
  from ok Some Stop_cmd [OF s] have "C i (p_cmd q')" by (simp add: heap_cmds_def)
  with heap_cmds_upd [OF ok this] Some s show ?thesis by (simp add: recycle_stop_def)
qed (simp add: recycle_stop_def)

lemma istep_cmds:
  assumes "istep e p c = Some (p', c')" "heap_cmds C p" "register_cmd C c" "spawns_cmd C (pl_config p) (te_spawn e)"
  shows "heap_cmds C p' \<and> register_cmd C c'"
proof (cases c)
  case (Begin t i)
  with assms show ?thesis by (auto simp: heap_cmds_def elim!: on_process_cases split: if_splits)
next
  case (Send t i)
  then obtain q q' where q: "pl_heap p i = Some q" "p' = upd_process i q' p" "register_cmd C c'"
    "q' = snd (send_task (te_exec e) t q)"
    using assms(1) by (auto elim!: on_process_cases split: prod.splits option.splits)
  with assms(2) have "heap_cmds C p'" by (auto simp: heap_cmds_def split: if_splits)
  with q show ?thesis by simp
next
  case (Await t i)
  with assms show ?thesis by (auto simp: heap_cmds_def elim!: on_process_cases split: if_splits)
next
  case (RecycleStop i)
  with assms show ?thesis by (auto intro: heap_cmds_stop)
next
  case (Spawn m)
  with assms show ?thesis by (auto simp: heap_cmds_def spawns_cmd_def split: sum.splits if_splits)
next
  case (Register q m)
  with assms show ?thesis by (auto simp: heap_cmds_def create_register_def ID_def split: if_splits)
qed (use assms in \<open>auto simp: heap_cmds_def pool_sections store_stats_def
  split: list.splits if_splits option.splits\<close>)

lemma pstep_cmds:
  assumes "pstep (e, k) s = Some s'" "cmds_ok C c s" "spawns_cmd C c (te_spawn e)"
  shows "cmds_ok C c s'"
proof -
  obtain p gs where s: "s = (p, gs)" by (cases s)
  from assms(1) [unfolded s] show ?thesis
  proof (cases rule: pstep_cases)
    case (1 e' k' i js p1 i1 js1)
    have i: "register_cmd C i" using assms(2) s nth_mem [OF 1(2)] 1(3) by (auto simp: cmds_ok_def)
    have p: "heap_cmds C p" "pl_config p = c" using assms(2) s by (simp_all add: cmds_ok_def)
    have "pl_config p1 = c" using gstep_grows [OF 1(4)] p(2) by simp
    moreover from 1(4) have "heap_cmds C p1 \<and> register_cmd C i1"
    proof (cases rule: gstep_cases)
      case job
      with p(1) show ?thesis by (auto simp: next_job_def split: list.splits if_splits job.splits)
    next
      case (ended i)
      with p(1) show ?thesis by (simp add: recycle_end_def heap_cmds_def)
    next
      case instr
      from istep_cmds [OF instr(1) p(1) i] 1(1) assms(3) p(2) show ?thesis by simp
    qed
    ultimately show ?thesis
      using 1(5) assms(2) s by (auto simp: cmds_ok_def dest!: set_update_subset_insert [THEN subsetD])
  qed
qed

lemma run_cmds:
  "run as s = Some s' \<Longrightarrow> cmds_ok C c s \<Longrightarrow> \<forall>(e, k) \<in> set as. spawns_cmd C c (te_spawn e) \<Longrightarrow> cmds_ok C c s'"
proof (induction as arbitrary: s)
  case (Cons a as)
  then obtain t where t: "pstep a s = Some t" "run as t = Some s'" by (auto split: option.splits)
  obtain e k where a: "a = (e, k)" by (cases a)
  with pstep_cmds [of e k s t C c] t(1) Cons.prems have "cmds_ok C c t" by simp
  with Cons.IH [OF t(2)] Cons.prems(3) show ?case by simp
qed simp

lemma createProcess_cmds:
  assumes "createProcess sw p = (res, p')" "heap_cmds C p" "spawns_cmd C (pl_config p) sw"
  shows "heap_cmds C p'"
  using assms(1)
proof (cases rule: createProcess_cases)
  case (created q)
  have "pl_config (create_begin p) = pl_config p" by (simp add: create_begin_def)
  with created(3) assms(3) have "C (p_id q) (p_cmd q)" by (simp add: spawns_cmd_def)
  with created(4) assms(2) show ?thesis by (simp add: heap_cmds_def pool_sections ID_def)
qed (use assms(2) in \<open>simp_all add: heap_cmds_def pool_sections\<close>)

lemma create_initial_cmds:
  "create_initial n sp p = (res, p') \<Longrightarrow> heap_cmds C p \<Longrightarrow> \<forall>k. spawns_cmd C (pl_config p) (sp k) \<Longrightarrow> heap_cmds C p'"
proof (induction n arbitrary: sp p)
  case (Suc n)
  obtain r p1 where c: "createProcess (sp 0) p = (r, p1)" by fastforce
  from createProcess_cmds [OF c Suc.prems(2)] Suc.prems(3) have p1: "heap_cmds C p1" by simp
  show ?case
  proof (cases r)
    case None
    with createProcess_frame(1) c Suc.prems(3) have "\<forall>k. spawns_cmd C (pl_config p1) (sp (Suc k))" by simp
    with Suc.IH [of "\<lambda>k. sp (Suc k)" p1] Suc.prems(1) c None p1 show ?thesis by simp
  next
    case (Some err)
    with Suc.prems(1) c p1 show ?thesis by simp
  qed
qed simp

section \<open>Children that were started and never used\<close>

definition untouched :: "pool \<Rightarrow> bool" where
  "untouched p \<longleftrightarrow> (\<forall>i \<in> set (pl_processes p). \<exists>q. pl_heap p i = Some q \<and> p_started q \<and>
     p_state q = ProcessStateIdle \<and> p_stdin q = [])"

lemma NewPythonProcess_stdin: "NewPythonProcess os c = Inr q \<Longrightarrow> p_stdin q = []"
  by (auto simp: NewPythonProcess_def Let_def split: option.splits)

lemma Start_idle: "Start out q = (None, q') \<Longrightarrow> p_state q' = ProcessStateIdle \<and> p_stdin q' = p_stdin q"
  by (cases out) (auto simp: Start_def Let_def setState_def)

lemma spawn_process_idle:
  assumes "spawn_process sw p = Inr q"
  shows "p_started q \<and> p_state q = ProcessStateIdle \<and> p_stdin q = []"
  using assms spawn_process_ok(2) [OF assms] NewPythonProcess_stdin Start_idle
  by (fastforce simp: spawn_process_def runnable_def split: sum.splits prod.splits option.splits)

lemma createProcess_untouched: "createProcess sw p = (res, p') \<Longrightarrow> untouched p \<Longrightarrow> untouched p'"
proof (erule createProcess_cases)
  fix q assume "spawn_process sw (create_begin p) = Inr q" "untouched p"
    "p' = idle_append (p_id q) (create_count q (create_register q (create_begin p)))"
  with spawn_process_idle [of sw "create_begin p" q] show "untouched p'"
    by (auto simp: untouched_def pool_sections ID_def)
qed (auto simp: untouched_def pool_sections)

lemma create_initial_untouched: "create_initial n sp p = (res, p') \<Longrightarrow> untouched p \<Longrightarrow> untouched p'"
proof (induction n arbitrary: sp p)
  case (Suc n)
  obtain r p1 where c: "createProcess (sp 0) p = (r, p1)" by fastforce
  with createProcess_untouched [OF c] Suc show ?case by (auto split: option.splits)
qed simp

lemma pool_Start_untouched: "pool_Start sp (setupProcessPool config) = (res, p) \<Longrightarrow> untouched p"
  unfolding pool_Start_def
  by (erule create_initial_untouched) (simp add: untouched_def setupProcessPool_def NewProcessPool_def Let_def)

end
