(* ===== verification/MainClaims.thy ===== *)
theory MainClaims
  imports MainLemmas SqsClaims
begin

text \<open>
  The properties of the program as a whole, of its command line, and of the metrics, with their witnesses.
\<close>

section \<open>The command line\<close>

text \<open>C14: Every configuration can be written as a command line: the arguments that set each flag, integers
  in decimal and durations in nanoseconds, are parsed back to the same configuration.\<close>

theorem command_line_roundtrip:
  assumes "config_in_range c" and "cf_QueueURL c \<noteq> ''''" and "IsAbs (cf_WorkerScriptPath c)"
    and "cf_ProcessEnv c = mo_Environ os"
  shows "parseFlags (os\<lparr>mo_args := config_args c\<rparr>) = Inr c"
  using assms by (simp add: parseFlags_def parse_config_args)

definition demo_os :: main_os where
  "demo_os = \<lparr>mo_args = [], mo_Environ = [''PATH=/bin''], mo_Getwd = Some ''/app''\<rparr>"

definition main_config :: Config where
  "main_config = default_config
     \<lparr>cf_QueueURL := ''q.fifo'', cf_WorkerScriptPath := ''/w.py'', cf_ProcessEnv := [''PATH=/bin''],
      cf_MetricsEnabled := False\<rparr>"

lemma main_config_range: "config_in_range main_config"
  by (simp add: config_in_range_def main_config_def default_config_def int64_range_def)

theorem command_line_roundtrip_witness:
  "parseFlags (demo_os\<lparr>mo_args := config_args main_config\<rparr>) = Inr main_config"
  by (rule command_line_roundtrip [OF main_config_range])
    (simp_all add: main_config_def demo_os_def IsAbs_def default_config_def)

lemma config_args_then:
  assumes "config_in_range c"
  shows "parse_args flag_table (config_args c @ args) default_config = parse_args flag_table args (c\<lparr>cf_ProcessEnv := []\<rparr>)"
  using assms unfolding config_args_def config_in_range_def
  by (cases c) (simp add: parse_flag_steps default_config_def)

lemma parse_args_append:
  "parse_args fs pre c = Inr (c', []) \<Longrightarrow> ''--'' \<notin> set pre \<Longrightarrow> parse_args fs (pre @ args) c = parse_args fs args c'"
proof (induction pre arbitrary: c rule: length_induct)
  case (1 pre)
  note IH = 1(1) [rule_format]
  show ?case
  proof (cases pre)
    case (Cons s rest)
    show ?thesis
    proof (cases "flag_token s")
      case (FlagToken name v)
      with 1(2) Cons obtain boolean store where f: "map_of fs name = Some (boolean, store)"
        by (auto simp: parse_args_Cons split: option.splits)
      show ?thesis
      proof (cases boolean)
        case True
        with 1(2) Cons FlagToken f obtain c1 where "store (case v of None \<Rightarrow> ''true'' | Some w \<Rightarrow> w) c = Some c1"
          "parse_args fs rest c1 = Inr (c', [])"
          by (cases "store (case v of None \<Rightarrow> ''true'' | Some w \<Rightarrow> w) c") (simp_all add: parse_args_Cons)
        with IH [of rest c1] 1(3) Cons FlagToken f True show ?thesis by (simp add: parse_args_Cons)
      next
        case False
        show ?thesis
        proof (cases v)
          case (Some w)
          with False 1(2) Cons FlagToken f obtain c1 where "store w c = Some c1" "parse_args fs rest c1 = Inr (c', [])"
            by (cases "store w c") (simp_all add: parse_args_Cons)
          with IH [of rest c1] 1(3) Cons FlagToken f False Some show ?thesis by (simp add: parse_args_Cons)
        next
          case None
          with False 1(2) Cons FlagToken f obtain w rest' where r: "rest = w # rest'"
            by (cases rest) (simp_all add: parse_args_Cons)
          with None False 1(2) Cons FlagToken f obtain c1 where "store w c = Some c1" "parse_args fs rest' c1 = Inr (c', [])"
            by (cases "store w c") (simp_all add: parse_args_Cons)
          with IH [of rest' c1] 1(3) Cons FlagToken f False None r show ?thesis by (simp add: parse_args_Cons)
        qed
      qed
    next
      case Terminator
      then have "s = ''--''" by (auto simp: flag_token_def Let_def split: if_splits list.splits)
      with 1(3) Cons show ?thesis by simp
    qed (use 1(2) Cons in \<open>simp_all add: parse_args_Cons\<close>)
  qed (use 1(2) in simp)
qed

text \<open>C31: After any arguments that are all valid flags, a flag that is not in the table ends the program: with status 0 when it
  asks for help, with status 2 otherwise. This is what \<open>--config\<close>, which the examples and the compose file pass, does. After
  a positional argument or the terminator \<open>--\<close> nothing is parsed any more, so that an unknown flag there is
  ignored, like every other argument.\<close>

theorem unknown_flag_exits:
  assumes "parse_args flag_table pre default_config = Inr (c, [])" and "''--'' \<notin> set pre"
  shows "(flag_token s = FlagToken name v \<and> name \<notin> fst ` set flag_table \<longrightarrow>
      parseFlags (os\<lparr>mo_args := pre @ s # args\<rparr>) = Inl (if name = ''help'' \<or> name = ''h'' then 0 else 2)) \<and>
    (flag_token s = Positional \<or> flag_token s = Terminator \<longrightarrow>
      parseFlags (os\<lparr>mo_args := pre @ s # args\<rparr>) = parseFlags (os\<lparr>mo_args := pre\<rparr>)) \<and>
    flag_token (''--config='' @ path) = FlagToken ''config'' (Some path) \<and> ''config'' \<notin> fst ` set flag_table"
proof (intro conjI impI)
  note app = parse_args_append [OF assms, of "s # args"]
  {
    assume "flag_token s = FlagToken name v \<and> name \<notin> fst ` set flag_table"
    then have "parse_args flag_table (s # args) c = Inl (if name = ''help'' \<or> name = ''h'' then HelpRequested else FlagFailed)"
      by (simp add: parse_args_Cons map_of_eq_None_iff [symmetric])
    with app show "parseFlags (os\<lparr>mo_args := pre @ s # args\<rparr>) = Inl (if name = ''help'' \<or> name = ''h'' then 0 else 2)"
      by (simp add: parseFlags_def)
  next
    assume "flag_token s = Positional \<or> flag_token s = Terminator"
    then have "\<exists>rest. parse_args flag_table (s # args) c = Inr (c, rest)" by (auto simp: parse_args_Cons)
    with app assms(1) show "parseFlags (os\<lparr>mo_args := pre @ s # args\<rparr>) = parseFlags (os\<lparr>mo_args := pre\<rparr>)"
      by (auto simp: parseFlags_def)
  }
qed (simp_all add: flag_token_def flag_table_def)

theorem unknown_flag_exits_witness:
  "parseFlags (demo_os\<lparr>mo_args := config_args main_config @ [''--config=/etc/worker.yaml'']\<rparr>) = Inl 2"
proof -
  have "''--'' \<notin> set (config_args main_config)" by (simp add: config_args_def set_flag_def)
  moreover have "parse_args flag_table (config_args main_config) default_config = Inr (main_config\<lparr>cf_ProcessEnv := []\<rparr>, [])"
    using config_args_then [OF main_config_range, of "[]"] by simp
  ultimately show ?thesis
    using unknown_flag_exits [of "config_args main_config", where s = "''--config=/etc/worker.yaml''" and name = "''config''"
        and v = "Some ''/etc/worker.yaml''" and os = demo_os and args = "[]" and path = "''/etc/worker.yaml''"] by simp
qed

text \<open>C35: The value of a boolean flag must follow an equals sign. With a space, \<open>-metrics-enabled false\<close> leaves
  the metrics enabled, and every argument after it is ignored.\<close>

theorem boolean_flag_takes_no_argument:
  "parseFlags (os\<lparr>mo_args := set_flag ''queue-url'' url # ''-metrics-enabled'' # ''false'' # args\<rparr>) =
   parseFlags (os\<lparr>mo_args := [set_flag ''queue-url'' url]\<rparr>)"
proof -
  have t: "flag_token ''-metrics-enabled'' = FlagToken ''metrics-enabled'' None" "flag_token ''false'' = Positional"
    by (simp_all add: flag_token_def)
  have m: "map_of flag_table ''metrics-enabled'' = Some (bool_flag cf_MetricsEnabled_update)"
    by (simp add: flag_table_def)
  have "parse_args flag_table (''-metrics-enabled'' # ''false'' # args) c = Inr (c\<lparr>cf_MetricsEnabled := True\<rparr>, ''false'' # args)" for c
    by (simp only: parse_args_Cons [where s = "''-metrics-enabled''"] t(1)) (simp add: m bool_flag_def ParseBool_def parse_args_Cons t(2))
  then show ?thesis by (simp add: parseFlags_def parse_flag_steps default_config_def)
qed

section \<open>Setting up\<close>

lemma parseFlags_env: "parseFlags os = Inr config \<Longrightarrow> cf_ProcessEnv config = mo_Environ os"
  by (auto simp: parseFlags_def Let_def split: sum.splits if_splits)

lemma parseFlags_abs:
  assumes "parseFlags os = Inr config" "mo_Getwd os = Some wd" "IsAbs wd"
  shows "IsAbs (cf_WorkerScriptPath config)"
proof -
  have clean: "IsAbs (Clean path)" if "IsAbs path" for path
    using that by (simp add: IsAbs_def Clean_def Let_def)
  show ?thesis
    using assms clean by (auto simp: parseFlags_def Let_def Abs_def split: sum.splits if_splits)
      (auto simp: IsAbs_def clean)
qed

text \<open>What the pool of a configuration runs.\<close>

lemma pool_spawns_cmd:
  assumes "cf_ProcessEnv config = E"
  shows "spawns_cmd (\<lambda>i cmd. \<exists>path. cmd_args cmd = [cf_WorkerScriptPath config] \<and>
      cmd_path cmd = (if cf_PythonPath config = '''' then ''python'' else cf_PythonPath config) \<and>
      cmd_Env cmd = E @ E @ [''CELERY_GO_PROCESS_ID='' @ i, ''PYTHONPATH='' @ cmd_Dir cmd @ '':'' @ path])
    (pl_config (setupProcessPool config)) (with_environ E sw)"
  unfolding spawns_cmd_def
proof (intro allI impI)
  fix p q
  assume p: "pl_config p = pl_config (setupProcessPool config)" and "spawn_process (with_environ E sw) p = Inr q"
  then obtain q0 where q: "NewPythonProcess (sw_os (with_environ E sw)) (process_config p) = Inr q0"
    "Start (sw_start (with_environ E sw)) q0 = (None, q)"
    by (auto simp: spawn_process_def split: sum.splits prod.splits option.splits)
  then have "p_cmd q = p_cmd q0" "p_id q = p_id q0"
    by (auto simp: Start_def setState_def Let_def split: start_outcome.splits)
  with q(1) p assms show "\<exists>path. cmd_args (p_cmd q) = [cf_WorkerScriptPath config] \<and>
      cmd_path (p_cmd q) = (if cf_PythonPath config = '''' then ''python'' else cf_PythonPath config) \<and>
      cmd_Env (p_cmd q) = E @ E @ [''CELERY_GO_PROCESS_ID='' @ p_id q,
        ''PYTHONPATH='' @ cmd_Dir (p_cmd q) @ '':'' @ path]"
    by (auto simp: NewPythonProcess_def Let_def process_config_def setupProcessPool_def NewProcessPool_def
        pool_config_of_def with_environ_def split: option.splits)
qed

lemma create_initial_config: "create_initial n sp p = (None, p') \<Longrightarrow> pl_config p' = pl_config p"
proof (induction n arbitrary: sp p)
  case (Suc n)
  then show ?case
    by (auto split: prod.splits option.splits dest!: createProcess_frame(1))
qed simp

text \<open>C30: The broker that main sets up fetches in batches of 10 with at most 50 prefetched messages,
  whatever the flags: main leaves these fields zero, and the constructor fills them. It exists only
  for a FIFO queue.\<close>

theorem main_broker_is_batch:
  assumes "setupBroker aws config = Inr b"
  shows "c_FetchMode (b_config b) = ''batch'' \<and> c_BatchSize (b_config b) = 10 \<and> c_MaxPrefetch (b_config b) = 50 \<and>
    (\<exists>name. cf_QueueURL config = name @ ''.fifo'') \<and> b_activeGroups b = Map.empty"
proof -
  let ?url = "cf_QueueURL config"
  have new: "NewSQSFIFOBroker (broker_config_of config) = Inr b"
    using assms by (simp add: setupBroker_def split: option.splits sum.splits)
  then have "drop (length ?url - 5) ?url = ''.fifo''"
    by (auto simp: NewSQSFIFOBroker_def broker_config_of_def Let_def split: if_splits)
  then have "?url = take (length ?url - 5) ?url @ ''.fifo''" by (metis append_take_drop_id)
  with new show ?thesis
    by (auto simp: NewSQSFIFOBroker_def broker_config_of_def norm_fetch_mode_def norm_batch_size_def
        or_default_def Let_def split: if_splits)
qed

theorem main_broker_is_batch_witness:
  "\<exists>b. setupBroker None main_config = Inr b \<and> c_FetchMode (b_config b) = ''batch''"
proof -
  obtain b where "setupBroker None main_config = Inr b"
    by (simp add: setupBroker_def NewSQSFIFOBroker_def broker_config_of_def main_config_def norm_fetch_mode_def Let_def)
  with main_broker_is_batch show ?thesis by blast
qed

lemma main_config_parsed: "parseFlags (demo_os\<lparr>mo_args := config_args main_config\<rparr>) = Inr main_config"
  using parse_config_args [OF main_config_range]
  by (simp add: parseFlags_def main_config_def demo_os_def IsAbs_def default_config_def)

text \<open>A main with its surroundings: the registry of metrics is the list of the names.\<close>

definition full_name :: "metric_opts \<Rightarrow> string" where
  "full_name opts = concat (map (\<lambda>s. s @ ''_'') (filter (\<lambda>s. s \<noteq> '''') [op_Namespace opts, op_Subsystem opts])) @
     op_Name opts"

definition demo_register :: "metric_opts \<Rightarrow> string list \<Rightarrow> (handle \<times> string list) option" where
  "demo_register opts w = (if full_name opts \<in> set w then None else Some (length w, full_name opts # w))"

definition demo_prom :: "string list prometheus" where
  "demo_prom = \<lparr>pm_NewCounterVec = \<lambda>opts _. demo_register opts, pm_NewHistogramVec = \<lambda>opts _. demo_register opts,
     pm_NewGauge = demo_register, pm_Inc = \<lambda>_ _ w. w, pm_Observe = \<lambda>_ _ _ w. w, pm_Set = \<lambda>_ _ w. w,
     pm_Serve = \<lambda>_ w. (0, w), pm_CloseServer = \<lambda>_ w. (None, w)\<rparr>"

definition demo_otel :: "'w otel" where
  "demo_otel = \<lparr>ot_Resource = \<lambda>_ w. (Inr 1, w), ot_Exporter = \<lambda>_ w. (Inl ''refused'', w),
     ot_NewProvider = \<lambda>_ _ _ _ _ w. (2, w), ot_SetTracerProvider = \<lambda>_ w. w, ot_SetPropagators = \<lambda>_ w. w,
     ot_Tracer = \<lambda>_ _ w. (3, w), ot_NoopTracer = \<lambda>_. 0, ot_Start = \<lambda>_ _ _ w. ((0, 0), w),
     ot_ShutdownProvider = \<lambda>_ _ w. (None, w), ot_SpanFromContext = \<lambda>_. 0, ot_ContextWithSpan = \<lambda>_ _. 0,
     ot_AddEvent = \<lambda>_ _ _ w. w, ot_SetAttributes = \<lambda>_ _ w. w, ot_RecordError = \<lambda>_ _ w. w\<rparr>"

definition demo_main :: "Config \<Rightarrow> (nat \<Rightarrow> spawn) \<Rightarrow> string list main_env" where
  "demo_main config starts = \<lparr>ma_os = demo_os\<lparr>mo_args := config_args config\<rparr>, ma_aws = None,
     ma_sqs = \<lambda>_ _. demo_client [], ma_prom = demo_prom, ma_otel = demo_otel, ma_world = [],
     ma_starts = starts, ma_tasks = [], ma_schedule = [], ma_late_tasks = [ExitLoop], ma_late_schedule = [],
     ma_stop_timeout = False, ma_stop_ctx = 0,
     ma_stop_plan = ([''a''], \<lambda>_. we_stop (demo_we True [] Deadline)),
     ma_deferred_plan = ([''a''], \<lambda>_. we_stop (demo_we True [] Deadline))\<rparr>"

lemma demo_main_simps [simp]:
  "ma_aws (demo_main config starts) = None" "ma_starts (demo_main config starts) = starts"
  "ma_sqs (demo_main config starts) = (\<lambda>_ _. demo_client [])" "ma_tasks (demo_main config starts) = []"
  "ma_schedule (demo_main config starts) = []" "ma_late_tasks (demo_main config starts) = [ExitLoop]"
  "ma_late_schedule (demo_main config starts) = []" "ma_stop_timeout (demo_main config starts) = False"
  "ma_prom (demo_main config starts) = demo_prom" "ma_otel (demo_main config starts) = demo_otel"
  "ma_world (demo_main config starts) = []"
  "ma_os (demo_main config starts) = demo_os\<lparr>mo_args := config_args config\<rparr>"
  by (simp_all add: demo_main_def)

lemma config_set_up:
  assumes "cf_MetricsEnabled config = False" "cf_TracingEnabled config = False"
  shows "\<exists>m. setupObservability demo_prom demo_otel config [] = Some (Some m, None, []) \<and> mt_server m = None"
  using assms by (simp add: setupObservability_def InitMetrics_def NewMetrics_def nil_metrics_def)

definition two_config :: Config where
  "two_config = main_config\<lparr>cf_MinProcesses := 2\<rparr>"

definition one_start :: "nat \<Rightarrow> spawn" where
  "one_start n = (if n = 0 then demo_spawns CHR ''a'' 0 else (demo_spawns CHR ''a'' n)\<lparr>sw_start := StartErr\<rparr>)"

text \<open>C19: When the pool cannot start its minimum of processes, main exits with status 1 at once: the
  children that it had started are left behind, idle, and no stop was sent to any of them.\<close>

theorem fatal_start_leaves_children:
  assumes "main env = Some (FatalExit status (PoolStart err p))" and "i \<in> set (pl_processes p)"
  shows "status = 1 \<and> (\<exists>q. pl_heap p i = Some q \<and> p_started q \<and> p_state q = ProcessStateIdle \<and> p_stdin q = [])"
proof -
  from assms(1) obtain config where "status = 1" "pool_Start (starts_of env) (setupProcessPool config) = (Some err, p)"
    by (auto simp: main_def main_setup_def map_option_case
        split: sum.splits option.splits prod.splits setting_up.splits)
  with pool_Start_untouched assms(2) show ?thesis by (auto simp: untouched_def)
qed

lemma two_config_parsed: "parseFlags (demo_os\<lparr>mo_args := config_args two_config\<rparr>) = Inr two_config"
proof -
  have "config_in_range two_config"
    by (simp add: config_in_range_def two_config_def main_config_def default_config_def int64_range_def)
  from parse_config_args [OF this] show ?thesis
    by (simp add: parseFlags_def two_config_def main_config_def demo_os_def IsAbs_def default_config_def)
qed

lemma demo_broker_set_up:
  assumes "cf_QueueURL config = ''q.fifo''"
  shows "\<exists>b b'. setupBroker None config = Inr b \<and> Connect (demo_client []) b = (None, b')"
  using assms
  by (simp add: setupBroker_def NewSQSFIFOBroker_def broker_config_of_def norm_fetch_mode_def Let_def
      Connect_def demo_client_def log_call_def)

lemma one_start_fails:
  "\<exists>err p. pool_Start (starts_of (demo_main two_config one_start)) (setupProcessPool two_config) = (Some err, p) \<and>
     pl_processes p = [''a'']"
  by (simp add: starts_of_def with_environ_def pool_Start_def setupProcessPool_def NewProcessPool_def pool_config_of_def two_config_def
      main_config_def default_config_def one_start_def demo_spawns_def createProcess_def create_allowed_def
      spawn_process_def NewPythonProcess_def Start_def Let_def pool_sections eval_nat_numeral setState_def ID_def)

theorem fatal_start_leaves_children_witness:
  "\<exists>err p q. main (demo_main two_config one_start) = Some (FatalExit 1 (PoolStart err p)) \<and>
     pl_heap p ''a'' = Some q \<and> p_state q = ProcessStateIdle"
proof -
  obtain err p where p: "pool_Start (starts_of (demo_main two_config one_start)) (setupProcessPool two_config) = (Some err, p)" "pl_processes p = [''a'']"
    using one_start_fails by blast
  obtain m where o: "setupObservability demo_prom demo_otel two_config [] = Some (Some m, None, [])"
    using config_set_up [of two_config] by (auto simp: two_config_def main_config_def default_config_def)
  obtain b b' where b: "setupBroker None two_config = Inr b" "Connect (demo_client []) b = (None, b')"
    using demo_broker_set_up [of two_config] by (auto simp: two_config_def main_config_def)
  have "main (demo_main two_config one_start) = Some (FatalExit 1 (PoolStart err p))"
    by (simp add: main_def main_setup_def two_config_parsed o b p sqs_client_of_def)
  with fatal_start_leaves_children [OF this, of "''a''"] p(2) show ?thesis by auto
qed

section \<open>Running and shutting down\<close>

lemma demo_main_serving:
  "\<exists>m b p. main_setup (demo_main main_config (demo_spawns CHR ''a'')) =
       Serving \<lparr>pg_sys = setupWorker main_config b, pg_pool = serving p, pg_metrics = Some m, pg_tracer = None,
         pg_world = []\<rparr> \<and> mt_server m = None \<and>
     pl_processes p = [''a''] \<and> pl_heap p ''a'' \<noteq> None \<and> pc_MaxProcesses (pl_config p) = 10 \<and> pl_shutdown p = False"
proof -
  obtain p where p: "pool_Start (starts_of (demo_main main_config (demo_spawns CHR ''a''))) (setupProcessPool main_config) = (None, p)"
    "pl_processes p = [''a''] \<and> pl_heap p ''a'' \<noteq> None \<and> pc_MaxProcesses (pl_config p) = 10 \<and> pl_shutdown p = False"
    by (simp add: starts_of_def with_environ_def pool_Start_def setupProcessPool_def NewProcessPool_def pool_config_of_def main_config_def
        default_config_def demo_spawns_def createProcess_def create_allowed_def spawn_process_def
        NewPythonProcess_def Start_def Let_def pool_sections setState_def ID_def)
  obtain m where o: "setupObservability demo_prom demo_otel main_config [] = Some (Some m, None, [])" "mt_server m = None"
    using config_set_up [of main_config] by (auto simp: main_config_def default_config_def)
  obtain b b' where b: "setupBroker None main_config = Inr b" "Connect (demo_client []) b = (None, b')"
    using demo_broker_set_up [of main_config] by (auto simp: main_config_def)
  show ?thesis using p(2) o(2) by (auto simp: main_setup_def main_config_parsed o b p(1) sqs_client_of_def)
qed

text \<open>C28: Every child that the program makes, at its start or while it serves, runs the Python executable of the flags on
  the absolute path of the worker script; its environment is the environment of main twice, then the id of the
  process and a Python path that begins with the working directory of the child.\<close>

theorem child_command:
  assumes "main_setup env = Serving pg" and "mo_Getwd (ma_os env) = Some wd" and "IsAbs wd"
    and "goroutines env acts schedule pg = Some pg'" and "pl_heap (fst (pg_pool pg')) i = Some q"
  shows "\<exists>config path. parseFlags (ma_os env) = Inr config \<and> IsAbs (cf_WorkerScriptPath config) \<and>
    cmd_args (p_cmd q) = [cf_WorkerScriptPath config] \<and>
    cmd_path (p_cmd q) = (if cf_PythonPath config = '''' then ''python'' else cf_PythonPath config) \<and>
    cmd_Env (p_cmd q) = mo_Environ (ma_os env) @ mo_Environ (ma_os env) @
      [''CELERY_GO_PROCESS_ID='' @ i, ''PYTHONPATH='' @ cmd_Dir (p_cmd q) @ '':'' @ path]"
proof -
  let ?E = "mo_Environ (ma_os env)"
  from assms(1) obtain config p where c: "parseFlags (ma_os env) = Inr config"
    "pool_Start (starts_of env) (setupProcessPool config) = (None, p)" "pg_pool pg = serving p"
    by (rule main_setup_serving) simp
  let ?C = "\<lambda>i cmd. \<exists>path. cmd_args cmd = [cf_WorkerScriptPath config] \<and>
    cmd_path cmd = (if cf_PythonPath config = '''' then ''python'' else cf_PythonPath config) \<and>
    cmd_Env cmd = ?E @ ?E @ [''CELERY_GO_PROCESS_ID='' @ i, ''PYTHONPATH='' @ cmd_Dir cmd @ '':'' @ path]"
  let ?c = "pl_config (setupProcessPool config)"
  have spawns: "spawns_cmd ?C ?c (with_environ ?E sw)" for sw
    using parseFlags_env [OF c(1)] by (rule pool_spawns_cmd)
  have new: "heap_cmds ?C (setupProcessPool config)"
    by (simp add: heap_cmds_def setupProcessPool_def NewProcessPool_def Let_def)
  have "\<forall>k. spawns_cmd ?C ?c (starts_of env k)" unfolding starts_of_def using spawns by blast
  with create_initial_cmds [OF c(2) [unfolded pool_Start_def] new] have "heap_cmds ?C p" by blast
  moreover have "pl_config p = ?c" using create_initial_config [OF c(2) [unfolded pool_Start_def]] .
  ultimately have start: "cmds_ok ?C ?c (pg_pool pg)" unfolding cmds_ok_def c(3) serving_def by simp
  have steps: "run (schedule_in ?E schedule) (pg_pool pg) = Some (pg_pool pg')"
    using assms(4) by (rule goroutines_cases) simp
  have "\<forall>(e, k) \<in> set (schedule_in ?E schedule). spawns_cmd ?C ?c (te_spawn e)"
    using spawns by (auto simp: schedule_in_def)
  from run_cmds [OF steps start this] have "cmds_ok ?C ?c (pg_pool pg')" .
  then have "?C i (p_cmd q)" using assms(5) by (simp add: cmds_ok_def heap_cmds_def)
  with c(1) parseFlags_abs [OF c(1) assms(2,3)] show ?thesis by blast
qed

theorem child_command_witness:
  "\<exists>pg q. main_setup (demo_main main_config (demo_spawns CHR ''a'')) = Serving pg \<and>
     pl_heap (fst (pg_pool pg)) ''a'' = Some q \<and> cmd_args (p_cmd q) = [''/w.py'']"
proof -
  let ?env = "demo_main main_config (demo_spawns CHR ''a'')"
  obtain pg q where pg: "main_setup ?env = Serving pg" "pl_heap (fst (pg_pool pg)) ''a'' = Some q"
    using demo_main_serving by (auto simp: serving_def)
  have "goroutines ?env [] [] pg = Some pg" by (simp add: goroutines_def schedule_in_def)
  from child_command [OF pg(1) _ _ this pg(2), of "''/app''"]
  have "\<exists>config. parseFlags (ma_os ?env) = Inr config \<and> cmd_args (p_cmd q) = [cf_WorkerScriptPath config]"
    by (auto simp: demo_os_def IsAbs_def)
  with main_config_parsed have "cmd_args (p_cmd q) = [''/w.py'']" by (auto simp: main_config_def)
  with pg show ?thesis by blast
qed

text \<open>C8: A run of main that comes to its end ends in a panic: the pool was stopped, and the
  deferred call stops it again. Before that every process of the pool was stopped.\<close>

theorem every_shutdown_panics:
  assumes "main env = Some (Ended e)"
  shows "en_status e = 2 \<and>
    (\<forall>i \<in> set (pl_processes (en_pool e)).
       \<exists>q. pl_heap (en_pool e) i = Some q \<and> p_state q = ProcessStateStopped)"
proof -
  from assms obtain pg pg1 where pg: "main_setup env = Serving pg"
    "goroutines env (ma_tasks env) (ma_schedule env) pg = Some pg1" "main_shutdown env pg1 = Some e"
    by (auto simp: main_def split: setting_up.splits option.splits)
  from pg(1) obtain config p0 where p0: "pool_Start (starts_of env) (setupProcessPool config) = (None, p0)"
    "pg_pool pg = serving p0" by (rule main_setup_serving) simp
  from pg(3) obtain s pg2 where s: "goroutines env (ma_late_tasks env) (ma_late_schedule env) (pg1\<lparr>pg_sys := s\<rparr>) = Some pg2"
    and e: "e = (case pool_Stop (ma_stop_plan env) (fst (pg_pool pg2)) of
      (Some _, p) \<Rightarrow> run_deferred (ma_deferred_plan env) True (pg_sys pg2) p (pg_world pg2)
    | (None, p) \<Rightarrow> run_deferred (ma_deferred_plan env) False (pg_sys pg2) p
        (snd (default_tracer_Shutdown (ma_otel env) (ma_stop_ctx env) (pg_tracer pg2)
          (snd (default_metrics_Shutdown (ma_prom env) (pg_metrics pg2) (pg_world pg2))))))"
    by (auto simp: main_shutdown_def Close_def Let_def split: option.splits prod.splits)
  have ok: "threads_ok (pg_pool pg2) \<and> \<not> pl_shutdown (fst (pg_pool pg2))"
    using pg(2) s serving_ok [OF p0(1)] p0(2)
    by (auto elim!: goroutines_cases dest!: run_ok simp: serving_def)
  let ?p = "(fst (pg_pool pg2))\<lparr>pl_shutdown := True\<rparr>"
  let ?order = "map (\<lambda>i. (i, snd (ma_stop_plan env) i)) (iteration (fst (ma_stop_plan env)) (fst (pg_pool pg2)))"
  have st: "pool_Stop (ma_stop_plan env) (fst (pg_pool pg2)) = (None, stop_each ?order ?p)"
    using ok by (simp add: pool_Stop_def)
  have e': "en_status e = 2" "en_pool e = stop_each ?order ?p"
    using e st by (simp_all add: run_deferred_def pool_Stop_def stop_each_shutdown Close_def)
  have heap: "heap_ok ?p" using ok by (simp add: threads_ok_def heap_ok_def)
  have procs: "pl_processes (stop_each order p) = pl_processes p" for order p
    by (induction order p rule: stop_each.induct) simp_all
  have "\<exists>q. pl_heap (stop_each ?order ?p) i = Some q \<and> p_state q = ProcessStateStopped"
    if "i \<in> set (pl_processes ?p)" for i
    by (rule stop_each_all [OF heap that]) (use that in \<open>simp add: image_image\<close>)
  with e' show ?thesis by (simp add: procs)
qed

theorem every_shutdown_panics_witness:
  "\<exists>e. main (demo_main main_config (demo_spawns CHR ''a'')) = Some (Ended e) \<and> en_status e = 2"
proof -
  obtain m b p where pg: "main_setup (demo_main main_config (demo_spawns CHR ''a'')) =
       Serving \<lparr>pg_sys = setupWorker main_config b, pg_pool = serving p, pg_metrics = Some m, pg_tracer = None,
         pg_world = []\<rparr>"
    using demo_main_serving by blast
  have "\<exists>e. main (demo_main main_config (demo_spawns CHR ''a'')) = Some (Ended e)"
    by (simp add: main_def pg goroutines_def schedule_in_def main_shutdown_def setupWorker_def wstep_def Let_def worker_Stop_def
        boot_def CreateWorker_def NewDefaultWorker_def worker_Stop_wait_def Close_def split: prod.split option.split)
  with every_shutdown_panics show ?thesis by blast
qed

end
