(* ===== verification/MetricsClaims.thy ===== *)
theory MetricsClaims
  imports MainClaims
begin

text \<open>The properties of the metrics, with their witnesses.\<close>

section \<open>Which collector an observation updates\<close>

definition counter_named :: "'w prometheus \<Rightarrow> metrics_config \<Rightarrow> string \<Rightarrow> handle \<Rightarrow> bool" where
  "counter_named pm config name h \<longleftrightarrow> (\<exists>help w w'. pm_NewCounterVec pm
     (metric (config\<lparr>mc_Namespace := default_string ''celery_go'' (mc_Namespace config)\<rparr>) name help)
     [''queue'', ''task_name''] w = Some (h, w'))"

definition histogram_named :: "'w prometheus \<Rightarrow> metrics_config \<Rightarrow> string \<Rightarrow> handle \<Rightarrow> bool" where
  "histogram_named pm config name h \<longleftrightarrow> (\<exists>help w w'. pm_NewHistogramVec pm
     (metric (config\<lparr>mc_Namespace := default_string ''celery_go'' (mc_Namespace config)\<rparr>) name help)
     [''queue'', ''task_name''] w = Some (h, w'))"

definition gauge_named :: "'w prometheus \<Rightarrow> metrics_config \<Rightarrow> string \<Rightarrow> handle \<Rightarrow> bool" where
  "gauge_named pm config name h \<longleftrightarrow> (\<exists>help w w'. pm_NewGauge pm
     (metric (config\<lparr>mc_Namespace := default_string ''celery_go'' (mc_Namespace config)\<rparr>) name help) w = Some (h, w'))"

lemma named_intros:
  "pm_NewCounterVec pm (metric (config\<lparr>mc_Namespace := default_string ''celery_go'' (mc_Namespace config),
     mc_HTTPEndpoint := ep\<rparr>) name help) task_labels w = Some (h, w') \<Longrightarrow> counter_named pm config name h"
  "pm_NewHistogramVec pm (metric (config\<lparr>mc_Namespace := default_string ''celery_go'' (mc_Namespace config),
     mc_HTTPEndpoint := ep\<rparr>) name help) task_labels w = Some (h, w') \<Longrightarrow> histogram_named pm config name h"
  "pm_NewGauge pm (metric (config\<lparr>mc_Namespace := default_string ''celery_go'' (mc_Namespace config),
     mc_HTTPEndpoint := ep\<rparr>) name help) w = Some (h, w') \<Longrightarrow> gauge_named pm config name h"
  unfolding counter_named_def histogram_named_def gauge_named_def metric_def task_labels_def by auto

lemma wired_ex: "\<exists>h. field = Some h \<and> P h \<Longrightarrow> (\<And>h. field = Some h \<Longrightarrow> Q h) \<Longrightarrow> \<exists>h. P h \<and> Q h"
  by blast

text \<open>The names under which the fields of the metrics were created.\<close>

definition named_fields :: "'w prometheus \<Rightarrow> metrics_config \<Rightarrow> metrics \<Rightarrow> bool" where
  "named_fields pm config m \<longleftrightarrow>
     (\<exists>h. mt_TasksReceived m = Some h \<and> counter_named pm config ''tasks_received_total'' h) \<and>
     (\<exists>h. mt_TasksProcessed m = Some h \<and> counter_named pm config ''tasks_processed_total'' h) \<and>
     (\<exists>h. mt_TasksSucceeded m = Some h \<and> counter_named pm config ''tasks_succeeded_total'' h) \<and>
     (\<exists>h. mt_TasksFailed m = Some h \<and> counter_named pm config ''tasks_failed_total'' h) \<and>
     (\<exists>h. mt_TasksRetried m = Some h \<and> counter_named pm config ''tasks_retried_total'' h) \<and>
     (\<exists>h. mt_TaskDuration m = Some h \<and> histogram_named pm config ''task_duration_seconds'' h) \<and>
     (\<exists>h. mt_ProcessesTotal m = Some h \<and> gauge_named pm config ''processes_total'' h) \<and>
     (\<exists>h. mt_ProcessesIdle m = Some h \<and> gauge_named pm config ''processes_idle'' h) \<and>
     (\<exists>h. mt_ProcessesBusy m = Some h \<and> gauge_named pm config ''processes_busy'' h) \<and>
     (\<exists>h. mt_ProcessesStarting m = Some h \<and> gauge_named pm config ''processes_starting'' h) \<and>
     (\<exists>h. mt_ProcessesStopping m = Some h \<and> gauge_named pm config ''processes_stopping'' h) \<and>
     (\<exists>h. mt_ProcessesError m = Some h \<and> gauge_named pm config ''processes_error'' h) \<and>
     (\<exists>h. mt_MessageGroupsActive m = Some h \<and> gauge_named pm config ''message_groups_active'' h) \<and>
     (\<exists>h. mt_MessageGroupsProcessing m = Some h \<and> gauge_named pm config ''message_groups_processing'' h)"

lemma NewMetrics_enabled:
  assumes "NewMetrics pm config w = Some (m, w')" and "mc_Enabled config"
  shows "named_fields pm config m \<and> mc_Enabled (mt_config m) \<and> mt_server m \<noteq> None"
proof -
  have ep: "default_string '':9090'' s \<noteq> []" for s by (simp add: default_string_def)
  show ?thesis using assms
    by (auto simp: NewMetrics_def named_fields_def nil_metrics_def ep Let_def bind_eq_Some_conv case_prod_beta
        intro: named_intros)
qed

lemmas observation_defs =
  default_ObserveTaskReceived_def ObserveTaskReceived_def default_ObserveTaskProcessed_def
  ObserveTaskProcessed_def default_ObserveTaskSucceeded_def ObserveTaskSucceeded_def
  default_ObserveTaskFailed_def ObserveTaskFailed_def default_ObserveTaskRetried_def
  ObserveTaskRetried_def default_ObserveTaskDuration_def ObserveTaskDuration_def
  default_SetProcessesTotal_def SetProcessesTotal_def default_SetProcessesIdle_def
  SetProcessesIdle_def default_SetProcessesBusy_def SetProcessesBusy_def
  default_SetProcessesStarting_def SetProcessesStarting_def default_SetProcessesStopping_def
  SetProcessesStopping_def default_SetProcessesError_def SetProcessesError_def
  default_SetMessageGroupsActive_def SetMessageGroupsActive_def default_SetMessageGroupsProcessing_def
  SetMessageGroupsProcessing_def

text \<open>C27: With metrics enabled every observation updates the collector that was registered under its name, with
  its labels, and no other: no observation meets a nil collector, and none is mixed up with another.\<close>

theorem observations_wired:
  assumes "InitMetrics pm config w = Some (dm, w')" and "mc_Enabled config"
  shows "
    (\<exists>h. counter_named pm config ''tasks_received_total'' h \<and>
      (\<forall>q t x. default_ObserveTaskReceived pm q t dm x = Some (pm_Inc pm h [q, t] x))) \<and>
    (\<exists>h. counter_named pm config ''tasks_processed_total'' h \<and>
      (\<forall>q t x. default_ObserveTaskProcessed pm q t dm x = Some (pm_Inc pm h [q, t] x))) \<and>
    (\<exists>h. counter_named pm config ''tasks_succeeded_total'' h \<and>
      (\<forall>q t x. default_ObserveTaskSucceeded pm q t dm x = Some (pm_Inc pm h [q, t] x))) \<and>
    (\<exists>h. counter_named pm config ''tasks_failed_total'' h \<and>
      (\<forall>q t x. default_ObserveTaskFailed pm q t dm x = Some (pm_Inc pm h [q, t] x))) \<and>
    (\<exists>h. counter_named pm config ''tasks_retried_total'' h \<and>
      (\<forall>q t x. default_ObserveTaskRetried pm q t dm x = Some (pm_Inc pm h [q, t] x))) \<and>
    (\<exists>h. histogram_named pm config ''task_duration_seconds'' h \<and>
      (\<forall>q t d x. default_ObserveTaskDuration pm q t d dm x = Some (pm_Observe pm h [q, t] (duration_seconds d) x))) \<and>
    (\<exists>h. gauge_named pm config ''processes_total'' h \<and>
      (\<forall>n x. default_SetProcessesTotal pm n dm x = Some (pm_Set pm h (f64_of_int n) x))) \<and>
    (\<exists>h. gauge_named pm config ''processes_idle'' h \<and>
      (\<forall>n x. default_SetProcessesIdle pm n dm x = Some (pm_Set pm h (f64_of_int n) x))) \<and>
    (\<exists>h. gauge_named pm config ''processes_busy'' h \<and>
      (\<forall>n x. default_SetProcessesBusy pm n dm x = Some (pm_Set pm h (f64_of_int n) x))) \<and>
    (\<exists>h. gauge_named pm config ''processes_starting'' h \<and>
      (\<forall>n x. default_SetProcessesStarting pm n dm x = Some (pm_Set pm h (f64_of_int n) x))) \<and>
    (\<exists>h. gauge_named pm config ''processes_stopping'' h \<and>
      (\<forall>n x. default_SetProcessesStopping pm n dm x = Some (pm_Set pm h (f64_of_int n) x))) \<and>
    (\<exists>h. gauge_named pm config ''processes_error'' h \<and>
      (\<forall>n x. default_SetProcessesError pm n dm x = Some (pm_Set pm h (f64_of_int n) x))) \<and>
    (\<exists>h. gauge_named pm config ''message_groups_active'' h \<and>
      (\<forall>n x. default_SetMessageGroupsActive pm n dm x = Some (pm_Set pm h (f64_of_int n) x))) \<and>
    (\<exists>h. gauge_named pm config ''message_groups_processing'' h \<and>
      (\<forall>n x. default_SetMessageGroupsProcessing pm n dm x = Some (pm_Set pm h (f64_of_int n) x)))"
proof -
  from assms(1) obtain m where m: "dm = Some m" "NewMetrics pm config w = Some (m, w')"
    by (auto simp: InitMetrics_def)
  from NewMetrics_enabled [OF m(2) assms(2)]
  have f: "mc_Enabled (mt_config m)" "named_fields pm config m" by simp_all
  show ?thesis
    using f(2) unfolding m(1) observation_defs on_default_def option.case named_fields_def
    apply (elim conjE)
    apply (intro conjI)
    apply (erule wired_ex, simp add: with_collector_def f(1))+
    done
qed

text \<open>The configuration of main's metrics.\<close>

definition main_metrics :: metrics_config where
  "main_metrics = \<lparr>mc_Enabled = True, mc_Namespace = ''celery_go'', mc_Subsystem = '''', mc_HTTPEndpoint = '':9090''\<rparr>"

lemma main_metrics_init: "\<exists>dm w. InitMetrics demo_prom main_metrics [] = Some (dm, w)"
  by (simp add: InitMetrics_def NewMetrics_def main_metrics_def demo_prom_def demo_register_def metric_def
      full_name_def default_string_def Let_def)

theorem observations_wired_witness:
  "\<exists>dm w h. InitMetrics demo_prom main_metrics [] = Some (dm, w) \<and>
     counter_named demo_prom main_metrics ''tasks_failed_total'' h \<and>
     default_ObserveTaskFailed demo_prom ''q'' ''t'' dm w = Some w"
proof -
  obtain dm w where i: "InitMetrics demo_prom main_metrics [] = Some (dm, w)" using main_metrics_init by blast
  have "mc_Enabled main_metrics" "\<And>h ls w. pm_Inc demo_prom h ls w = w"
    by (simp_all add: main_metrics_def demo_prom_def)
  with observations_wired [OF i] i show ?thesis by fastforce
qed

text \<open>C37: With metrics disabled nothing is registered and nothing is served, and every observation, also one
  before \<open>InitMetrics\<close>, leaves the library alone.\<close>

theorem disabled_metrics_silent:
  assumes "\<not> mc_Enabled config" and "InitMetrics pm config w = Some (dm, w')" and "d \<in> {dm, None}"
  shows "w' = w \<and> default_metrics_Shutdown pm d x = (None, x) \<and>
    default_ObserveTaskReceived pm q t d x = Some x \<and>
    default_ObserveTaskProcessed pm q t d x = Some x \<and>
    default_ObserveTaskSucceeded pm q t d x = Some x \<and>
    default_ObserveTaskFailed pm q t d x = Some x \<and>
    default_ObserveTaskRetried pm q t d x = Some x \<and>
    default_ObserveTaskDuration pm q t u d x = Some x \<and>
    default_SetProcessesTotal pm n d x = Some x \<and>
    default_SetProcessesIdle pm n d x = Some x \<and>
    default_SetProcessesBusy pm n d x = Some x \<and>
    default_SetProcessesStarting pm n d x = Some x \<and>
    default_SetProcessesStopping pm n d x = Some x \<and>
    default_SetProcessesError pm n d x = Some x \<and>
    default_SetMessageGroupsActive pm n d x = Some x \<and>
    default_SetMessageGroupsProcessing pm n d x = Some x"
proof -
  obtain m where m: "dm = Some m" "w' = w" "\<not> mc_Enabled (mt_config m)" "mt_server m = None"
    using assms(1,2) by (auto simp: InitMetrics_def NewMetrics_def nil_metrics_def)
  have d: "on_default (with_collector field f) d x = Some x" for field f
    using assms(3) m by (auto simp: on_default_def with_collector_def)
  have "default_metrics_Shutdown pm d x = (None, x)"
    using assms(3) m by (auto simp: default_metrics_Shutdown_def metrics_Shutdown_def)
  with m(2) show ?thesis by (simp only: observation_defs d simp_thms)
qed

theorem disabled_metrics_silent_witness:
  "\<exists>dm. InitMetrics demo_prom (main_metrics\<lparr>mc_Enabled := False\<rparr>) [] = Some (dm, []) \<and>
     default_SetProcessesIdle demo_prom 3 dm [''x''] = Some [''x'']"
proof -
  obtain dm w where i: "InitMetrics demo_prom (main_metrics\<lparr>mc_Enabled := False\<rparr>) [] = Some (dm, w)"
    by (simp add: InitMetrics_def NewMetrics_def main_metrics_def)
  have "\<not> mc_Enabled (main_metrics\<lparr>mc_Enabled := False\<rparr>)" by simp
  from disabled_metrics_silent [OF this i, of dm "[''x'']" "[]" "[]" 0 3] i show ?thesis by simp
qed

text \<open>What the Prometheus client documents of its default registry: a registered name stays registered, and
  to register a name again panics.\<close>

definition lawful_registry :: "'w prometheus \<Rightarrow> ('w \<Rightarrow> string set) \<Rightarrow> bool" where
  "lawful_registry pm names \<longleftrightarrow>
     (\<forall>opts ls w h w'. pm_NewCounterVec pm opts ls w = Some (h, w') \<longrightarrow>
        full_name opts \<in> names w' \<and> full_name opts \<notin> names w \<and> names w \<subseteq> names w') \<and>
     (\<forall>opts ls w h w'. pm_NewHistogramVec pm opts ls w = Some (h, w') \<longrightarrow> names w \<subseteq> names w') \<and>
     (\<forall>opts w h w'. pm_NewGauge pm opts w = Some (h, w') \<longrightarrow> names w \<subseteq> names w') \<and>
     (\<forall>addr w. names w \<subseteq> names (snd (pm_Serve pm addr w))) \<and>
     (\<forall>s w. names w \<subseteq> names (snd (pm_CloseServer pm s w)))"

lemma registry_mono:
  assumes "lawful_registry pm names"
  shows "pm_NewCounterVec pm opts ls w = Some (h, w') \<Longrightarrow> full_name opts \<in> names w'"
    "pm_NewCounterVec pm opts ls w = Some (h, w') \<Longrightarrow> full_name opts \<notin> names w"
    "pm_NewCounterVec pm opts ls w = Some (h, w') \<Longrightarrow> x \<in> names w \<Longrightarrow> x \<in> names w'"
    "pm_NewHistogramVec pm opts ls w = Some (h, w') \<Longrightarrow> x \<in> names w \<Longrightarrow> x \<in> names w'"
    "pm_NewGauge pm opts w = Some (h, w') \<Longrightarrow> x \<in> names w \<Longrightarrow> x \<in> names w'"
    "x \<in> names w \<Longrightarrow> x \<in> names (snd (pm_Serve pm addr w))"
    "x \<in> names w \<Longrightarrow> x \<in> names (snd (pm_CloseServer pm s w))"
proof -
  note laws = assms [unfolded lawful_registry_def]
  show "pm_NewCounterVec pm opts ls w = Some (h, w') \<Longrightarrow> full_name opts \<in> names w'"
    "pm_NewCounterVec pm opts ls w = Some (h, w') \<Longrightarrow> full_name opts \<notin> names w"
    "pm_NewCounterVec pm opts ls w = Some (h, w') \<Longrightarrow> x \<in> names w \<Longrightarrow> x \<in> names w'"
    using laws [THEN conjunct1] by blast+
  show "pm_NewHistogramVec pm opts ls w = Some (h, w') \<Longrightarrow> x \<in> names w \<Longrightarrow> x \<in> names w'"
    "pm_NewGauge pm opts w = Some (h, w') \<Longrightarrow> x \<in> names w \<Longrightarrow> x \<in> names w'"
    "x \<in> names w \<Longrightarrow> x \<in> names (snd (pm_Serve pm addr w))"
    "x \<in> names w \<Longrightarrow> x \<in> names (snd (pm_CloseServer pm s w))"
    using laws [THEN conjunct2] by blast+
qed

definition first_metric :: "metrics_config \<Rightarrow> string" where
  "first_metric config = full_name (metric (config\<lparr>mc_Namespace := default_string ''celery_go'' (mc_Namespace config),
     mc_HTTPEndpoint := default_string '':9090'' (mc_HTTPEndpoint config)\<rparr>) ''tasks_received_total''
     ''The total number of tasks received'')"

lemma NewMetrics_registers:
  assumes "lawful_registry pm names" and "NewMetrics pm config w = Some (m, w')" and "mc_Enabled config"
  shows "first_metric config \<in> names w' \<and> first_metric config \<notin> names w"
proof -
  have ep: "default_string '':9090'' s \<noteq> []" for s by (simp add: default_string_def)
  note mono = registry_mono [OF assms(1)]
  show ?thesis using assms(2,3)
    apply (clarsimp simp: NewMetrics_def first_metric_def ep Let_def bind_eq_Some_conv case_prod_beta)
    apply (intro conjI)
     apply (rule mono(6), (rule mono(5), assumption)+, rule mono(4), assumption,
       rule mono(3), assumption, rule mono(3), assumption, rule mono(3), assumption, rule mono(3), assumption,
       rule mono(1), assumption)
    apply (erule mono(2))
    done
qed

text \<open>The metrics can be initialised once in a process: a second \<open>InitMetrics\<close> panics on the first name, also
  after a \<open>Shutdown\<close>, which closes the server and unregisters nothing.\<close>

theorem metrics_registered_once:
  assumes "lawful_registry pm names" and "mc_Enabled config" and "InitMetrics pm config w = Some (dm, w')"
  shows "InitMetrics pm config (snd (default_metrics_Shutdown pm dm w')) = None"
proof -
  obtain m where m: "dm = Some m" "NewMetrics pm config w = Some (m, w')"
    using assms(3) by (auto simp: InitMetrics_def)
  have "first_metric config \<in> names (snd (default_metrics_Shutdown pm dm w'))"
    using NewMetrics_registers [OF assms(1) m(2) assms(2)] registry_mono(7) [OF assms(1)]
    by (auto simp: m(1) default_metrics_Shutdown_def metrics_Shutdown_def split: option.split)
  then have "NewMetrics pm config (snd (default_metrics_Shutdown pm dm w')) = None"
    using NewMetrics_registers [OF assms(1) _ assms(2)] by (metis not_None_eq old.prod.exhaust)
  then show ?thesis by (simp add: InitMetrics_def)
qed

lemma demo_prom_lawful: "lawful_registry demo_prom set"
  by (auto simp: lawful_registry_def demo_prom_def demo_register_def split: if_splits)

theorem metrics_registered_once_witness:
  "\<exists>dm w. InitMetrics demo_prom main_metrics [] = Some (dm, w) \<and> InitMetrics demo_prom main_metrics w = None"
proof -
  obtain dm w where i: "InitMetrics demo_prom main_metrics [] = Some (dm, w)" using main_metrics_init by blast
  have "mc_Enabled main_metrics" "snd (default_metrics_Shutdown demo_prom dm w) = w"
    by (simp_all add: main_metrics_def default_metrics_Shutdown_def metrics_Shutdown_def demo_prom_def split: option.split)
  with metrics_registered_once [OF demo_prom_lawful _ i] i show ?thesis by simp
qed

end
