(* ===== verification/Spec2Isabelle.thy ===== *)
theory Spec2Isabelle
  imports SqsClaims PoolThreadClaims WorkerClaims JsonClaims MetricsClaims
begin

text \<open>
  A model of celeryToGo, a Celery worker written in Go: a worker process receives task messages
  from an AWS SQS FIFO queue, executes the tasks on a pool of Python processes, and acknowledges
  the messages.

  The parts and how they interact. The program (\<open>cmd/worker/main.go\<close>) reads its flags, sets up and starts the
  parts, and shuts them down after a signal. The broker (\<open>internal/broker/sqs/fifo.go\<close>) fetches messages from SQS
  and hands them out, keeping per message group whether one of its messages is being processed and a queue of
  prefetched messages. The worker (\<open>internal/worker/factory.go\<close>) polls the broker, decodes each
  message with the protocol, and starts a goroutine that runs the task on the pool and then acknowledges the
  message to the broker. The pool (\<open>internal/pool/python/pool.go\<close>) runs one goroutine per allowed
  process; each takes an idle process or creates one, executes the task on it
  (\<open>internal/pool/python/process.go\<close>) over the child's stdin and stdout, and then returns or recycles the
  process; a monitor goroutine recycles processes and keeps the minimum. The protocol
  (\<open>internal/protocol/celery/json.go\<close>, \<open>internal/protocol/message/message.go\<close>) decodes Celery messages and
  writes and reads the JSON lines between the pool and the children.

  The theories, by component:

  \<^item> \<open>Prelude\<close>: names for Go's types, the collections of unfolding rules, int32 conversion, the order of a map
    iteration as a parameter.
  \<^item> \<open>Base64\<close>: the standard library's base64 codec, with the round trip.
  \<^item> \<open>Broker\<close>: messages, the configuration, and the contract \<open>group_broker\<close> that a client of a broker relies on.
  \<^item> \<open>SqsBroker\<close>: every method of \<open>fifo.go\<close>. The SQS client is a record of functions without any law.
  \<^item> \<open>SqsGroups\<close>, \<open>SqsSteps\<close>, \<open>SqsProps\<close>: what the group operations do to the views of a group (queued, processing,
    ready, stuck), the critical sections as a step relation, invariants, the interpretation of
    \<open>group_broker\<close>, and which marks a receive sets. Nothing is assumed of SQS beyond its answers: it may
    redeliver a message.
  \<^item> \<open>GoValue\<close>, \<open>Protocol\<close>, \<open>PoolTypes\<close>: dynamic Go values, payloads and the protocol interface with the contract
    \<open>codec\<close>, the pool's types.
  \<^item> \<open>Json\<close>, \<open>JsonString\<close>, \<open>Decimal\<close>, \<open>Float64\<close>, \<open>TimeText\<close>, \<open>JsonValue\<close>, \<open>GoFormat\<close>: what the protocol uses of
    \<open>encoding/json\<close>, \<open>strconv\<close>, \<open>time\<close> and \<open>fmt\<close>: parser and printer, string quoting over UTF-8, decimal and float64
    texts, the values of an \<open>interface{}\<close>.
  \<^item> \<open>Messages\<close>, \<open>JsonProtocol\<close>: every function of \<open>message.go\<close> and \<open>json.go\<close>; structs are decoded field by field with
    the name matching of \<open>encoding/json\<close>.
  \<^item> \<open>JsonLemmas\<close>, \<open>JsonCodec\<close>, \<open>JsonCelery\<close>, \<open>JsonTypes\<close>: printed JSON parses back, the round trips of the messages and of
    Celery's format, the well-formedness of whatever is decoded.
  \<^item> \<open>PythonProcess\<close>, \<open>ProcessPool\<close>: every method of the process and of the pool, each pool method as the
    composition of its critical sections.
  \<^item> \<open>StdoutReaders\<close>: the scanner over a pipe with its limit of 64 KiB, and the two goroutines that read the stdout
    of a child, \<open>handleStdout\<close> and the reader of \<open>ExecuteTask\<close>. The history of the pipe is a list of reads, each
    served to one of them; \<open>stdout_of\<close> gives the lines that a reader sees, which the model of \<open>ExecuteTask\<close> takes.
  \<^item> \<open>PoolLemmas\<close>, \<open>PoolInv\<close>, \<open>PoolRuns\<close>: the contract \<open>task_executor\<close>, termination of \<open>getIdleProcess\<close>, the invariant
    of the pool and its preservation by every call. Here the calls run one after the other.
  \<^item> \<open>PoolThreads\<close>: the goroutines of the pool interleaved at the granularity of the critical sections, with
    the invariants that hold there.
  \<^item> \<open>TaskChannel\<close>: the contract \<open>result_protocol\<close> of a protocol between the pool and a child, which extends \<open>codec\<close>,
    and what a task gets over it.
  \<^item> \<open>Worker\<close>, \<open>WorkerLemmas\<close>: the worker and its goroutines over any broker, with its invariants; the lemmas on
    groups are proved inside \<open>group_broker\<close> and used at its interpretation. The loop checks its context and its
    shutdown channel in one step and receives in another; every call of the broker gets the context of the worker, and
    an acknowledgement that the broker refuses is kept apart from one that succeeded.
  \<^item> \<open>GoFlags\<close>, \<open>CommandLine\<close>: what main uses of \<open>flag\<close>, \<open>strconv\<close>, \<open>time\<close> and \<open>filepath\<close>, the table of the flags, and
    \<open>parseFlags\<close>.
  \<^item> \<open>Metrics\<close>, \<open>Tracing\<close>: every function of \<open>metrics.go\<close> and \<open>tracer.go\<close> over the client libraries as parameters.
  \<^item> \<open>WorkerMain\<close>, \<open>MainLemmas\<close>: main, which composes the models of the components, all in the environment main was started
    with; its start of the pool is a run of the pool's goroutines, so what holds in every interleaving holds in
    the program.
  \<^item> \<open>SqsClaims\<close>, \<open>PoolClaims\<close>, \<open>PoolThreadClaims\<close>, \<open>WorkerClaims\<close>, \<open>JsonClaims\<close>, \<open>MainClaims\<close>, \<open>MetricsClaims\<close>: the properties
    and their witnesses.

  State and types. A Go struct is a record with the same fields under a short prefix; a mutex is the atomicity of
  a definition; integers that the code does not narrow are \<open>int\<close>, the conversions to int32 and from float64 are written out; a
  string and a byte slice are lists of characters, one per byte. Logging is left out everywhere; a fatal message
  is the end of main with status 1. What the code reads from outside (the operating system, SQS, the clock, UUIDs, the
  iteration order of maps, which case of a select is taken, the metrics and tracing libraries) is an argument.

  Fuel and bounds. No definition uses fuel. Recursion that is not structural has a measure; \<open>getIdleProcess\<close> is a
  partial function that is proved to return always. A run of main is given by the steps of its goroutines, and
  is \<open>None\<close> when these are not the steps of a run to its end.

  Not modelled: the text of log lines (\<open>internal/observability/logging\<close> only passes them to logrus), the insides of the
  SQS, Prometheus and OpenTelemetry clients, and the Python script, whose output is an input. The metrics client is
  total: a panic of \<open>WithLabelValues\<close> over label values it refuses is not part of the model. A receive is one
  step: an acknowledgement that runs while the receive waits for SQS comes before it or after it. Main sees the
  termination signal only after the worker was started; a signal that comes earlier makes a call of the set-up
  fail, which is an answer of the parameters.
\<close>

end
